(* ===== verification/Gpiod_Prelude.thy ===== *)
theory Gpiod_Prelude
  imports Main "HOL-Library.Word" "HOL-Library.AList" "HOL-Library.Code_Target_Numeral"
begin

text \<open>
  Shared vocabulary of the development: machine integer types, \<open>errno\<close>, the C run-time state
  (the allocator and \<open>errno\<close>), C strings in fixed character arrays, and the generic lemmas on
  lists, folds and words which the components use.

  The allocator state records which allocation attempts fail (\<open>oom\<close>), how many attempts were
  made (\<open>nalloc\<close>), which blocks are allocated (\<open>live\<close>) and whether a block that is not
  allocated was ever released (\<open>heap_fault\<close>).  The block handed out by attempt \<open>k\<close> is named
  \<open>k\<close>, so no block is ever handed out twice.
\<close>

unbundle bit_operations_syntax

named_theorems crt_simps \<open>equations of the C run-time model\<close>
named_theorems cstr_simps \<open>equations of the C string model\<close>

section \<open>Machine integers and errno\<close>

type_synonym u32 = "32 word"
type_synonym u64 = "64 word"

text \<open>The \<open>errno\<close> values the sources mention; a system call may produce others.\<close>

datatype errno = ENONE | EINVAL | E2BIG | ENOENT | ENOMEM | ENODEV | ENOTTY | EIO | ENOMSG
  | EACCES | EOTHER int

text \<open>Addition of two \<open>size_t\<close> values wraps at 64 bits.\<close>

definition size_add :: "nat \<Rightarrow> nat \<Rightarrow> nat" where
  "size_add a b = (a + b) mod 2 ^ 64"

section \<open>The C run-time state\<close>

record crt =
  crt_errno :: errno
  oom :: "nat \<Rightarrow> bool"
  nalloc :: nat
  live :: "nat set"
  heap_fault :: bool

text \<open>An object in the heap, as the pointer to it sees it: its block and its contents.\<close>

type_synonym 'a obj = "nat \<times> 'a"

definition set_errno :: "errno \<Rightarrow> crt \<Rightarrow> crt" where
  "set_errno e c = c\<lparr>crt_errno := e\<rparr>"

definition malloc :: "crt \<Rightarrow> nat option \<times> crt" where
  "malloc c =
     (let k = nalloc c; c' = c\<lparr>nalloc := Suc k\<rparr>
      in if oom c k then (None, set_errno ENOMEM c')
         else (Some k, c'\<lparr>live := insert k (live c)\<rparr>))"

definition free :: "nat \<Rightarrow> crt \<Rightarrow> crt" where
  "free b c = (if b \<in> live c then c\<lparr>live := live c - {b}\<rparr> else c\<lparr>heap_fault := True\<rparr>)"

text \<open>
  The idiom \<open>p = malloc(sizeof(*p)); if (!p) return NULL; *p = x; return p;\<close>: the pointer is the
  block with its contents, \<open>None\<close> is \<open>NULL\<close>.
\<close>

definition malloc_obj :: "'a \<Rightarrow> crt \<Rightarrow> 'a obj option \<times> crt" where
  "malloc_obj x c =
     (case malloc c of (None, c) \<Rightarrow> (None, c) | (Some b, c) \<Rightarrow> (Some (b, x), c))"

definition free_obj :: "'a obj \<Rightarrow> crt \<Rightarrow> crt" where
  "free_obj p c = free (fst p) c"

text \<open>Blocks in use were handed out by an attempt that was made.\<close>

definition heap_ok :: "crt \<Rightarrow> bool" where
  "heap_ok c \<longleftrightarrow> live c \<subseteq> {..<nalloc c} \<and> \<not> heap_fault c"

definition crt_init :: crt where
  "crt_init = \<lparr>crt_errno = ENONE, oom = (\<lambda>_. False), nalloc = 0, live = {}, heap_fault = False\<rparr>"

lemma set_errno_simps [simp, crt_simps]:
  "crt_errno (set_errno e c) = e" "oom (set_errno e c) = oom c"
  "nalloc (set_errno e c) = nalloc c" "live (set_errno e c) = live c"
  "heap_fault (set_errno e c) = heap_fault c" "heap_ok (set_errno e c) = heap_ok c"
  by (simp_all add: set_errno_def heap_ok_def)

lemma malloc_cases:
  obtains (fail) "malloc c = (None, set_errno ENOMEM (c\<lparr>nalloc := Suc (nalloc c)\<rparr>))"
    "oom c (nalloc c)"
  | (ok) "malloc c = (Some (nalloc c), c\<lparr>nalloc := Suc (nalloc c), live := insert (nalloc c) (live c)\<rparr>)"
    "\<not> oom c (nalloc c)"
  by (cases "oom c (nalloc c)") (auto simp: malloc_def Let_def)

lemma malloc_SomeD:
  assumes "malloc c = (Some b, c')"
  shows "b = nalloc c" "live c' = insert b (live c)" "nalloc c' = Suc (nalloc c)"
    "crt_errno c' = crt_errno c" "heap_fault c' = heap_fault c" "oom c' = oom c"
    "\<not> oom c (nalloc c)"
  using assms by (auto simp: malloc_def Let_def split: if_splits)

lemma malloc_NoneD:
  assumes "malloc c = (None, c')"
  shows "live c' = live c" "nalloc c' = Suc (nalloc c)" "crt_errno c' = ENOMEM"
    "heap_fault c' = heap_fault c" "oom c' = oom c" "oom c (nalloc c)"
  using assms by (auto simp: malloc_def Let_def split: if_splits)

lemma free_simps [simp]:
  "nalloc (free b c) = nalloc c" "crt_errno (free b c) = crt_errno c" "oom (free b c) = oom c"
  "live (free b c) = live c - {b}"
  by (auto simp: free_def)

lemma heap_fault_free [simp]: "heap_fault (free b c) \<longleftrightarrow> heap_fault c \<or> b \<notin> live c"
  by (auto simp: free_def)

lemma heap_ok_fresh: "heap_ok c \<Longrightarrow> nalloc c \<notin> live c"
  by (auto simp: heap_ok_def)

lemma heap_ok_crt_init [simp]: "heap_ok crt_init"
  by (simp add: heap_ok_def crt_init_def)

lemma heap_ok_free: "heap_ok c \<Longrightarrow> b \<in> live c \<Longrightarrow> heap_ok (free b c)"
  by (auto simp: heap_ok_def)

lemma heap_ok_malloc_Some: "heap_ok c \<Longrightarrow> malloc c = (Some b, c') \<Longrightarrow> heap_ok c'"
  by (auto simp: heap_ok_def malloc_def Let_def split: if_splits)

lemma heap_ok_malloc_None: "heap_ok c \<Longrightarrow> malloc c = (None, c') \<Longrightarrow> heap_ok c'"
  by (auto simp: heap_ok_def malloc_def Let_def split: if_splits)

lemma malloc_obj_cases:
  obtains (fail) "malloc_obj x c = (None, set_errno ENOMEM (c\<lparr>nalloc := Suc (nalloc c)\<rparr>))"
    "oom c (nalloc c)"
  | (ok) "malloc_obj x c =
      (Some (nalloc c, x), c\<lparr>nalloc := Suc (nalloc c), live := insert (nalloc c) (live c)\<rparr>)"
    "\<not> oom c (nalloc c)"
  by (cases rule: malloc_cases [of c]) (auto simp: malloc_obj_def)

lemma malloc_obj_SomeD:
  assumes "malloc_obj x c = (Some p, c')"
  shows "p = (nalloc c, x)" "live c' = insert (nalloc c) (live c)" "crt_errno c' = crt_errno c"
    "heap_ok c \<Longrightarrow> heap_ok c'" "nalloc c' = Suc (nalloc c)" "oom c' = oom c"
  using assms
  by (auto simp: malloc_obj_def malloc_def heap_ok_def Let_def less_Suc_eq split: if_splits)

lemma malloc_obj_NoneD:
  assumes "malloc_obj x c = (None, c')"
  shows "live c' = live c" "crt_errno c' = ENOMEM" "heap_ok c \<Longrightarrow> heap_ok c'"
    "nalloc c' = Suc (nalloc c)" "oom c' = oom c"
  using assms
  by (auto simp: malloc_obj_def malloc_def heap_ok_def Let_def less_Suc_eq split: if_splits)

section \<open>Heap objects: the allocate/release contract\<close>

text \<open>
  Every object type of the library comes with a constructor and a destructor.  The contract: a
  constructor that fails leaves no block behind; one that succeeds adds exactly the blocks of the
  new object, all fresh; the destructor releases exactly these blocks, each once.  \<open>inv\<close> is the
  invariant the constructor establishes and the destructor relies on.
\<close>

locale heap_object =
  fixes new :: "crt \<Rightarrow> 'a option \<times> crt"
    and release :: "'a \<Rightarrow> crt \<Rightarrow> crt"
    and blocks :: "'a \<Rightarrow> nat set"
    and inv :: "'a \<Rightarrow> bool"
  assumes new_fail: "\<And>c c'. new c = (None, c') \<Longrightarrow> heap_ok c \<Longrightarrow> heap_ok c' \<and> live c' = live c"
    and new_ok: "\<And>c x c'. new c = (Some x, c') \<Longrightarrow> heap_ok c \<Longrightarrow>
      heap_ok c' \<and> live c' = live c \<union> blocks x \<and> live c \<inter> blocks x = {} \<and> inv x"
    and release_ok: "\<And>c x. heap_ok c \<Longrightarrow> inv x \<Longrightarrow> blocks x \<subseteq> live c \<Longrightarrow>
      heap_ok (release x c) \<and> live (release x c) = live c - blocks x"
begin

lemma new_then_release:
  assumes "heap_ok c" "new c = (Some x, c')"
  shows "heap_ok (release x c') \<and> live (release x c') = live c"
proof -
  from new_ok [OF assms(2) assms(1)] have *: "heap_ok c'" "live c' = live c \<union> blocks x"
    "live c \<inter> blocks x = {}" "inv x" by auto
  then have "heap_ok (release x c') \<and> live (release x c') = live c' - blocks x"
    by (intro release_ok) auto
  with * show ?thesis by auto
qed

lemma release_frame:
  "heap_ok c \<Longrightarrow> inv x \<Longrightarrow> blocks x \<subseteq> live c \<Longrightarrow> blocks y \<subseteq> live c \<Longrightarrow> blocks x \<inter> blocks y = {} \<Longrightarrow>
     blocks y \<subseteq> live (release x c)"
  using release_ok [of c x] by auto

end

text \<open>Objects in one block, from \<open>malloc_obj\<close> to \<open>free_obj\<close>, keep the contract.\<close>

interpretation one_block: heap_object "malloc_obj x" free_obj "\<lambda>p. {fst p}" "\<lambda>_. True"
  for x :: 'a
proof
  fix c c' :: crt
  assume "malloc_obj x c = (None, c')" "heap_ok c"
  then show "heap_ok c' \<and> live c' = live c" using malloc_obj_NoneD(1,3) [of x c c'] by simp
next
  fix c c' :: crt and p :: "'a obj"
  assume "malloc_obj x c = (Some p, c')" "heap_ok c"
  then show "heap_ok c' \<and> live c' = live c \<union> {fst p} \<and> live c \<inter> {fst p} = {} \<and> True"
    using malloc_obj_SomeD(1,2,4) [of x c p c'] heap_ok_fresh [of c] by simp
next
  fix c :: crt and p :: "'a obj"
  assume "heap_ok c" "{fst p} \<subseteq> live c"
  then show "heap_ok (free_obj p c) \<and> live (free_obj p c) = live c - {fst p}"
    by (simp add: free_obj_def heap_ok_free)
qed

section \<open>C strings\<close>

text \<open>
  A character array is a list of its characters, the terminator included.  \<open>c_str\<close> is the string
  stored at the start of an array: the characters before the first NUL.  A \<open>const char *\<close> argument
  is given by its characters without the terminator.
\<close>

abbreviation NUL :: char where
  "NUL \<equiv> CHR 0x00"

definition c_str :: "char list \<Rightarrow> string" where
  "c_str a = takeWhile (\<lambda>ch. ch \<noteq> NUL) a"

definition strncpy :: "char list \<Rightarrow> char list \<Rightarrow> nat \<Rightarrow> char list" where
  "strncpy dst src n = (let s = take n (c_str src) in s @ replicate (n - length s) NUL @ drop n dst)"

definition strcpy :: "char list \<Rightarrow> char list \<Rightarrow> char list" where
  "strcpy dst src = (let s = c_str src in s @ NUL # drop (Suc (length s)) dst)"

definition strcmp_eq :: "char list \<Rightarrow> char list \<Rightarrow> bool" where
  "strcmp_eq a b \<longleftrightarrow> c_str a = c_str b"

definition c_string :: "string \<Rightarrow> bool" where
  "c_string s \<longleftrightarrow> NUL \<notin> set s"

lemma c_str_of_string [cstr_simps]: "c_string s \<Longrightarrow> c_str s = s"
  by (auto simp: c_str_def c_string_def takeWhile_eq_all_conv)

lemma c_str_append_NUL [cstr_simps]: "c_string s \<Longrightarrow> c_str (s @ NUL # r) = s"
  by (induction s) (auto simp: c_str_def c_string_def)

lemma c_string_c_str [simp]: "c_string (c_str a)"
  by (auto simp: c_str_def c_string_def dest: set_takeWhileD)

lemma c_string_take: "c_string s \<Longrightarrow> c_string (take n s)"
  by (auto simp: c_string_def dest: in_set_takeD)

lemma length_c_str_le [simp]: "length (c_str a) \<le> length a"
  by (simp add: c_str_def length_takeWhile_le)

lemma length_strncpy: "n \<le> length dst \<Longrightarrow> length (strncpy dst src n) = length dst"
  by (simp add: strncpy_def Let_def)

lemma length_strcpy: "length (c_str src) < length dst \<Longrightarrow> length (strcpy dst src) = length dst"
  by (simp add: strcpy_def Let_def)

lemma c_str_strcpy [cstr_simps]: "c_str (strcpy dst src) = c_str src"
  by (simp add: strcpy_def Let_def cstr_simps)

lemma c_str_strncpy:
  assumes "length (c_str src) < n"
  shows "c_str (strncpy dst src n) = c_str src"
proof -
  obtain m where "n - length (c_str src) = Suc m"
    using assms by (metis Suc_diff_Suc)
  then have "strncpy dst src n = c_str src @ NUL # replicate m NUL @ drop n dst"
    using assms by (simp add: strncpy_def Let_def)
  then show ?thesis by (simp add: cstr_simps)
qed

lemma length_c_str_less: "NUL \<in> set a \<Longrightarrow> length (c_str a) < length a"
proof -
  assume "NUL \<in> set a"
  then have "c_str a \<noteq> a" by (metis c_string_c_str c_string_def)
  then show ?thesis
    by (metis c_str_def le_neq_implies_less length_takeWhile_le takeWhile_eq_take take_all_iff)
qed

section \<open>Lists and folds\<close>

lemma filter_upt_Suc:
  "filter P [0..<Suc n] = filter P [0..<n] @ (if P n then [n] else [])"
  by simp

text \<open>A search loop \<open>for (i = 0; i < n; i++) if (P(i)) return i;\<close> is \<open>find P [0..<n]\<close>.\<close>

lemma find_upt_Some: "find P [0..<n] = Some i \<longleftrightarrow> i < n \<and> P i \<and> (\<forall>j < i. \<not> P j)"
  by (auto simp: find_Some_iff)

lemma find_upt_None: "find P [0..<n] = None \<longleftrightarrow> (\<forall>i < n. \<not> P i)"
  by (auto simp: find_None_iff)

text \<open>A loop that writes the first \<open>n\<close> entries of an array.\<close>

lemma fold_update_prefix:
  assumes "n \<le> length xs"
  shows "fold (\<lambda>i es. es[i := f i]) [0..<n] xs = map f [0..<n] @ drop n xs"
  using assms
proof (induction n)
  case (Suc n)
  then have "drop n xs = xs ! n # drop (Suc n) xs" by (simp add: Cons_nth_drop_Suc)
  with Suc show ?case by (simp add: list_update_append)
qed simp

text \<open>Association lists updated at a known position.\<close>

lemma AList_update_at:
  assumes "i < length xs" "fst (xs ! i) = k" "\<forall>j < i. fst (xs ! j) \<noteq> k"
  shows "AList.update k v xs = xs[i := (k, v)]"
  using assms
proof (induction xs arbitrary: i)
  case (Cons x xs)
  show ?case
  proof (cases i)
    case 0
    with Cons.prems show ?thesis by (cases x) auto
  next
    case (Suc i')
    with Cons.prems have ne: "fst x \<noteq> k" and "\<forall>j < i'. fst (xs ! j) \<noteq> k"
      by (auto dest: spec [of _ 0] spec [of _ "Suc _"])
    with Cons Suc have "AList.update k v xs = xs[i' := (k, v)]" by simp
    with ne Suc show ?thesis by (cases x) auto
  qed
qed simp

lemma AList_update_new: "k \<notin> fst ` set xs \<Longrightarrow> AList.update k v xs = xs @ [(k, v)]"
  by (induction xs) auto

lemma map_AList_update:
  "map (\<lambda>(k, x). (k, f x)) (AList.update k y xs) = AList.update k (f y) (map (\<lambda>(k, x). (k, f x)) xs)"
  by (induction xs) auto

lemma map_fold_AList_update:
  "map (\<lambda>(k, x). (k, f x)) (fold (\<lambda>k. AList.update k y) ks xs)
     = fold (\<lambda>k. AList.update k (f y)) ks (map (\<lambda>(k, x). (k, f x)) xs)"
  by (induction ks arbitrary: xs) (simp_all add: map_AList_update)

lemma map_of_fold_AList_update:
  "map_of (fold (\<lambda>k. AList.update k y) ks xs) k
     = (if k \<in> set ks then Some y else map_of xs k)"
  by (induction ks arbitrary: xs) (auto simp: update_conv)

lemma distinct_fold_AList_update:
  "distinct (map fst xs) \<Longrightarrow> distinct (map fst (fold (\<lambda>k. AList.update k y) ks xs))"
  by (induction ks arbitrary: xs) (simp_all add: distinct_update)

lemma length_AList_update_le: "length (AList.update k v xs) \<le> Suc (length xs)"
  by (induction xs) auto

lemma set_fold_AList_update:
  "set (fold (\<lambda>k. AList.update k y) ks xs) \<subseteq> set xs \<union> (\<lambda>k. (k, y)) ` set ks"
proof (induction ks arbitrary: xs)
  case (Cons k ks)
  have "set (AList.update k y xs) \<subseteq> insert (k, y) (set xs)"
    by (induction xs) auto
  with Cons [of "AList.update k y xs"] show ?case by auto
qed simp

lemma sint_u32_of_nat: "i < 2 ^ 31 \<Longrightarrow> sint (of_nat i :: u32) = int i"
  by (simp add: signed_of_nat signed_take_bit_int_eq_self)

lemma size_add_no_wrap: "a \<le> 64 \<Longrightarrow> b < 2 ^ 62 \<Longrightarrow> size_add a b = a + b"
  by (simp add: size_add_def)

end
