(* ===== verification/Gpiod_Uapi.thy ===== *)
theory Gpiod_Uapi
  imports Gpiod_Prelude
begin

text \<open>
  The user-space ABI of the GPIO character device (\<open>lib/uapi/gpio.h\<close>): its limits, its flag and
  identifier enumerations, its structures, and the system-call boundary of the library.

  The second half states what the ABI documentation in that header says a line configuration
  \<^emph>\<open>means\<close>: default flags overridden per line by attributes, of which the one with the lowest
  index wins.  The functions \<open>effective_flags\<close>, \<open>effective_debounce\<close> and \<open>effective_value\<close> are the
  abstract reading against which the encoder of \<open>line-config.c\<close> is verified.
\<close>

section \<open>Limits\<close>

definition GPIO_MAX_NAME_SIZE :: nat where
  "GPIO_MAX_NAME_SIZE = 32"

definition GPIO_V2_LINES_MAX :: nat where
  "GPIO_V2_LINES_MAX = 64"

definition GPIO_V2_LINE_NUM_ATTRS_MAX :: nat where
  "GPIO_V2_LINE_NUM_ATTRS_MAX = 10"

lemmas uapi_limits = GPIO_MAX_NAME_SIZE_def GPIO_V2_LINES_MAX_def GPIO_V2_LINE_NUM_ATTRS_MAX_def

section \<open>Flags and identifiers\<close>

datatype gpio_v2_line_flag =
    GPIO_V2_LINE_FLAG_USED
  | GPIO_V2_LINE_FLAG_ACTIVE_LOW
  | GPIO_V2_LINE_FLAG_INPUT
  | GPIO_V2_LINE_FLAG_OUTPUT
  | GPIO_V2_LINE_FLAG_EDGE_RISING
  | GPIO_V2_LINE_FLAG_EDGE_FALLING
  | GPIO_V2_LINE_FLAG_OPEN_DRAIN
  | GPIO_V2_LINE_FLAG_OPEN_SOURCE
  | GPIO_V2_LINE_FLAG_BIAS_PULL_UP
  | GPIO_V2_LINE_FLAG_BIAS_PULL_DOWN
  | GPIO_V2_LINE_FLAG_BIAS_DISABLED
  | GPIO_V2_LINE_FLAG_EVENT_CLOCK_REALTIME
  | GPIO_V2_LINE_FLAG_EVENT_CLOCK_HTE

text \<open>The bit number of each flag, and its value \<open>_BITULL(n)\<close>.\<close>

fun line_flag_nr :: "gpio_v2_line_flag \<Rightarrow> nat" where
  "line_flag_nr GPIO_V2_LINE_FLAG_USED = 0"
| "line_flag_nr GPIO_V2_LINE_FLAG_ACTIVE_LOW = 1"
| "line_flag_nr GPIO_V2_LINE_FLAG_INPUT = 2"
| "line_flag_nr GPIO_V2_LINE_FLAG_OUTPUT = 3"
| "line_flag_nr GPIO_V2_LINE_FLAG_EDGE_RISING = 4"
| "line_flag_nr GPIO_V2_LINE_FLAG_EDGE_FALLING = 5"
| "line_flag_nr GPIO_V2_LINE_FLAG_OPEN_DRAIN = 6"
| "line_flag_nr GPIO_V2_LINE_FLAG_OPEN_SOURCE = 7"
| "line_flag_nr GPIO_V2_LINE_FLAG_BIAS_PULL_UP = 8"
| "line_flag_nr GPIO_V2_LINE_FLAG_BIAS_PULL_DOWN = 9"
| "line_flag_nr GPIO_V2_LINE_FLAG_BIAS_DISABLED = 10"
| "line_flag_nr GPIO_V2_LINE_FLAG_EVENT_CLOCK_REALTIME = 11"
| "line_flag_nr GPIO_V2_LINE_FLAG_EVENT_CLOCK_HTE = 12"

definition BITULL :: "nat \<Rightarrow> u64" where
  "BITULL n = push_bit n 1"

definition line_flag :: "gpio_v2_line_flag \<Rightarrow> u64" where
  "line_flag f = BITULL (line_flag_nr f)"

text \<open>The C condition \<open>flags & FLAG\<close>.\<close>

definition has_flag :: "u64 \<Rightarrow> gpio_v2_line_flag \<Rightarrow> bool" where
  "has_flag flags f \<longleftrightarrow> flags AND line_flag f \<noteq> 0"

definition GPIO_V2_LINE_ATTR_ID_FLAGS :: u32 where
  "GPIO_V2_LINE_ATTR_ID_FLAGS = 1"

definition GPIO_V2_LINE_ATTR_ID_OUTPUT_VALUES :: u32 where
  "GPIO_V2_LINE_ATTR_ID_OUTPUT_VALUES = 2"

definition GPIO_V2_LINE_ATTR_ID_DEBOUNCE :: u32 where
  "GPIO_V2_LINE_ATTR_ID_DEBOUNCE = 3"

lemmas attr_ids = GPIO_V2_LINE_ATTR_ID_FLAGS_def GPIO_V2_LINE_ATTR_ID_OUTPUT_VALUES_def
  GPIO_V2_LINE_ATTR_ID_DEBOUNCE_def

definition GPIOLINE_CHANGED_REQUESTED :: u32 where
  "GPIOLINE_CHANGED_REQUESTED = 1"

definition GPIOLINE_CHANGED_RELEASED :: u32 where
  "GPIOLINE_CHANGED_RELEASED = 2"

definition GPIOLINE_CHANGED_CONFIG :: u32 where
  "GPIOLINE_CHANGED_CONFIG = 3"

lemmas changed_ids = GPIOLINE_CHANGED_REQUESTED_def GPIOLINE_CHANGED_RELEASED_def
  GPIOLINE_CHANGED_CONFIG_def

definition GPIO_V2_LINE_EVENT_RISING_EDGE :: u32 where
  "GPIO_V2_LINE_EVENT_RISING_EDGE = 1"

definition GPIO_V2_LINE_EVENT_FALLING_EDGE :: u32 where
  "GPIO_V2_LINE_EVENT_FALLING_EDGE = 2"

lemmas event_ids = GPIO_V2_LINE_EVENT_RISING_EDGE_def GPIO_V2_LINE_EVENT_FALLING_EDGE_def

section \<open>Structures\<close>

record gpiochip_info =
  ci_name :: "char list"
  ci_label :: "char list"
  ci_lines :: u32

record gpio_v2_line_values =
  lv_bits :: u64
  lv_mask :: u64

text \<open>
  The anonymous union of \<open>struct gpio_v2_line_attribute\<close>: the member stored last, with its value.
\<close>

datatype line_attr_union = AttrFlags u64 | AttrValues u64 | AttrDebounce u32

record gpio_v2_line_attribute =
  la_id :: u32
  la_padding :: u32
  la_data :: line_attr_union

text \<open>
  Reading a member.  Reading \<open>debounce_period_us\<close> after another member was stored takes its first
  four bytes, the low half on a little-endian machine.
\<close>

fun la_flags :: "gpio_v2_line_attribute \<Rightarrow> u64" where
  "la_flags a = (case la_data a of AttrFlags f \<Rightarrow> f | AttrValues v \<Rightarrow> v | AttrDebounce d \<Rightarrow> ucast d)"

fun la_values :: "gpio_v2_line_attribute \<Rightarrow> u64" where
  "la_values a = (case la_data a of AttrFlags f \<Rightarrow> f | AttrValues v \<Rightarrow> v | AttrDebounce d \<Rightarrow> ucast d)"

fun la_debounce_period_us :: "gpio_v2_line_attribute \<Rightarrow> u32" where
  "la_debounce_period_us a =
     (case la_data a of AttrFlags f \<Rightarrow> ucast f | AttrValues v \<Rightarrow> ucast v | AttrDebounce d \<Rightarrow> d)"

record gpio_v2_line_config_attribute =
  lca_attr :: gpio_v2_line_attribute
  lca_mask :: u64

record gpio_v2_line_config =
  lc_flags :: u64
  lc_num_attrs :: u32
  lc_padding :: "u32 list"
  lc_attrs :: "gpio_v2_line_config_attribute list"

record gpio_v2_line_request =
  lr_offsets :: "u32 list"
  lr_consumer :: "char list"
  lr_config :: gpio_v2_line_config
  lr_num_lines :: u32
  lr_event_buffer_size :: u32
  lr_padding :: "u32 list"
  lr_fd :: int

record gpio_v2_line_info =
  li_name :: "char list"
  li_consumer :: "char list"
  li_offset :: u32
  li_num_attrs :: u32
  li_flags :: u64
  li_attrs :: "gpio_v2_line_attribute list"
  li_padding :: "u32 list"

record gpio_v2_line_info_changed =
  lic_info :: gpio_v2_line_info
  lic_timestamp_ns :: u64
  lic_event_type :: u32
  lic_padding :: "u32 list"

record gpio_v2_line_event =
  le_timestamp_ns :: u64
  le_id :: u32
  le_offset :: u32
  le_seqno :: u32
  le_line_seqno :: u32
  le_padding :: "u32 list"

text \<open>The structures as \<open>memset(.., 0, ..)\<close> leaves them.\<close>

definition zero_chip_info :: gpiochip_info where
  "zero_chip_info = \<lparr>ci_name = replicate GPIO_MAX_NAME_SIZE NUL,
     ci_label = replicate GPIO_MAX_NAME_SIZE NUL, ci_lines = 0\<rparr>"

definition zero_attribute :: gpio_v2_line_attribute where
  "zero_attribute = \<lparr>la_id = 0, la_padding = 0, la_data = AttrFlags 0\<rparr>"

definition zero_config_attribute :: gpio_v2_line_config_attribute where
  "zero_config_attribute = \<lparr>lca_attr = zero_attribute, lca_mask = 0\<rparr>"

definition zero_line_config :: gpio_v2_line_config where
  "zero_line_config = \<lparr>lc_flags = 0, lc_num_attrs = 0, lc_padding = replicate 5 0,
     lc_attrs = replicate GPIO_V2_LINE_NUM_ATTRS_MAX zero_config_attribute\<rparr>"

definition zero_line_request :: gpio_v2_line_request where
  "zero_line_request = \<lparr>lr_offsets = replicate GPIO_V2_LINES_MAX 0,
     lr_consumer = replicate GPIO_MAX_NAME_SIZE NUL, lr_config = zero_line_config,
     lr_num_lines = 0, lr_event_buffer_size = 0, lr_padding = replicate 5 0, lr_fd = 0\<rparr>"

definition zero_line_info :: gpio_v2_line_info where
  "zero_line_info = \<lparr>li_name = replicate GPIO_MAX_NAME_SIZE NUL,
     li_consumer = replicate GPIO_MAX_NAME_SIZE NUL, li_offset = 0, li_num_attrs = 0,
     li_flags = 0, li_attrs = replicate GPIO_V2_LINE_NUM_ATTRS_MAX zero_attribute,
     li_padding = replicate 4 0\<rparr>"

definition zero_line_info_changed :: gpio_v2_line_info_changed where
  "zero_line_info_changed = \<lparr>lic_info = zero_line_info, lic_timestamp_ns = 0,
     lic_event_type = 0, lic_padding = replicate 5 0\<rparr>"

definition zero_line_event :: gpio_v2_line_event where
  "zero_line_event = \<lparr>le_timestamp_ns = 0, le_id = 0, le_offset = 0, le_seqno = 0,
     le_line_seqno = 0, le_padding = replicate 6 0\<rparr>"

text \<open>Sizes in bytes of the structures that are read from a file descriptor.\<close>

definition sizeof_line_event :: nat where
  "sizeof_line_event = 8 + 4 * 4 + 6 * 4"

definition sizeof_line_info_changed :: nat where
  "sizeof_line_info_changed = (32 + 32 + 4 + 4 + 8 + 10 * 16 + 4 * 4) + 8 + 4 + 5 * 4"

section \<open>The system-call boundary\<close>

text \<open>
  The operating system is a parameter: a state of any type and one function per call the library
  makes.  A call returns \<open>Inl e\<close> where the C call returns \<open>-1\<close> with \<open>errno = e\<close>, and
  \<open>Inr\<close> of a non-negative result with the data written back otherwise.
\<close>

record kstat =
  st_is_lnk :: bool
  st_is_chr :: bool
  st_major :: u32
  st_minor :: u32

type_synonym ('k, 'r) syscall = "'k \<Rightarrow> (errno + 'r) \<times> 'k"

record 'k kernel =
  k_lstat :: "string \<Rightarrow> ('k, kstat) syscall"
  k_stat :: "string \<Rightarrow> ('k, kstat) syscall"
  k_realpath :: "string \<Rightarrow> ('k, string) syscall"
  k_open :: "string \<Rightarrow> ('k, nat) syscall"
  k_close :: "int \<Rightarrow> 'k \<Rightarrow> 'k"
  k_ppoll :: "int \<Rightarrow> (int \<times> int) option \<Rightarrow> ('k, nat) syscall"
  k_chipinfo :: "int \<Rightarrow> gpiochip_info \<Rightarrow> ('k, nat \<times> gpiochip_info) syscall"
  k_lineinfo :: "int \<Rightarrow> gpio_v2_line_info \<Rightarrow> ('k, nat \<times> gpio_v2_line_info) syscall"
  k_lineinfo_watch :: "int \<Rightarrow> gpio_v2_line_info \<Rightarrow> ('k, nat \<times> gpio_v2_line_info) syscall"
  k_lineinfo_unwatch :: "int \<Rightarrow> u32 \<Rightarrow> ('k, nat) syscall"
  k_get_line :: "int \<Rightarrow> gpio_v2_line_request \<Rightarrow> ('k, nat \<times> gpio_v2_line_request) syscall"
  k_set_config :: "int \<Rightarrow> gpio_v2_line_config \<Rightarrow> ('k, nat) syscall"
  k_get_values :: "int \<Rightarrow> gpio_v2_line_values \<Rightarrow> ('k, nat \<times> gpio_v2_line_values) syscall"
  k_set_values :: "int \<Rightarrow> gpio_v2_line_values \<Rightarrow> ('k, nat) syscall"
  k_read_events :: "int \<Rightarrow> nat \<Rightarrow> ('k, nat \<times> gpio_v2_line_event list) syscall"
  k_read_info_event :: "int \<Rightarrow> nat \<Rightarrow> ('k, nat \<times> gpio_v2_line_info_changed) syscall"

text \<open>A system that refuses every call; sample systems are updates of it.\<close>

definition null_kernel :: "'k kernel" where
  "null_kernel = \<lparr>k_lstat = (\<lambda>_ k. (Inl ENOENT, k)), k_stat = (\<lambda>_ k. (Inl ENOENT, k)),
     k_realpath = (\<lambda>_ k. (Inl ENOENT, k)), k_open = (\<lambda>_ k. (Inl ENOENT, k)), k_close = (\<lambda>_ k. k),
     k_ppoll = (\<lambda>_ _ k. (Inl EINVAL, k)),
     k_chipinfo = (\<lambda>_ _ k. (Inl ENOTTY, k)), k_lineinfo = (\<lambda>_ _ k. (Inl ENOTTY, k)),
     k_lineinfo_watch = (\<lambda>_ _ k. (Inl ENOTTY, k)), k_lineinfo_unwatch = (\<lambda>_ _ k. (Inl ENOTTY, k)),
     k_get_line = (\<lambda>_ _ k. (Inl ENOTTY, k)), k_set_config = (\<lambda>_ _ k. (Inl ENOTTY, k)),
     k_get_values = (\<lambda>_ _ k. (Inl ENOTTY, k)), k_set_values = (\<lambda>_ _ k. (Inl ENOTTY, k)),
     k_read_events = (\<lambda>_ _ k. (Inl EIO, k)), k_read_info_event = (\<lambda>_ _ k. (Inl EIO, k))\<rparr>"

section \<open>The documented meaning of a line configuration\<close>

text \<open>
  From the comments on \<open>struct gpio_v2_line_config\<close> and \<open>struct gpio_v2_line_config_attribute\<close>:
  an attribute applies to the lines whose bit is set in its mask, and if an attribute is associated
  with a line several times, the lowest index has precedence.
\<close>

definition active_attrs :: "gpio_v2_line_config \<Rightarrow> gpio_v2_line_config_attribute list" where
  "active_attrs lc = take (unat (lc_num_attrs lc)) (lc_attrs lc)"

definition attr_applies :: "u32 \<Rightarrow> nat \<Rightarrow> gpio_v2_line_config_attribute \<Rightarrow> bool" where
  "attr_applies ident i a \<longleftrightarrow> la_id (lca_attr a) = ident \<and> bit (lca_mask a) i"

definition effective_attr :: "gpio_v2_line_config \<Rightarrow> u32 \<Rightarrow> nat \<Rightarrow> gpio_v2_line_attribute option" where
  "effective_attr lc ident i = map_option lca_attr (find (attr_applies ident i) (active_attrs lc))"

definition effective_flags :: "gpio_v2_line_config \<Rightarrow> nat \<Rightarrow> u64" where
  "effective_flags lc i =
     (case effective_attr lc GPIO_V2_LINE_ATTR_ID_FLAGS i of
        None \<Rightarrow> lc_flags lc | Some a \<Rightarrow> la_flags a)"

definition effective_debounce :: "gpio_v2_line_config \<Rightarrow> nat \<Rightarrow> u32 option" where
  "effective_debounce lc i =
     map_option la_debounce_period_us (effective_attr lc GPIO_V2_LINE_ATTR_ID_DEBOUNCE i)"

definition effective_value :: "gpio_v2_line_config \<Rightarrow> nat \<Rightarrow> bool option" where
  "effective_value lc i =
     map_option (\<lambda>a. bit (la_values a) i) (effective_attr lc GPIO_V2_LINE_ATTR_ID_OUTPUT_VALUES i)"

section \<open>Flag words\<close>

lemma line_flag_nr_less [simp]: "line_flag_nr f < 64"
  by (cases f) simp_all

lemma line_flag_nr_inject: "line_flag_nr f = line_flag_nr g \<longleftrightarrow> f = g"
  by (cases f; cases g) simp_all

lemma bit_BITULL: "bit (BITULL n) i \<longleftrightarrow> i = n \<and> n < 64"
  by (auto simp: BITULL_def bit_simps)

lemma and_BITULL_ne_0: "n < 64 \<Longrightarrow> (w AND BITULL n \<noteq> 0) \<longleftrightarrow> bit w n"
  by (auto simp: bit_eq_iff [of "w AND BITULL n" 0] bit_and_iff bit_BITULL)

lemma has_flag_bit: "has_flag w f \<longleftrightarrow> bit w (line_flag_nr f)"
  by (simp add: has_flag_def line_flag_def and_BITULL_ne_0)

lemma has_flag_0 [simp]: "\<not> has_flag 0 f"
  by (simp add: has_flag_bit)

text \<open>Evaluation without the bit operations of the word type.\<close>

lemma has_flag_code [code]: "has_flag w f \<longleftrightarrow> w \<noteq> 0 \<and> odd (uint w div 2 ^ line_flag_nr f)"
proof (cases "w = 0")
  case False
  have "bit w n = odd (uint w div 2 ^ n)" for n
    using bit_iff_odd [of "uint w" n] bit_uint_iff [of w n] bit_imp_le_length [of w n] by auto
  with False show ?thesis by (simp add: has_flag_bit)
qed simp

lemma has_flag_or [simp]: "has_flag (v OR w) f \<longleftrightarrow> has_flag v f \<or> has_flag w f"
  by (simp add: has_flag_bit bit_or_iff)

lemma has_flag_line_flag [simp]: "has_flag (line_flag g) f \<longleftrightarrow> f = g"
  by (auto simp: has_flag_bit line_flag_def bit_BITULL line_flag_nr_inject)

end
