(* ===== verification/Gpiod_Internal.thy ===== *)
theory Gpiod_Internal
  imports Gpiod_Uapi
begin

text \<open>
  \<open>lib/internal.c\<close>: the check that a path names a GPIO character device, polling, validation of an
  output value, and the 64-bit line masks; with them the logical line values of \<open>include/gpiod.h\<close>.

  The line masks are used by the configuration encoder and by the value transfer of a line request.
  Their contract is the locale \<open>line_mask\<close>; it is interpreted on the four functions of
  \<open>internal.c\<close>, and its clients use the lemmas proved inside it.
\<close>

section \<open>Line values\<close>

text \<open>\<open>GPIOD_LINE_VALUE_OTHER\<close> is any other integer a C caller can store in the enumeration.\<close>

datatype gpiod_line_value =
    GPIOD_LINE_VALUE_ERROR
  | GPIOD_LINE_VALUE_INACTIVE
  | GPIOD_LINE_VALUE_ACTIVE
  | GPIOD_LINE_VALUE_OTHER int

text \<open>The integer behind an enumerator, and its conversion to \<open>bool\<close>.\<close>

fun line_value_int :: "gpiod_line_value \<Rightarrow> int" where
  "line_value_int GPIOD_LINE_VALUE_ERROR = -1"
| "line_value_int GPIOD_LINE_VALUE_INACTIVE = 0"
| "line_value_int GPIOD_LINE_VALUE_ACTIVE = 1"
| "line_value_int (GPIOD_LINE_VALUE_OTHER n) = n"

definition line_value_bool :: "gpiod_line_value \<Rightarrow> bool" where
  "line_value_bool v \<longleftrightarrow> line_value_int v \<noteq> 0"

definition valid_line_value :: "gpiod_line_value \<Rightarrow> bool" where
  "valid_line_value v \<longleftrightarrow> v = GPIOD_LINE_VALUE_INACTIVE \<or> v = GPIOD_LINE_VALUE_ACTIVE"

section \<open>Validation of an output value\<close>

text \<open>The result is the return value, the value stored through \<open>out\<close>, and the run-time state.\<close>

fun gpiod_set_output_value :: "gpiod_line_value \<Rightarrow> crt \<Rightarrow> int \<times> gpiod_line_value \<times> crt" where
  "gpiod_set_output_value GPIOD_LINE_VALUE_INACTIVE c = (0, GPIOD_LINE_VALUE_INACTIVE, c)"
| "gpiod_set_output_value GPIOD_LINE_VALUE_ACTIVE c = (0, GPIOD_LINE_VALUE_ACTIVE, c)"
| "gpiod_set_output_value _ c = (-1, GPIOD_LINE_VALUE_INACTIVE, set_errno EINVAL c)"

section \<open>Line masks\<close>

definition gpiod_line_mask_zero :: u64 where
  "gpiod_line_mask_zero = 0"

definition gpiod_line_mask_test_bit :: "u64 \<Rightarrow> nat \<Rightarrow> bool" where
  "gpiod_line_mask_test_bit m nr \<longleftrightarrow> m AND push_bit nr 1 \<noteq> 0"

definition gpiod_line_mask_set_bit :: "u64 \<Rightarrow> nat \<Rightarrow> u64" where
  "gpiod_line_mask_set_bit m nr = m OR push_bit nr 1"

definition gpiod_line_mask_assign_bit :: "u64 \<Rightarrow> nat \<Rightarrow> bool \<Rightarrow> u64" where
  "gpiod_line_mask_assign_bit m nr value =
     (if value then gpiod_line_mask_set_bit m nr else m AND NOT (push_bit nr 1))"

section \<open>Polling\<close>

text \<open>
  \<open>timeout_ns\<close> is an \<open>int64_t\<close>.  Dividing by the constant \<open>1000000000ULL\<close> converts it to an
  unsigned 64-bit value first; this happens only for a non-negative timeout.
\<close>

definition poll_timespec :: "int \<Rightarrow> (int \<times> int) option" where
  "poll_timespec timeout_ns =
     (if timeout_ns \<ge> 0
      then (let t = (word_of_int timeout_ns :: u64)
            in Some (uint (t div 1000000000), uint (t mod 1000000000)))
      else None)"

definition gpiod_poll_fd :: "'k kernel \<Rightarrow> int \<Rightarrow> int \<Rightarrow> crt \<Rightarrow> 'k \<Rightarrow> int \<times> crt \<times> 'k" where
  "gpiod_poll_fd K fd timeout_ns c k =
     (case k_ppoll K fd (poll_timespec timeout_ns) k of
        (Inl e, k') \<Rightarrow> (-1, set_errno e c, k')
      | (Inr n, k') \<Rightarrow> if n = 0 then (0, c, k') else (1, c, k'))"

section \<open>Is a path a GPIO character device?\<close>

text \<open>\<open>snprintf\<close> of an unsigned number in decimal.\<close>

fun decimal :: "nat \<Rightarrow> string" where
  "decimal n = (if n < 10 then [char_of (48 + n)] else decimal (n div 10) @ [char_of (48 + n mod 10)])"

declare decimal.simps [simp del]

definition devpath :: "kstat \<Rightarrow> string" where
  "devpath st = take 63 (''/sys/dev/char/'' @ decimal (unat (st_major st)) @ '':''
     @ decimal (unat (st_minor st)) @ ''/subsystem'')"

text \<open>
  \<open>strdup(path)\<close> and the two \<open>realpath\<close> calls allocate: a \<open>realpath\<close> that succeeds hands out a
  block, which is why the model takes it after the system call.
\<close>

definition realpath :: "'k kernel \<Rightarrow> string \<Rightarrow> crt \<Rightarrow> 'k \<Rightarrow> string obj option \<times> crt \<times> 'k" where
  "realpath K path c k =
     (case k_realpath K path k of
        (Inl e, k') \<Rightarrow> (None, set_errno e c, k')
      | (Inr s, k') \<Rightarrow>
          (case malloc_obj s c of (r, c') \<Rightarrow> (r, c', k')))"

definition strdup :: "string \<Rightarrow> crt \<Rightarrow> string obj option \<times> crt" where
  "strdup s c = malloc_obj s c"

text \<open>The part of the check that runs with the resolved name allocated (lines 42 to 77).\<close>

definition check_realname :: "'k kernel \<Rightarrow> string obj \<Rightarrow> crt \<Rightarrow> 'k \<Rightarrow> bool \<times> crt \<times> 'k" where
  "check_realname K realname c k =
     (case k_stat K (snd realname) k of
        (Inl e, k) \<Rightarrow> (False, free (fst realname) (set_errno e c), k)
      | (Inr statbuf, k) \<Rightarrow>
          if \<not> st_is_chr statbuf
          then (False, free (fst realname) (set_errno ENOTTY c), k)
          else
            (case realpath K (devpath statbuf) c k of
               (None, c, k) \<Rightarrow> (False, free (fst realname) c, k)
             | (Some sysfsp, c, k) \<Rightarrow>
                 let c = set_errno ENONE c in
                 if snd sysfsp \<noteq> ''/sys/bus/gpio''
                 then (False, free (fst realname) (free (fst sysfsp) (set_errno ENODEV c)), k)
                 else (True, free (fst realname) (free (fst sysfsp) c), k)))"

definition check_path :: "'k kernel \<Rightarrow> string option \<Rightarrow> crt \<Rightarrow> 'k \<Rightarrow> bool \<times> crt \<times> 'k" where
  "check_path K path c k =
     (case path of
        None \<Rightarrow> (False, set_errno EINVAL c, k)
      | Some path \<Rightarrow>
          (case k_lstat K path k of
             (Inl e, k) \<Rightarrow> (False, set_errno e c, k)
           | (Inr statbuf, k) \<Rightarrow>
               (case (if st_is_lnk statbuf then realpath K path c k
                      else (case strdup path c of (r, c) \<Rightarrow> (r, c, k))) of
                  (None, c, k) \<Rightarrow> (False, c, k)
                | (Some realname, c, k) \<Rightarrow> check_realname K realname c k)))"

definition gpiod_check_gpiochip_device ::
    "'k kernel \<Rightarrow> string option \<Rightarrow> bool \<Rightarrow> crt \<Rightarrow> 'k \<Rightarrow> bool \<times> crt \<times> 'k" where
  "gpiod_check_gpiochip_device K path set_err c k =
     (case check_path K path c k of
        (ret, c, k) \<Rightarrow> (ret, if set_err then c else set_errno ENONE c, k))"

section \<open>The contract of line masks\<close>

locale line_mask =
  fixes zero :: 'm
    and test :: "'m \<Rightarrow> nat \<Rightarrow> bool"
    and set_bit :: "'m \<Rightarrow> nat \<Rightarrow> 'm"
    and assign :: "'m \<Rightarrow> nat \<Rightarrow> bool \<Rightarrow> 'm"
    and width :: nat
  assumes test_zero: "\<not> test zero j"
    and test_set: "i < width \<Longrightarrow> test (set_bit m i) j \<longleftrightarrow> j = i \<or> test m j"
    and test_assign: "i < width \<Longrightarrow> test (assign m i v) j \<longleftrightarrow> (if j = i then v else test m j)"
begin

text \<open>The loops of the library that set one bit for every selected index.\<close>

lemma test_fold_set:
  assumes "\<forall>i \<in> set is. i < width"
  shows "test (fold (\<lambda>i m. if P i then set_bit m i else m) is m) j
     \<longleftrightarrow> test m j \<or> (j \<in> set is \<and> P j)"
  using assms by (induction "is" arbitrary: m) (auto simp: test_set)

lemma test_fold_set_all:
  assumes "\<forall>i \<in> set is. i < width"
  shows "test (fold (\<lambda>i m. set_bit m i) is m) j \<longleftrightarrow> test m j \<or> j \<in> set is"
  using test_fold_set [of "is" "\<lambda>_. True" m j] assms by simp

text \<open>A loop that assigns the bit of every index; the last assignment of an index counts.\<close>

lemma test_fold_assign:
  assumes "\<forall>(i, v) \<in> set ivs. i < width"
  shows "test (fold (\<lambda>(i, v) m. assign m i v) ivs m) j
     = (case map_of (rev ivs) j of Some v \<Rightarrow> v | None \<Rightarrow> test m j)"
  using assms
proof (induction ivs arbitrary: m)
  case Nil
  then show ?case by simp
next
  case (Cons iv ivs)
  obtain i v where iv: "iv = (i, v)" by (cases iv)
  with Cons.prems have "i < width" by simp
  with Cons iv show ?case
    by (auto simp: test_assign map_add_def split: option.splits)
qed

end

lemma mask_test_bit: "nr < 64 \<Longrightarrow> gpiod_line_mask_test_bit m nr \<longleftrightarrow> bit m nr"
  using and_BITULL_ne_0 [of nr m] by (simp add: gpiod_line_mask_test_bit_def BITULL_def)

lemma mask_test_bit_ge: "64 \<le> nr \<Longrightarrow> \<not> gpiod_line_mask_test_bit m nr"
  by (auto simp: gpiod_line_mask_test_bit_def bit_eq_iff [of "m AND 2 ^ nr" 0] bit_simps)

lemma mask_test_bit_eq: "gpiod_line_mask_test_bit m = bit m"
proof
  fix nr
  show "gpiod_line_mask_test_bit m nr = bit m nr"
    by (cases "nr < 64") (auto simp: mask_test_bit mask_test_bit_ge dest: bit_imp_le_length)
qed

interpretation mask: line_mask gpiod_line_mask_zero gpiod_line_mask_test_bit
    gpiod_line_mask_set_bit gpiod_line_mask_assign_bit 64
  by unfold_locales
    (auto simp: mask_test_bit_eq gpiod_line_mask_zero_def gpiod_line_mask_set_bit_def
      gpiod_line_mask_assign_bit_def bit_simps dest: bit_imp_le_length)

lemmas mask_simps = mask.test_zero mask.test_set mask.test_assign

text \<open>The same facts on the bits of the word, as the ABI reads the masks.\<close>

lemma bit_mask_zero [simp]: "\<not> bit gpiod_line_mask_zero j"
  using mask.test_zero by (simp add: mask_test_bit_eq)

lemma bit_mask_set: "i < 64 \<Longrightarrow> bit (gpiod_line_mask_set_bit m i) j \<longleftrightarrow> j = i \<or> bit m j"
  using mask.test_set [of i m j] by (simp add: mask_test_bit_eq)

lemma bit_mask_assign:
  "i < 64 \<Longrightarrow> bit (gpiod_line_mask_assign_bit m i v) j \<longleftrightarrow> (if j = i then v else bit m j)"
  using mask.test_assign [of i m v j] by (simp add: mask_test_bit_eq)

lemmas bit_mask_simps = bit_mask_zero bit_mask_set bit_mask_assign mask_test_bit_eq

section \<open>Lemmas\<close>

lemma gpiod_set_output_value_cases:
  "gpiod_set_output_value v c =
     (if valid_line_value v then (0, v, c)
      else (-1, GPIOD_LINE_VALUE_INACTIVE, set_errno EINVAL c))"
  by (cases v) (auto simp: valid_line_value_def)

lemma poll_timespec_parts:
  assumes "0 \<le> t" "t < 2 ^ 63"
  shows "poll_timespec t = Some (t div 1000000000, t mod 1000000000)"
proof -
  have u: "uint (word_of_int t :: u64) = t"
    using assms by (simp add: uint_word_of_int)
  show ?thesis
    using assms u by (simp add: poll_timespec_def Let_def uint_div uint_mod)
qed

text \<open>Neither helper leaves a block behind, whatever the system calls answer.\<close>

lemma realpath_heap:
  assumes "heap_ok c" "realpath K path c k = (r, c', k')"
  shows "heap_ok c' \<and> (case r of None \<Rightarrow> live c' = live c
     | Some (b, s) \<Rightarrow> live c' = insert b (live c) \<and> b \<notin> live c)"
proof -
  obtain x k1 where x: "k_realpath K path k = (x, k1)" by fastforce
  show ?thesis
  proof (cases x)
    case (Inl e)
    with x assms show ?thesis by (auto simp: realpath_def)
  next
    case (Inr s)
    with x assms show ?thesis
      by (cases rule: malloc_obj_cases [of s c])
        (auto simp: realpath_def heap_ok_def less_Suc_eq)
  qed
qed

lemma strdup_heap:
  assumes "heap_ok c" "strdup s c = (r, c')"
  shows "heap_ok c' \<and> (case r of None \<Rightarrow> live c' = live c
     | Some (b, s') \<Rightarrow> live c' = insert b (live c) \<and> b \<notin> live c \<and> s' = s)"
  using assms
  by (cases rule: malloc_obj_cases [of s c]) (auto simp: strdup_def heap_ok_def less_Suc_eq)

section \<open>Properties\<close>

text \<open>
  The poll timeout.  A non-negative timeout is split into seconds and nanoseconds without loss,
  the nanoseconds below one second as \<open>ppoll\<close> requires; a negative timeout waits forever.
\<close>

theorem poll_timeout_split:
  assumes "- (2 ^ 63) \<le> timeout_ns" "timeout_ns < 2 ^ 63"
  shows "case poll_timespec timeout_ns of
      None \<Rightarrow> timeout_ns < 0
    | Some (sec, nsec) \<Rightarrow> 0 \<le> sec \<and> 0 \<le> nsec \<and> nsec < 1000000000
        \<and> sec * 1000000000 + nsec = timeout_ns"
proof (cases "0 \<le> timeout_ns")
  case True
  then show ?thesis using poll_timespec_parts [OF True assms(2)] by simp
next
  case False
  then show ?thesis by (simp add: poll_timespec_def)
qed

theorem poll_timeout_split_witness: "poll_timespec 1500000000 = Some (1, 500000000)"
proof (cases "poll_timespec 1500000000")
  case None
  with poll_timeout_split [of 1500000000] show ?thesis by (simp only: option.case) simp
next
  case (Some p)
  obtain sec nsec where p: "p = (sec, nsec)" by (cases p)
  from poll_timeout_split [of 1500000000, unfolded Some p option.case prod.case]
  have "sec * 1000000000 + nsec = 1500000000" "0 \<le> nsec" "nsec < 1000000000" by simp_all
  then have "sec = 1500000000 div 1000000000" "nsec = 1500000000 mod 1000000000"
    using int_div_pos_eq [of 1500000000 1000000000 sec nsec] int_mod_pos_eq [of 1500000000 1000000000 sec nsec]
    by (simp_all only: mult.commute [of sec])
  then have "sec = 1" "nsec = 500000000" by simp_all
  with Some p show ?thesis by (simp only:)
qed

end
