(* ===== verification/Line_Settings.thy ===== *)
theory Line_Settings
  imports Gpiod_Internal
begin

text \<open>
  \<open>lib/line-settings.c\<close>: the settings of a line and their validating mutators.  A mutator returns
  \<open>0\<close> and stores the value, or returns \<open>-1\<close> with \<open>EINVAL\<close> and stores the default of that property.

  The locale \<open>validated_property\<close> is the contract of such a mutator with its accessor; it is
  interpreted for direction, edge detection, bias, drive, event clock and output value.
\<close>

section \<open>Enumerations of the public header\<close>

text \<open>As for line values, the \<open>_OTHER\<close> constructor is any integer that is no enumerator.\<close>

datatype gpiod_line_direction =
    GPIOD_LINE_DIRECTION_AS_IS
  | GPIOD_LINE_DIRECTION_INPUT
  | GPIOD_LINE_DIRECTION_OUTPUT
  | GPIOD_LINE_DIRECTION_OTHER int

datatype gpiod_line_edge =
    GPIOD_LINE_EDGE_NONE
  | GPIOD_LINE_EDGE_RISING
  | GPIOD_LINE_EDGE_FALLING
  | GPIOD_LINE_EDGE_BOTH
  | GPIOD_LINE_EDGE_OTHER int

datatype gpiod_line_bias =
    GPIOD_LINE_BIAS_AS_IS
  | GPIOD_LINE_BIAS_UNKNOWN
  | GPIOD_LINE_BIAS_DISABLED
  | GPIOD_LINE_BIAS_PULL_UP
  | GPIOD_LINE_BIAS_PULL_DOWN
  | GPIOD_LINE_BIAS_OTHER int

datatype gpiod_line_drive =
    GPIOD_LINE_DRIVE_PUSH_PULL
  | GPIOD_LINE_DRIVE_OPEN_DRAIN
  | GPIOD_LINE_DRIVE_OPEN_SOURCE
  | GPIOD_LINE_DRIVE_OTHER int

datatype gpiod_line_clock =
    GPIOD_LINE_CLOCK_MONOTONIC
  | GPIOD_LINE_CLOCK_REALTIME
  | GPIOD_LINE_CLOCK_HTE
  | GPIOD_LINE_CLOCK_OTHER int

section \<open>The settings object\<close>

text \<open>\<open>debounce_period_us\<close> is a \<open>long\<close>; it holds the 64 bits of the \<open>unsigned long\<close> argument.\<close>

record gpiod_line_settings =
  ls_direction :: gpiod_line_direction
  ls_edge_detection :: gpiod_line_edge
  ls_drive :: gpiod_line_drive
  ls_bias :: gpiod_line_bias
  ls_active_low :: bool
  ls_event_clock :: gpiod_line_clock
  ls_debounce_period_us :: u64
  ls_output_value :: gpiod_line_value

definition gpiod_line_settings_reset :: "gpiod_line_settings \<Rightarrow> gpiod_line_settings" where
  "gpiod_line_settings_reset settings = settings\<lparr>
     ls_direction := GPIOD_LINE_DIRECTION_AS_IS,
     ls_edge_detection := GPIOD_LINE_EDGE_NONE,
     ls_bias := GPIOD_LINE_BIAS_AS_IS,
     ls_drive := GPIOD_LINE_DRIVE_PUSH_PULL,
     ls_active_low := False,
     ls_debounce_period_us := 0,
     ls_event_clock := GPIOD_LINE_CLOCK_MONOTONIC,
     ls_output_value := GPIOD_LINE_VALUE_INACTIVE\<rparr>"

text \<open>The block comes from \<open>malloc\<close> with unknown contents; \<open>reset\<close> writes every field.\<close>

definition gpiod_line_settings_new :: "crt \<Rightarrow> gpiod_line_settings obj option \<times> crt" where
  "gpiod_line_settings_new c = malloc_obj (gpiod_line_settings_reset undefined) c"

definition gpiod_line_settings_free :: "gpiod_line_settings obj \<Rightarrow> crt \<Rightarrow> crt" where
  "gpiod_line_settings_free settings c = free_obj settings c"

definition gpiod_line_settings_copy ::
    "gpiod_line_settings \<Rightarrow> crt \<Rightarrow> gpiod_line_settings obj option \<times> crt" where
  "gpiod_line_settings_copy settings c = malloc_obj settings c"

section \<open>Mutators and accessors\<close>

definition gpiod_line_settings_set_direction ::
    "gpiod_line_settings \<Rightarrow> gpiod_line_direction \<Rightarrow> crt \<Rightarrow> int \<times> gpiod_line_settings \<times> crt" where
  "gpiod_line_settings_set_direction settings direction c =
     (case direction of
        GPIOD_LINE_DIRECTION_INPUT \<Rightarrow> (0, settings\<lparr>ls_direction := direction\<rparr>, c)
      | GPIOD_LINE_DIRECTION_OUTPUT \<Rightarrow> (0, settings\<lparr>ls_direction := direction\<rparr>, c)
      | GPIOD_LINE_DIRECTION_AS_IS \<Rightarrow> (0, settings\<lparr>ls_direction := direction\<rparr>, c)
      | _ \<Rightarrow> (-1, settings\<lparr>ls_direction := GPIOD_LINE_DIRECTION_AS_IS\<rparr>, set_errno EINVAL c))"

definition gpiod_line_settings_get_direction :: "gpiod_line_settings \<Rightarrow> gpiod_line_direction" where
  "gpiod_line_settings_get_direction settings = ls_direction settings"

definition gpiod_line_settings_set_edge_detection ::
    "gpiod_line_settings \<Rightarrow> gpiod_line_edge \<Rightarrow> crt \<Rightarrow> int \<times> gpiod_line_settings \<times> crt" where
  "gpiod_line_settings_set_edge_detection settings edge c =
     (case edge of
        GPIOD_LINE_EDGE_NONE \<Rightarrow> (0, settings\<lparr>ls_edge_detection := edge\<rparr>, c)
      | GPIOD_LINE_EDGE_RISING \<Rightarrow> (0, settings\<lparr>ls_edge_detection := edge\<rparr>, c)
      | GPIOD_LINE_EDGE_FALLING \<Rightarrow> (0, settings\<lparr>ls_edge_detection := edge\<rparr>, c)
      | GPIOD_LINE_EDGE_BOTH \<Rightarrow> (0, settings\<lparr>ls_edge_detection := edge\<rparr>, c)
      | _ \<Rightarrow> (-1, settings\<lparr>ls_edge_detection := GPIOD_LINE_EDGE_NONE\<rparr>, set_errno EINVAL c))"

definition gpiod_line_settings_get_edge_detection :: "gpiod_line_settings \<Rightarrow> gpiod_line_edge" where
  "gpiod_line_settings_get_edge_detection settings = ls_edge_detection settings"

definition gpiod_line_settings_set_bias ::
    "gpiod_line_settings \<Rightarrow> gpiod_line_bias \<Rightarrow> crt \<Rightarrow> int \<times> gpiod_line_settings \<times> crt" where
  "gpiod_line_settings_set_bias settings bias c =
     (case bias of
        GPIOD_LINE_BIAS_AS_IS \<Rightarrow> (0, settings\<lparr>ls_bias := bias\<rparr>, c)
      | GPIOD_LINE_BIAS_DISABLED \<Rightarrow> (0, settings\<lparr>ls_bias := bias\<rparr>, c)
      | GPIOD_LINE_BIAS_PULL_UP \<Rightarrow> (0, settings\<lparr>ls_bias := bias\<rparr>, c)
      | GPIOD_LINE_BIAS_PULL_DOWN \<Rightarrow> (0, settings\<lparr>ls_bias := bias\<rparr>, c)
      | _ \<Rightarrow> (-1, settings\<lparr>ls_bias := GPIOD_LINE_BIAS_AS_IS\<rparr>, set_errno EINVAL c))"

definition gpiod_line_settings_get_bias :: "gpiod_line_settings \<Rightarrow> gpiod_line_bias" where
  "gpiod_line_settings_get_bias settings = ls_bias settings"

definition gpiod_line_settings_set_drive ::
    "gpiod_line_settings \<Rightarrow> gpiod_line_drive \<Rightarrow> crt \<Rightarrow> int \<times> gpiod_line_settings \<times> crt" where
  "gpiod_line_settings_set_drive settings drive c =
     (case drive of
        GPIOD_LINE_DRIVE_PUSH_PULL \<Rightarrow> (0, settings\<lparr>ls_drive := drive\<rparr>, c)
      | GPIOD_LINE_DRIVE_OPEN_DRAIN \<Rightarrow> (0, settings\<lparr>ls_drive := drive\<rparr>, c)
      | GPIOD_LINE_DRIVE_OPEN_SOURCE \<Rightarrow> (0, settings\<lparr>ls_drive := drive\<rparr>, c)
      | _ \<Rightarrow> (-1, settings\<lparr>ls_drive := GPIOD_LINE_DRIVE_PUSH_PULL\<rparr>, set_errno EINVAL c))"

definition gpiod_line_settings_get_drive :: "gpiod_line_settings \<Rightarrow> gpiod_line_drive" where
  "gpiod_line_settings_get_drive settings = ls_drive settings"

definition gpiod_line_settings_set_active_low ::
    "gpiod_line_settings \<Rightarrow> bool \<Rightarrow> gpiod_line_settings" where
  "gpiod_line_settings_set_active_low settings active_low = settings\<lparr>ls_active_low := active_low\<rparr>"

definition gpiod_line_settings_get_active_low :: "gpiod_line_settings \<Rightarrow> bool" where
  "gpiod_line_settings_get_active_low settings = ls_active_low settings"

definition gpiod_line_settings_set_debounce_period_us ::
    "gpiod_line_settings \<Rightarrow> u64 \<Rightarrow> gpiod_line_settings" where
  "gpiod_line_settings_set_debounce_period_us settings period =
     settings\<lparr>ls_debounce_period_us := period\<rparr>"

definition gpiod_line_settings_get_debounce_period_us :: "gpiod_line_settings \<Rightarrow> u64" where
  "gpiod_line_settings_get_debounce_period_us settings = ls_debounce_period_us settings"

definition gpiod_line_settings_set_event_clock ::
    "gpiod_line_settings \<Rightarrow> gpiod_line_clock \<Rightarrow> crt \<Rightarrow> int \<times> gpiod_line_settings \<times> crt" where
  "gpiod_line_settings_set_event_clock settings event_clock c =
     (case event_clock of
        GPIOD_LINE_CLOCK_MONOTONIC \<Rightarrow> (0, settings\<lparr>ls_event_clock := event_clock\<rparr>, c)
      | GPIOD_LINE_CLOCK_REALTIME \<Rightarrow> (0, settings\<lparr>ls_event_clock := event_clock\<rparr>, c)
      | GPIOD_LINE_CLOCK_HTE \<Rightarrow> (0, settings\<lparr>ls_event_clock := event_clock\<rparr>, c)
      | _ \<Rightarrow> (-1, settings\<lparr>ls_event_clock := GPIOD_LINE_CLOCK_MONOTONIC\<rparr>, set_errno EINVAL c))"

definition gpiod_line_settings_get_event_clock :: "gpiod_line_settings \<Rightarrow> gpiod_line_clock" where
  "gpiod_line_settings_get_event_clock settings = ls_event_clock settings"

definition gpiod_line_settings_set_output_value ::
    "gpiod_line_settings \<Rightarrow> gpiod_line_value \<Rightarrow> crt \<Rightarrow> int \<times> gpiod_line_settings \<times> crt" where
  "gpiod_line_settings_set_output_value settings val c =
     (case gpiod_set_output_value val c of
        (ret, out, c) \<Rightarrow> (ret, settings\<lparr>ls_output_value := out\<rparr>, c))"

definition gpiod_line_settings_get_output_value :: "gpiod_line_settings \<Rightarrow> gpiod_line_value" where
  "gpiod_line_settings_get_output_value settings = ls_output_value settings"

lemmas settings_getters =
  gpiod_line_settings_get_direction_def gpiod_line_settings_get_edge_detection_def
  gpiod_line_settings_get_bias_def gpiod_line_settings_get_drive_def
  gpiod_line_settings_get_active_low_def gpiod_line_settings_get_debounce_period_us_def
  gpiod_line_settings_get_event_clock_def gpiod_line_settings_get_output_value_def

lemmas settings_setters =
  gpiod_line_settings_set_direction_def gpiod_line_settings_set_edge_detection_def
  gpiod_line_settings_set_bias_def gpiod_line_settings_set_drive_def
  gpiod_line_settings_set_active_low_def gpiod_line_settings_set_debounce_period_us_def
  gpiod_line_settings_set_event_clock_def gpiod_line_settings_set_output_value_def

section \<open>Values a settings object may hold\<close>

definition valid_direction :: "gpiod_line_direction \<Rightarrow> bool" where
  "valid_direction d \<longleftrightarrow> (case d of GPIOD_LINE_DIRECTION_OTHER _ \<Rightarrow> False | _ \<Rightarrow> True)"

definition valid_edge :: "gpiod_line_edge \<Rightarrow> bool" where
  "valid_edge e \<longleftrightarrow> (case e of GPIOD_LINE_EDGE_OTHER _ \<Rightarrow> False | _ \<Rightarrow> True)"

definition valid_bias :: "gpiod_line_bias \<Rightarrow> bool" where
  "valid_bias b \<longleftrightarrow>
     (case b of GPIOD_LINE_BIAS_OTHER _ \<Rightarrow> False | GPIOD_LINE_BIAS_UNKNOWN \<Rightarrow> False | _ \<Rightarrow> True)"

definition valid_drive :: "gpiod_line_drive \<Rightarrow> bool" where
  "valid_drive d \<longleftrightarrow> (case d of GPIOD_LINE_DRIVE_OTHER _ \<Rightarrow> False | _ \<Rightarrow> True)"

definition valid_clock :: "gpiod_line_clock \<Rightarrow> bool" where
  "valid_clock k \<longleftrightarrow> (case k of GPIOD_LINE_CLOCK_OTHER _ \<Rightarrow> False | _ \<Rightarrow> True)"

definition valid_settings :: "gpiod_line_settings \<Rightarrow> bool" where
  "valid_settings s \<longleftrightarrow> valid_direction (ls_direction s) \<and> valid_edge (ls_edge_detection s)
     \<and> valid_bias (ls_bias s) \<and> valid_drive (ls_drive s) \<and> valid_clock (ls_event_clock s)
     \<and> valid_line_value (ls_output_value s)"

lemmas valid_defs = valid_direction_def valid_edge_def valid_bias_def valid_drive_def
  valid_clock_def valid_line_value_def

definition default_settings :: gpiod_line_settings where
  "default_settings = \<lparr>ls_direction = GPIOD_LINE_DIRECTION_AS_IS,
     ls_edge_detection = GPIOD_LINE_EDGE_NONE, ls_drive = GPIOD_LINE_DRIVE_PUSH_PULL,
     ls_bias = GPIOD_LINE_BIAS_AS_IS, ls_active_low = False,
     ls_event_clock = GPIOD_LINE_CLOCK_MONOTONIC, ls_debounce_period_us = 0,
     ls_output_value = GPIOD_LINE_VALUE_INACTIVE\<rparr>"

text \<open>The mutator calls of the API, for statements about any sequence of them.\<close>

datatype settings_call =
    SetDirection gpiod_line_direction
  | SetEdge gpiod_line_edge
  | SetBias gpiod_line_bias
  | SetDrive gpiod_line_drive
  | SetActiveLow bool
  | SetDebounce u64
  | SetClock gpiod_line_clock
  | SetOutput gpiod_line_value
  | Reset

fun run_settings_call :: "settings_call \<Rightarrow> gpiod_line_settings \<times> crt \<Rightarrow> gpiod_line_settings \<times> crt" where
  "run_settings_call (SetDirection d) (s, c) = snd (gpiod_line_settings_set_direction s d c)"
| "run_settings_call (SetEdge e) (s, c) = snd (gpiod_line_settings_set_edge_detection s e c)"
| "run_settings_call (SetBias b) (s, c) = snd (gpiod_line_settings_set_bias s b c)"
| "run_settings_call (SetDrive d) (s, c) = snd (gpiod_line_settings_set_drive s d c)"
| "run_settings_call (SetActiveLow a) (s, c) = (gpiod_line_settings_set_active_low s a, c)"
| "run_settings_call (SetDebounce p) (s, c) = (gpiod_line_settings_set_debounce_period_us s p, c)"
| "run_settings_call (SetClock k) (s, c) = snd (gpiod_line_settings_set_event_clock s k c)"
| "run_settings_call (SetOutput v) (s, c) = snd (gpiod_line_settings_set_output_value s v c)"
| "run_settings_call Reset (s, c) = (gpiod_line_settings_reset s, c)"

section \<open>The contract of a validating mutator\<close>

text \<open>
  \<open>erase\<close> forgets the property: two settings that agree after erasing and in the property are
  equal, so a law about \<open>erase\<close> says that no other property changes.
\<close>

locale validated_property =
  fixes setp :: "'s \<Rightarrow> 'v \<Rightarrow> crt \<Rightarrow> int \<times> 's \<times> crt"
    and getp :: "'s \<Rightarrow> 'v"
    and erase :: "'s \<Rightarrow> 's"
    and valid :: "'v \<Rightarrow> bool"
    and dflt :: 'v
  assumes dflt_valid: "valid dflt"
    and set_ok: "valid v \<Longrightarrow>
      fst (setp s v c) = 0 \<and> getp (fst (snd (setp s v c))) = v \<and> snd (snd (setp s v c)) = c"
    and set_bad: "\<not> valid v \<Longrightarrow>
      fst (setp s v c) = -1 \<and> getp (fst (snd (setp s v c))) = dflt
        \<and> snd (snd (setp s v c)) = set_errno EINVAL c"
    and set_frame: "erase (fst (snd (setp s v c))) = erase s"
    and erase_ext: "erase s = erase t \<Longrightarrow> getp s = getp t \<Longrightarrow> s = t"
begin

abbreviation stored :: "'s \<Rightarrow> 'v \<Rightarrow> crt \<Rightarrow> 's" where
  "stored s v c \<equiv> fst (snd (setp s v c))"

lemma get_stored: "getp (stored s v c) = (if valid v then v else dflt)"
  using set_ok [of v s c] set_bad [of v s c] by auto

lemma stored_valid: "valid (getp (stored s v c))"
  by (simp add: get_stored dflt_valid)

lemma last_write_wins: "stored (stored s v c) w c' = stored s w c''"
  by (rule erase_ext) (simp_all add: set_frame get_stored)

lemma write_back: "valid (getp s) \<Longrightarrow> stored s (getp s) c = s"
  by (rule erase_ext) (simp_all add: set_frame get_stored)

lemma return_iff_valid: "fst (setp s v c) = 0 \<longleftrightarrow> valid v"
  using set_ok [of v s c] set_bad [of v s c] by (cases "valid v") auto

lemma no_alloc: "live (snd (snd (setp s v c))) = live c \<and> heap_ok (snd (snd (setp s v c))) = heap_ok c"
  using set_ok [of v s c] set_bad [of v s c] by (cases "valid v") auto

end

lemma settings_erase_ext:
  fixes s t :: gpiod_line_settings
  shows "s\<lparr>ls_direction := d\<rparr> = t\<lparr>ls_direction := d\<rparr> \<Longrightarrow> ls_direction s = ls_direction t \<Longrightarrow> s = t"
    and "s\<lparr>ls_edge_detection := e\<rparr> = t\<lparr>ls_edge_detection := e\<rparr> \<Longrightarrow>
      ls_edge_detection s = ls_edge_detection t \<Longrightarrow> s = t"
    and "s\<lparr>ls_bias := b\<rparr> = t\<lparr>ls_bias := b\<rparr> \<Longrightarrow> ls_bias s = ls_bias t \<Longrightarrow> s = t"
    and "s\<lparr>ls_drive := r\<rparr> = t\<lparr>ls_drive := r\<rparr> \<Longrightarrow> ls_drive s = ls_drive t \<Longrightarrow> s = t"
    and "s\<lparr>ls_event_clock := k\<rparr> = t\<lparr>ls_event_clock := k\<rparr> \<Longrightarrow>
      ls_event_clock s = ls_event_clock t \<Longrightarrow> s = t"
    and "s\<lparr>ls_output_value := v\<rparr> = t\<lparr>ls_output_value := v\<rparr> \<Longrightarrow>
      ls_output_value s = ls_output_value t \<Longrightarrow> s = t"
  by (cases s; cases t; simp)+

interpretation direction: validated_property gpiod_line_settings_set_direction
    gpiod_line_settings_get_direction "\<lambda>s. s\<lparr>ls_direction := GPIOD_LINE_DIRECTION_AS_IS\<rparr>"
    valid_direction GPIOD_LINE_DIRECTION_AS_IS
proof (unfold_locales, goal_cases)
  case (5 s t)
  then show ?case
    unfolding gpiod_line_settings_get_direction_def by (rule settings_erase_ext(1))
qed (auto simp: gpiod_line_settings_set_direction_def gpiod_line_settings_get_direction_def
      valid_direction_def  split: gpiod_line_direction.splits)

interpretation edge: validated_property gpiod_line_settings_set_edge_detection
    gpiod_line_settings_get_edge_detection "\<lambda>s. s\<lparr>ls_edge_detection := GPIOD_LINE_EDGE_NONE\<rparr>"
    valid_edge GPIOD_LINE_EDGE_NONE
proof (unfold_locales, goal_cases)
  case (5 s t)
  then show ?case
    unfolding gpiod_line_settings_get_edge_detection_def by (rule settings_erase_ext(2))
qed (auto simp: gpiod_line_settings_set_edge_detection_def gpiod_line_settings_get_edge_detection_def
      valid_edge_def  split: gpiod_line_edge.splits)

interpretation bias: validated_property gpiod_line_settings_set_bias
    gpiod_line_settings_get_bias "\<lambda>s. s\<lparr>ls_bias := GPIOD_LINE_BIAS_AS_IS\<rparr>"
    valid_bias GPIOD_LINE_BIAS_AS_IS
proof (unfold_locales, goal_cases)
  case (5 s t)
  then show ?case
    unfolding gpiod_line_settings_get_bias_def by (rule settings_erase_ext(3))
qed (auto simp: gpiod_line_settings_set_bias_def gpiod_line_settings_get_bias_def
      valid_bias_def  split: gpiod_line_bias.splits)

interpretation drive: validated_property gpiod_line_settings_set_drive
    gpiod_line_settings_get_drive "\<lambda>s. s\<lparr>ls_drive := GPIOD_LINE_DRIVE_PUSH_PULL\<rparr>"
    valid_drive GPIOD_LINE_DRIVE_PUSH_PULL
proof (unfold_locales, goal_cases)
  case (5 s t)
  then show ?case
    unfolding gpiod_line_settings_get_drive_def by (rule settings_erase_ext(4))
qed (auto simp: gpiod_line_settings_set_drive_def gpiod_line_settings_get_drive_def
      valid_drive_def  split: gpiod_line_drive.splits)

interpretation event_clock: validated_property gpiod_line_settings_set_event_clock
    gpiod_line_settings_get_event_clock "\<lambda>s. s\<lparr>ls_event_clock := GPIOD_LINE_CLOCK_MONOTONIC\<rparr>"
    valid_clock GPIOD_LINE_CLOCK_MONOTONIC
proof (unfold_locales, goal_cases)
  case (5 s t)
  then show ?case
    unfolding gpiod_line_settings_get_event_clock_def by (rule settings_erase_ext(5))
qed (auto simp: gpiod_line_settings_set_event_clock_def gpiod_line_settings_get_event_clock_def
      valid_clock_def  split: gpiod_line_clock.splits)

interpretation output_value: validated_property gpiod_line_settings_set_output_value
    gpiod_line_settings_get_output_value "\<lambda>s. s\<lparr>ls_output_value := GPIOD_LINE_VALUE_INACTIVE\<rparr>"
    valid_line_value GPIOD_LINE_VALUE_INACTIVE
proof (unfold_locales, goal_cases)
  case (5 s t)
  then show ?case
    unfolding gpiod_line_settings_get_output_value_def by (rule settings_erase_ext(6))
qed (auto simp: gpiod_line_settings_set_output_value_def gpiod_line_settings_get_output_value_def
      valid_line_value_def gpiod_set_output_value_cases split: if_splits)

section \<open>Heap contract\<close>

lemma gpiod_line_settings_reset_eq [simp]: "gpiod_line_settings_reset s = default_settings"
  by (cases s) (simp add: gpiod_line_settings_reset_def default_settings_def)

declare gpiod_line_settings_reset_eq [code]

lemma valid_default_settings [simp]: "valid_settings default_settings"
  by (simp add: valid_settings_def default_settings_def valid_defs)

interpretation settings_heap: heap_object gpiod_line_settings_new gpiod_line_settings_free
    "\<lambda>s. {fst s}" "\<lambda>_. True"
  using one_block.heap_object_axioms [of default_settings]
  by (simp add: gpiod_line_settings_new_def [abs_def] gpiod_line_settings_free_def [abs_def])

section \<open>Every call sequence keeps a settings object valid\<close>

lemma set_direction_eq: "gpiod_line_settings_set_direction s d c =
    (if valid_direction d then (0, s\<lparr>ls_direction := d\<rparr>, c)
     else (-1, s\<lparr>ls_direction := GPIOD_LINE_DIRECTION_AS_IS\<rparr>, set_errno EINVAL c))"
  by (cases d) (simp_all add: gpiod_line_settings_set_direction_def valid_direction_def)

lemma set_edge_eq: "gpiod_line_settings_set_edge_detection s e c =
    (if valid_edge e then (0, s\<lparr>ls_edge_detection := e\<rparr>, c)
     else (-1, s\<lparr>ls_edge_detection := GPIOD_LINE_EDGE_NONE\<rparr>, set_errno EINVAL c))"
  by (cases e) (simp_all add: gpiod_line_settings_set_edge_detection_def valid_edge_def)

lemma set_bias_eq: "gpiod_line_settings_set_bias s b c =
    (if valid_bias b then (0, s\<lparr>ls_bias := b\<rparr>, c)
     else (-1, s\<lparr>ls_bias := GPIOD_LINE_BIAS_AS_IS\<rparr>, set_errno EINVAL c))"
  by (cases b) (simp_all add: gpiod_line_settings_set_bias_def valid_bias_def)

lemma set_drive_eq: "gpiod_line_settings_set_drive s d c =
    (if valid_drive d then (0, s\<lparr>ls_drive := d\<rparr>, c)
     else (-1, s\<lparr>ls_drive := GPIOD_LINE_DRIVE_PUSH_PULL\<rparr>, set_errno EINVAL c))"
  by (cases d) (simp_all add: gpiod_line_settings_set_drive_def valid_drive_def)

lemma set_clock_eq: "gpiod_line_settings_set_event_clock s k c =
    (if valid_clock k then (0, s\<lparr>ls_event_clock := k\<rparr>, c)
     else (-1, s\<lparr>ls_event_clock := GPIOD_LINE_CLOCK_MONOTONIC\<rparr>, set_errno EINVAL c))"
  by (cases k) (simp_all add: gpiod_line_settings_set_event_clock_def valid_clock_def)

lemma set_output_eq: "gpiod_line_settings_set_output_value s v c =
    (if valid_line_value v then (0, s\<lparr>ls_output_value := v\<rparr>, c)
     else (-1, s\<lparr>ls_output_value := GPIOD_LINE_VALUE_INACTIVE\<rparr>, set_errno EINVAL c))"
  by (simp add: gpiod_line_settings_set_output_value_def gpiod_set_output_value_cases)

lemmas setter_eqs = set_direction_eq set_edge_eq set_bias_eq set_drive_eq set_clock_eq set_output_eq

lemma run_settings_call_valid:
  assumes "valid_settings s"
  shows "valid_settings (fst (run_settings_call call (s, c)))"
  using assms direction.dflt_valid edge.dflt_valid bias.dflt_valid drive.dflt_valid
    event_clock.dflt_valid output_value.dflt_valid
  by (cases call)
    (simp_all add: setter_eqs valid_settings_def gpiod_line_settings_set_active_low_def
      gpiod_line_settings_set_debounce_period_us_def default_settings_def)

lemma run_settings_calls_valid:
  "valid_settings (fst sc) \<Longrightarrow> valid_settings (fst (fold run_settings_call calls sc))"
proof (induction calls arbitrary: sc)
  case (Cons call calls)
  obtain s c where "sc = (s, c)" by (cases sc)
  with Cons run_settings_call_valid [of s call c] show ?case by simp
qed simp

section \<open>Properties\<close>

text \<open>Which property a call writes; \<open>Reset\<close> writes all of them.\<close>

fun call_property :: "settings_call \<Rightarrow> nat" where
  "call_property (SetDirection _) = 0"
| "call_property (SetEdge _) = 1"
| "call_property (SetBias _) = 2"
| "call_property (SetDrive _) = 3"
| "call_property (SetActiveLow _) = 4"
| "call_property (SetDebounce _) = 5"
| "call_property (SetClock _) = 6"
| "call_property (SetOutput _) = 7"
| "call_property Reset = 8"

text \<open>A call changes the settings independently of the run-time state.\<close>

definition call_effect :: "settings_call \<Rightarrow> gpiod_line_settings \<Rightarrow> gpiod_line_settings" where
  "call_effect call s = fst (run_settings_call call (s, crt_init))"

lemma call_effect_simps:
  "call_effect (SetDirection d) s
     = s\<lparr>ls_direction := if valid_direction d then d else GPIOD_LINE_DIRECTION_AS_IS\<rparr>"
  "call_effect (SetEdge e) s
     = s\<lparr>ls_edge_detection := if valid_edge e then e else GPIOD_LINE_EDGE_NONE\<rparr>"
  "call_effect (SetBias b) s = s\<lparr>ls_bias := if valid_bias b then b else GPIOD_LINE_BIAS_AS_IS\<rparr>"
  "call_effect (SetDrive r) s
     = s\<lparr>ls_drive := if valid_drive r then r else GPIOD_LINE_DRIVE_PUSH_PULL\<rparr>"
  "call_effect (SetActiveLow l) s = s\<lparr>ls_active_low := l\<rparr>"
  "call_effect (SetDebounce p) s = s\<lparr>ls_debounce_period_us := p\<rparr>"
  "call_effect (SetClock k) s
     = s\<lparr>ls_event_clock := if valid_clock k then k else GPIOD_LINE_CLOCK_MONOTONIC\<rparr>"
  "call_effect (SetOutput v) s
     = s\<lparr>ls_output_value := if valid_line_value v then v else GPIOD_LINE_VALUE_INACTIVE\<rparr>"
  "call_effect Reset s = default_settings"
  by (simp_all add: call_effect_def setter_eqs gpiod_line_settings_set_active_low_def
      gpiod_line_settings_set_debounce_period_us_def)

lemma run_settings_call_effect: "fst (run_settings_call call (s, c)) = call_effect call s"
  by (cases call) (simp_all add: call_effect_def setter_eqs)

lemma fold_run_effect:
  "fst (fold run_settings_call calls (s, c)) = fold call_effect calls s"
proof (induction calls arbitrary: s c)
  case (Cons call calls)
  obtain s' c' where eq: "run_settings_call call (s, c) = (s', c')" by fastforce
  with run_settings_call_effect [of call s c] Cons show ?case by simp
qed simp

text \<open>
  C22: Whatever sequence of mutator and reset calls a program makes on a settings object it created,
  with whatever arguments, every property of the object holds one of its documented values (a type
  invariant of \<open>struct gpiod_line_settings\<close>).
\<close>

theorem settings_always_valid:
  assumes "gpiod_line_settings_new c = (Some s, c')"
  shows "valid_settings (fst (fold run_settings_call calls (snd s, c')))"
proof -
  have "snd s = default_settings"
    using assms malloc_obj_SomeD(1) [of default_settings c s c'] by (simp add: gpiod_line_settings_new_def)
  then show ?thesis by (intro run_settings_calls_valid) simp
qed

theorem settings_always_valid_witness:
  "valid_settings (fst (fold run_settings_call
     [SetBias (GPIOD_LINE_BIAS_OTHER 17), SetDirection GPIOD_LINE_DIRECTION_OUTPUT,
      SetOutput GPIOD_LINE_VALUE_ERROR] (default_settings, crt_init\<lparr>nalloc := 1, live := {0}\<rparr>)))"
  using settings_always_valid [of crt_init "(0, default_settings)" "crt_init\<lparr>nalloc := 1, live := {0}\<rparr>"
      "[SetBias (GPIOD_LINE_BIAS_OTHER 17), SetDirection GPIOD_LINE_DIRECTION_OUTPUT,
        SetOutput GPIOD_LINE_VALUE_ERROR]"]
  by (simp add: gpiod_line_settings_new_def malloc_obj_def malloc_def crt_init_def)

lemma call_effect_commute:
  "call_property a \<noteq> call_property b \<Longrightarrow> a \<noteq> Reset \<Longrightarrow> b \<noteq> Reset \<Longrightarrow>
     call_effect b (call_effect a s) = call_effect a (call_effect b s)"
  by (cases a; cases b; simp only: call_property.simps call_effect_simps; simp)

text \<open>
  Mutators of different properties do not interfere: calling them in either order gives the same
  settings.  Each \<open>gpiod_line_settings_set_*\<close> writes one field.
\<close>

theorem settings_calls_commute:
  assumes "call_property a \<noteq> call_property b" "a \<noteq> Reset" "b \<noteq> Reset"
  shows "fst (fold run_settings_call [a, b] (s, c)) = fst (fold run_settings_call [b, a] (s, c))"
  using call_effect_commute [OF assms] unfolding fold_run_effect by simp

theorem settings_calls_commute_witness:
  "fst (fold run_settings_call [SetDebounce 7, SetBias (GPIOD_LINE_BIAS_OTHER 3)] (default_settings, crt_init))
     = fst (fold run_settings_call [SetBias (GPIOD_LINE_BIAS_OTHER 3), SetDebounce 7] (default_settings, crt_init))"
  using settings_calls_commute [of "SetDebounce 7" "SetBias (GPIOD_LINE_BIAS_OTHER 3)" default_settings crt_init]
  by simp

end
