(* ===== verification/Line_Config.thy ===== *)
theory Line_Config
  imports Line_Settings
begin

text \<open>
  \<open>lib/line-config.c\<close>, the configuration object: two fixed arrays of \<open>LINES_MAX\<close> entries with their
  fill counts, and the list of settings nodes the per-line entries point into.  A node is named by
  its heap block, so that several lines sharing one node is visible in the model.

  \<open>config_abs\<close> reads a configuration as the ordered association list from offsets to settings; the
  operations are shown to refine updates of that list.
\<close>

section \<open>Data\<close>

definition LINES_MAX :: nat where
  "LINES_MAX = GPIO_V2_LINES_MAX"

lemma LINES_MAX_eq [simp]: "LINES_MAX = 64"
  by (simp add: LINES_MAX_def uapi_limits)

text \<open>The \<open>next\<close> pointers of the nodes are the order of the list that holds them.\<close>

record settings_node =
  sn_blk :: nat
  sn_settings :: "gpiod_line_settings obj"

record per_line_config =
  plc_offset :: u32
  plc_node :: "nat option"

record gpiod_line_config =
  cfg_line_configs :: "per_line_config list"
  cfg_num_configs :: nat
  cfg_output_values :: "gpiod_line_value list"
  cfg_num_output_values :: nat
  cfg_sref_list :: "settings_node list"

definition zero_config :: gpiod_line_config where
  "zero_config = \<lparr>cfg_line_configs = replicate LINES_MAX \<lparr>plc_offset = 0, plc_node = None\<rparr>,
     cfg_num_configs = 0, cfg_output_values = replicate LINES_MAX GPIOD_LINE_VALUE_INACTIVE,
     cfg_num_output_values = 0, cfg_sref_list = []\<rparr>"

section \<open>Creation and release\<close>

definition gpiod_line_config_new :: "crt \<Rightarrow> gpiod_line_config obj option \<times> crt" where
  "gpiod_line_config_new c = malloc_obj zero_config c"

fun free_nodes :: "settings_node list \<Rightarrow> crt \<Rightarrow> crt" where
  "free_nodes [] c = c"
| "free_nodes (node # nodes) c =
     free_nodes nodes (free (sn_blk node) (gpiod_line_settings_free (sn_settings node) c))"

definition free_refs :: "gpiod_line_config \<Rightarrow> crt \<Rightarrow> crt" where
  "free_refs config c = free_nodes (cfg_sref_list config) c"

definition gpiod_line_config_free :: "gpiod_line_config obj option \<Rightarrow> crt \<Rightarrow> crt" where
  "gpiod_line_config_free config c =
     (case config of None \<Rightarrow> c | Some p \<Rightarrow> free_obj p (free_refs (snd p) c))"

definition gpiod_line_config_reset :: "gpiod_line_config \<Rightarrow> crt \<Rightarrow> gpiod_line_config \<times> crt" where
  "gpiod_line_config_reset config c = (zero_config, free_refs config c)"

section \<open>Adding settings\<close>

text \<open>The index of the entry for an offset; a new entry is counted in if there is none.\<close>

definition find_config :: "gpiod_line_config \<Rightarrow> u32 \<Rightarrow> nat \<times> gpiod_line_config" where
  "find_config config offset =
     (case find (\<lambda>i. offset = plc_offset (cfg_line_configs config ! i)) [0..<cfg_num_configs config] of
        Some i \<Rightarrow> (i, config)
      | None \<Rightarrow> (cfg_num_configs config,
                 config\<lparr>cfg_num_configs := cfg_num_configs config + 1\<rparr>))"

text \<open>The body of the loop over the offsets.\<close>

definition assign_line :: "nat \<Rightarrow> u32 \<Rightarrow> gpiod_line_config \<Rightarrow> gpiod_line_config" where
  "assign_line node offset config =
     (case find_config config offset of
        (i, config) \<Rightarrow>
          config\<lparr>cfg_line_configs :=
            (cfg_line_configs config)[i := \<lparr>plc_offset = offset, plc_node = Some node\<rparr>]\<rparr>)"

definition gpiod_line_config_add_line_settings ::
    "gpiod_line_config \<Rightarrow> u32 list option \<Rightarrow> gpiod_line_settings option \<Rightarrow> crt
      \<Rightarrow> int \<times> gpiod_line_config \<times> crt" where
  "gpiod_line_config_add_line_settings config offsets settings c =
     (case offsets of
        None \<Rightarrow> (-1, config, set_errno EINVAL c)
      | Some offsets \<Rightarrow>
          if length offsets = 0 then (-1, config, set_errno EINVAL c)
          else if size_add (cfg_num_configs config) (length offsets) > LINES_MAX
          then (-1, config, set_errno E2BIG c)
          else
            (case malloc c of
               (None, c) \<Rightarrow> (-1, config, c)
             | (Some node, c) \<Rightarrow>
                 (case (case settings of
                          None \<Rightarrow> gpiod_line_settings_new c
                        | Some settings \<Rightarrow> gpiod_line_settings_copy settings c) of
                    (None, c) \<Rightarrow> (-1, config, free node c)
                  | (Some s, c) \<Rightarrow>
                      let config = config\<lparr>cfg_sref_list :=
                            \<lparr>sn_blk = node, sn_settings = s\<rparr> # cfg_sref_list config\<rparr>
                      in (0, fold (assign_line node) offsets config, c))))"

section \<open>Reading the configuration back\<close>

text \<open>Following \<open>per_line->node->settings\<close>.\<close>

definition node_settings :: "gpiod_line_config \<Rightarrow> nat \<Rightarrow> gpiod_line_settings" where
  "node_settings config node =
     snd (sn_settings (the (find (\<lambda>n. sn_blk n = node) (cfg_sref_list config))))"

definition line_settings_at :: "gpiod_line_config \<Rightarrow> nat \<Rightarrow> gpiod_line_settings" where
  "line_settings_at config i = node_settings config (the (plc_node (cfg_line_configs config ! i)))"

definition gpiod_line_config_get_line_settings ::
    "gpiod_line_config \<Rightarrow> u32 \<Rightarrow> crt \<Rightarrow> gpiod_line_settings obj option \<times> crt" where
  "gpiod_line_config_get_line_settings config offset c =
     (case find (\<lambda>i. plc_offset (cfg_line_configs config ! i) = offset) [0..<cfg_num_configs config] of
        None \<Rightarrow> (None, set_errno ENOENT c)
      | Some i \<Rightarrow>
          (case gpiod_line_settings_copy (line_settings_at config i) c of
             (None, c) \<Rightarrow> (None, c)
           | (Some settings, c) \<Rightarrow>
               if cfg_num_output_values config > i
               then (case gpiod_line_settings_set_output_value (snd settings)
                            (cfg_output_values config ! i) c of
                       (ret, s, c) \<Rightarrow>
                         if ret \<noteq> 0 then (None, gpiod_line_settings_free (fst settings, s) c)
                         else (Some (fst settings, s), c))
               else (Some settings, c)))"

section \<open>Output values\<close>

fun set_output_loop :: "nat \<Rightarrow> gpiod_line_value list \<Rightarrow> gpiod_line_config \<Rightarrow> crt
    \<Rightarrow> int \<times> gpiod_line_config \<times> crt" where
  "set_output_loop i [] config c = (0, config, c)"
| "set_output_loop i (v # vs) config c =
     (case gpiod_set_output_value v c of
        (ret, out, c) \<Rightarrow>
          let config = config\<lparr>cfg_output_values := (cfg_output_values config)[i := out]\<rparr>
          in if ret \<noteq> 0 then (ret, config\<lparr>cfg_num_output_values := 0\<rparr>, c)
             else set_output_loop (Suc i) vs config c)"

definition gpiod_line_config_set_output_values ::
    "gpiod_line_config \<Rightarrow> gpiod_line_value list option \<Rightarrow> crt \<Rightarrow> int \<times> gpiod_line_config \<times> crt" where
  "gpiod_line_config_set_output_values config values c =
     (case values of
        None \<Rightarrow> (-1, config, set_errno EINVAL c)
      | Some vs \<Rightarrow>
          if length vs = 0 \<or> length vs > LINES_MAX then (-1, config, set_errno EINVAL c)
          else (case set_output_loop 0 vs config c of
                  (ret, config, c) \<Rightarrow>
                    if ret \<noteq> 0 then (ret, config, c)
                    else (0, config\<lparr>cfg_num_output_values := length vs\<rparr>, c)))"

definition gpiod_line_config_get_num_configured_offsets :: "gpiod_line_config \<Rightarrow> nat" where
  "gpiod_line_config_get_num_configured_offsets config = cfg_num_configs config"

text \<open>The caller's array is given by its contents, and returned with the entries written.\<close>

definition gpiod_line_config_get_configured_offsets ::
    "gpiod_line_config \<Rightarrow> u32 list option \<Rightarrow> nat \<Rightarrow> nat \<times> u32 list option" where
  "gpiod_line_config_get_configured_offsets config offsets max_offsets =
     (case offsets of
        None \<Rightarrow> (0, None)
      | Some buf \<Rightarrow>
          if max_offsets = 0 \<or> cfg_num_configs config = 0 then (0, Some buf)
          else let num_offsets = min (cfg_num_configs config) max_offsets
               in (num_offsets,
                   Some (fold (\<lambda>i b. b[i := plc_offset (cfg_line_configs config ! i)])
                           [0..<num_offsets] buf)))"

section \<open>Invariant and abstraction\<close>

definition config_offsets :: "gpiod_line_config \<Rightarrow> u32 list" where
  "config_offsets config = map plc_offset (take (cfg_num_configs config) (cfg_line_configs config))"

definition config_wf :: "gpiod_line_config \<Rightarrow> bool" where
  "config_wf config \<longleftrightarrow>
     length (cfg_line_configs config) = LINES_MAX \<and> length (cfg_output_values config) = LINES_MAX
     \<and> cfg_num_configs config \<le> LINES_MAX \<and> cfg_num_output_values config \<le> LINES_MAX
     \<and> distinct (config_offsets config)
     \<and> (\<forall>i < cfg_num_configs config. case plc_node (cfg_line_configs config ! i) of
            None \<Rightarrow> False | Some b \<Rightarrow> b \<in> sn_blk ` set (cfg_sref_list config))
     \<and> (\<forall>v \<in> set (cfg_output_values config). valid_line_value v)"

text \<open>The blocks a configuration owns beside its own: nodes and their settings.\<close>

definition node_blocks :: "settings_node list \<Rightarrow> nat list" where
  "node_blocks nodes = concat (map (\<lambda>n. [sn_blk n, fst (sn_settings n)]) nodes)"

definition config_blocks :: "gpiod_line_config \<Rightarrow> nat set" where
  "config_blocks config = set (node_blocks (cfg_sref_list config))"

definition config_inv :: "gpiod_line_config \<Rightarrow> bool" where
  "config_inv config \<longleftrightarrow> config_wf config \<and> distinct (node_blocks (cfg_sref_list config))"

definition config_abs :: "gpiod_line_config \<Rightarrow> (u32 \<times> gpiod_line_settings) list" where
  "config_abs config =
     map (\<lambda>i. (plc_offset (cfg_line_configs config ! i), line_settings_at config i))
       [0..<cfg_num_configs config]"

section \<open>Memory safety of the line table\<close>

text \<open>The table as a list of pairs, the form in which the updates are association-list updates.\<close>

definition line_entries :: "gpiod_line_config \<Rightarrow> (u32 \<times> nat option) list" where
  "line_entries config = map (\<lambda>p. (plc_offset p, plc_node p))
     (take (cfg_num_configs config) (cfg_line_configs config))"

definition table_room :: "gpiod_line_config \<Rightarrow> nat \<Rightarrow> bool" where
  "table_room config m \<longleftrightarrow> length (cfg_line_configs config) = LINES_MAX
     \<and> cfg_num_configs config + m \<le> LINES_MAX"

lemma length_line_entries:
  "table_room config m \<Longrightarrow> length (line_entries config) = cfg_num_configs config"
  by (auto simp: line_entries_def table_room_def)

lemma nth_line_entries:
  "table_room config m \<Longrightarrow> i < cfg_num_configs config \<Longrightarrow> line_entries config ! i =
     (plc_offset (cfg_line_configs config ! i), plc_node (cfg_line_configs config ! i))"
  by (auto simp: line_entries_def table_room_def)

lemma find_config_index:
  assumes "table_room config (Suc m)"
  shows "fst (find_config config offset) < LINES_MAX"
  using assms
  by (auto simp: find_config_def table_room_def find_upt_Some split: option.splits)

lemma assign_line_frame [simp]:
  "cfg_output_values (assign_line b off config) = cfg_output_values config"
  "cfg_num_output_values (assign_line b off config) = cfg_num_output_values config"
  "cfg_sref_list (assign_line b off config) = cfg_sref_list config"
  "length (cfg_line_configs (assign_line b off config)) = length (cfg_line_configs config)"
  by (auto simp: assign_line_def find_config_def split: option.splits)

lemma assign_line_room:
  "table_room config (Suc m) \<Longrightarrow> table_room (assign_line b off config) m"
  by (auto simp: table_room_def assign_line_def find_config_def split: option.splits)

lemma assign_line_entries:
  assumes room: "table_room config (Suc m)"
  shows "line_entries (assign_line b off config) = AList.update off (Some b) (line_entries config)"
proof (cases "find (\<lambda>i. off = plc_offset (cfg_line_configs config ! i)) [0..<cfg_num_configs config]")
  case (Some i)
  then have i: "i < cfg_num_configs config" "plc_offset (cfg_line_configs config ! i) = off"
    "\<forall>j < i. plc_offset (cfg_line_configs config ! j) \<noteq> off"
    by (auto simp: find_upt_Some)
  have "AList.update off (Some b) (line_entries config) = (line_entries config)[i := (off, Some b)]"
    using i room by (intro AList_update_at) (auto simp: length_line_entries nth_line_entries)
  with Some i room show ?thesis
    by (simp add: assign_line_def find_config_def line_entries_def take_update_swap map_update)
next
  case None
  then have "\<forall>i < cfg_num_configs config. plc_offset (cfg_line_configs config ! i) \<noteq> off"
    by (auto simp: find_upt_None)
  then have "off \<notin> fst ` set (line_entries config)"
    using room by (fastforce simp: line_entries_def in_set_conv_nth table_room_def)
  then have "AList.update off (Some b) (line_entries config) = line_entries config @ [(off, Some b)]"
    by (rule AList_update_new)
  with None room show ?thesis
    by (simp add: assign_line_def find_config_def line_entries_def table_room_def
        take_Suc_conv_app_nth)
qed

lemma assign_lines:
  assumes "table_room config (length offs)"
  shows "line_entries (fold (assign_line b) offs config)
      = fold (\<lambda>off. AList.update off (Some b)) offs (line_entries config)"
    and "table_room (fold (assign_line b) offs config) 0"
    and "cfg_output_values (fold (assign_line b) offs config) = cfg_output_values config"
    and "cfg_num_output_values (fold (assign_line b) offs config) = cfg_num_output_values config"
    and "cfg_sref_list (fold (assign_line b) offs config) = cfg_sref_list config"
  using assms
  by (induction offs arbitrary: config)
    (simp_all add: assign_line_room assign_line_entries)

section \<open>The outcomes of adding settings\<close>

definition settings_or_default :: "gpiod_line_settings option \<Rightarrow> gpiod_line_settings" where
  "settings_or_default settings = (case settings of None \<Rightarrow> default_settings | Some s \<Rightarrow> s)"

lemma settings_alloc_eq:
  "(case settings of None \<Rightarrow> gpiod_line_settings_new c | Some s \<Rightarrow> gpiod_line_settings_copy s c)
     = malloc_obj (settings_or_default settings) c"
  by (simp add: settings_or_default_def gpiod_line_settings_new_def gpiod_line_settings_copy_def
      split: option.splits)

lemma add_line_settings_cases [consumes 2]:
  assumes add: "gpiod_line_config_add_line_settings config offsets settings c = (ret, config', c')"
    and heap: "heap_ok c"
  obtains
    (invalid) "offsets = None \<or> offsets = Some []" "ret = -1" "config' = config"
      "c' = set_errno EINVAL c"
  | (too_big) offs where "offsets = Some offs" "offs \<noteq> []"
      "size_add (cfg_num_configs config) (length offs) > LINES_MAX"
      "ret = -1" "config' = config" "c' = set_errno E2BIG c"
  | (no_memory) offs where "offsets = Some offs" "offs \<noteq> []"
      "size_add (cfg_num_configs config) (length offs) \<le> LINES_MAX"
      "ret = -1" "config' = config" "heap_ok c'" "live c' = live c" "crt_errno c' = ENOMEM"
      "oom c (nalloc c) \<or> oom c (Suc (nalloc c))"
  | (added) offs b sb where "offsets = Some offs" "offs \<noteq> []"
      "size_add (cfg_num_configs config) (length offs) \<le> LINES_MAX"
      "ret = 0" "heap_ok c'" "live c' = insert b (insert sb (live c))" "b \<notin> live c" "sb \<notin> live c"
      "b \<noteq> sb" "crt_errno c' = crt_errno c"
      "config' = fold (assign_line b) offs (config\<lparr>cfg_sref_list :=
         \<lparr>sn_blk = b, sn_settings = (sb, settings_or_default settings)\<rparr> # cfg_sref_list config\<rparr>)"
proof (cases "offsets = None \<or> offsets = Some []")
  case True
  with add show ?thesis
    by (intro that(1)) (auto simp: gpiod_line_config_add_line_settings_def)
next
  case False
  then obtain offs where offs: "offsets = Some offs" "offs \<noteq> []" by auto
  show ?thesis
  proof (cases "size_add (cfg_num_configs config) (length offs) > LINES_MAX")
    case True
    with add offs show ?thesis
      by (intro that(2)) (auto simp: gpiod_line_config_add_line_settings_def)
  next
    case False
    note offs = offs False
    show ?thesis
    proof (cases rule: malloc_cases [of c])
      case fail
      with add offs heap show ?thesis
        by (intro that(3)) (auto simp: gpiod_line_config_add_line_settings_def heap_ok_def less_Suc_eq)
    next
      case ok
      let ?c1 = "c\<lparr>nalloc := Suc (nalloc c), live := insert (nalloc c) (live c)\<rparr>"
      show ?thesis
      proof (cases rule: malloc_obj_cases [of "settings_or_default settings" ?c1])
        case fail
        with ok add offs heap show ?thesis
          by (intro that(3))
            (auto simp: gpiod_line_config_add_line_settings_def settings_alloc_eq heap_ok_def
              less_Suc_eq)
      next
        case ok2: ok
        with ok add offs heap show ?thesis
          by (intro that(4) [of offs "nalloc c" "Suc (nalloc c)"])
            (auto simp: gpiod_line_config_add_line_settings_def settings_alloc_eq heap_ok_def
              less_Suc_eq)
      qed
    qed
  qed
qed

section \<open>Refinement and invariant of adding settings\<close>

lemma case_option_False: "(case x of None \<Rightarrow> False | Some b \<Rightarrow> P b) \<longleftrightarrow> (\<exists>b. x = Some b \<and> P b)"
  by (cases x) simp_all

lemma config_wf_entries:
  "config_wf config \<longleftrightarrow> table_room config 0 \<and> length (cfg_output_values config) = LINES_MAX
     \<and> cfg_num_output_values config \<le> LINES_MAX \<and> distinct (map fst (line_entries config))
     \<and> (\<forall>e \<in> set (line_entries config). \<exists>b. snd e = Some b \<and> b \<in> sn_blk ` set (cfg_sref_list config))
     \<and> (\<forall>v \<in> set (cfg_output_values config). valid_line_value v)"
proof (cases "table_room config 0")
  case True
  then have "(\<forall>e \<in> set (line_entries config). \<exists>b. snd e = Some b \<and> b \<in> sn_blk ` set (cfg_sref_list config))
      \<longleftrightarrow> (\<forall>i < cfg_num_configs config. \<exists>b. plc_node (cfg_line_configs config ! i) = Some b
          \<and> b \<in> sn_blk ` set (cfg_sref_list config))"
    by (simp add: all_set_conv_all_nth length_line_entries nth_line_entries)
  moreover have "map fst (line_entries config) = config_offsets config"
    by (simp add: line_entries_def config_offsets_def comp_def)
  ultimately show ?thesis
    using True by (simp only: config_wf_def case_option_False table_room_def) auto
qed (auto simp: config_wf_def table_room_def)

lemma config_abs_entries:
  "table_room config 0 \<Longrightarrow>
     config_abs config = map (\<lambda>(off, nd). (off, node_settings config (the nd))) (line_entries config)"
  by (rule nth_equalityI)
    (auto simp: config_abs_def length_line_entries nth_line_entries line_settings_at_def)

lemma map_fst_config_abs:
  "table_room config 0 \<Longrightarrow> map fst (config_abs config) = map fst (line_entries config)"
  by (simp add: config_abs_entries comp_def case_prod_beta)

lemma node_settings_cong:
  "cfg_sref_list config = cfg_sref_list config' \<Longrightarrow> node_settings config = node_settings config'"
  by (simp add: fun_eq_iff node_settings_def)

lemma node_settings_Cons:
  "node_settings (config\<lparr>cfg_sref_list := n # ns\<rparr>) b =
     (if b = sn_blk n then snd (sn_settings n) else node_settings (config\<lparr>cfg_sref_list := ns\<rparr>) b)"
  by (auto simp: node_settings_def)

lemma node_blocks_Cons [simp]:
  "node_blocks (n # ns) = sn_blk n # fst (sn_settings n) # node_blocks ns"
  by (simp add: node_blocks_def)

lemma sn_blk_in_blocks: "n \<in> set ns \<Longrightarrow> sn_blk n \<in> set (node_blocks ns)"
  by (auto simp: node_blocks_def)

lemma added_config:
  assumes inv: "config_inv config" and room: "table_room config (length offs)"
    and b: "b \<notin> config_blocks config" and sb: "sb \<notin> config_blocks config" "b \<noteq> sb"
    and config': "config' = fold (assign_line b) offs
      (config\<lparr>cfg_sref_list := \<lparr>sn_blk = b, sn_settings = (sb, s)\<rparr> # cfg_sref_list config\<rparr>)"
  shows "config_inv config'"
    and "config_blocks config' = insert b (insert sb (config_blocks config))"
    and "config_abs config' = fold (\<lambda>off. AList.update off s) offs (config_abs config)"
    and "cfg_output_values config' = cfg_output_values config"
    and "cfg_num_output_values config' = cfg_num_output_values config"
proof -
  let ?n = "\<lparr>sn_blk = b, sn_settings = (sb, s)\<rparr>"
  let ?c1 = "config\<lparr>cfg_sref_list := ?n # cfg_sref_list config\<rparr>"
  have ent1: "line_entries ?c1 = line_entries config" and room1: "table_room ?c1 (length offs)"
    using room by (simp_all add: line_entries_def table_room_def)
  note fold1 = assign_lines [OF room1, of b, folded config', unfolded ent1]
  have sref: "cfg_sref_list config' = ?n # cfg_sref_list config" using fold1(5) by simp
  show blocks: "config_blocks config' = insert b (insert sb (config_blocks config))"
    by (simp add: config_blocks_def sref)
  show "cfg_output_values config' = cfg_output_values config"
    and "cfg_num_output_values config' = cfg_num_output_values config"
    using fold1(3,4) by simp_all
  from inv have wf: "config_wf config" by (simp add: config_inv_def)
  note wf_parts = wf [unfolded config_wf_entries]
  have ent_set: "set (line_entries config') \<subseteq> set (line_entries config) \<union> (\<lambda>o'. (o', Some b)) ` set offs"
    unfolding fold1(1) by (rule set_fold_AList_update)
  have "\<exists>b'. snd e = Some b' \<and> b' \<in> sn_blk ` set (cfg_sref_list config')"
    if "e \<in> set (line_entries config')" for e
    using that ent_set wf_parts by (fastforce simp: sref)
  then have "config_wf config'"
    unfolding config_wf_entries
    using wf_parts fold1(2,3,4) distinct_fold_AList_update [of "line_entries config" "Some b" offs]
    by (simp add: fold1(1))
  moreover have "distinct (node_blocks (cfg_sref_list config'))"
    using inv b sb by (simp add: sref config_inv_def config_blocks_def)
  ultimately show "config_inv config'" by (simp add: config_inv_def)
  have ns: "node_settings config' = node_settings ?c1"
    by (rule node_settings_cong) (simp add: sref)
  have old: "node_settings ?c1 b' = node_settings config b'" if "b' \<in> sn_blk ` set (cfg_sref_list config)" for b'
    using that b sn_blk_in_blocks by (auto simp: node_settings_Cons config_blocks_def)
  let ?m = "\<lambda>cfg. map (\<lambda>(off, nd). (off, node_settings cfg (the nd)))"
  have old_map: "?m ?c1 (line_entries config) = ?m config (line_entries config)"
    using wf_parts old by (intro map_cong refl) (fastforce split: prod.splits)
  have "config_abs config' = ?m ?c1 (fold (\<lambda>off. AList.update off (Some b)) offs (line_entries config))"
    using fold1(1,2) by (simp add: config_abs_entries ns)
  also have "\<dots> = fold (\<lambda>off. AList.update off (node_settings ?c1 b)) offs (?m ?c1 (line_entries config))"
    using map_fold_AList_update [where f = "\<lambda>nd. node_settings ?c1 (the nd)" and y = "Some b"] by simp
  also have "\<dots> = fold (\<lambda>off. AList.update off s) offs (config_abs config)"
    using wf_parts by (simp only: old_map config_abs_entries) (simp add: node_settings_Cons)
  finally show "config_abs config' = fold (\<lambda>off. AList.update off s) offs (config_abs config)" .
qed

section \<open>Output values\<close>

lemma set_output_loop_frame:
  "set_output_loop i vs config c = (ret, config', c') \<Longrightarrow>
     cfg_line_configs config' = cfg_line_configs config \<and> cfg_num_configs config' = cfg_num_configs config
     \<and> cfg_sref_list config' = cfg_sref_list config
     \<and> length (cfg_output_values config') = length (cfg_output_values config)
     \<and> (cfg_num_output_values config' = cfg_num_output_values config \<or> cfg_num_output_values config' = 0)
     \<and> live c' = live c \<and> heap_ok c' = heap_ok c"
  by (induction vs arbitrary: i config c)
    (fastforce simp: gpiod_set_output_value_cases Let_def split: if_splits)+

lemma set_output_loop_valid:
  "set_output_loop i vs config c = (ret, config', c') \<Longrightarrow>
     \<forall>v \<in> set (cfg_output_values config). valid_line_value v \<Longrightarrow>
     \<forall>v \<in> set (cfg_output_values config'). valid_line_value v"
proof (induction vs arbitrary: i config c)
  case (Cons v vs)
  obtain out where out: "valid_line_value out"
    "gpiod_set_output_value v c = (0, out, c) \<or> gpiod_set_output_value v c = (-1, out, set_errno EINVAL c)"
    using output_value.dflt_valid by (cases "valid_line_value v") (auto simp: gpiod_set_output_value_cases)
  then have "\<forall>w \<in> set ((cfg_output_values config)[i := out]). valid_line_value w"
    using Cons.prems(2) set_update_subset_insert [of "cfg_output_values config" i out] by blast
  with Cons out show ?case by (auto simp: Let_def)
qed simp

lemma set_output_loop_all_valid:
  assumes "\<forall>v \<in> set vs. valid_line_value v" "i + length vs \<le> length (cfg_output_values config)"
  shows "set_output_loop i vs config c = (0, config\<lparr>cfg_output_values :=
     take i (cfg_output_values config) @ vs @ drop (i + length vs) (cfg_output_values config)\<rparr>, c)"
  using assms
proof (induction vs arbitrary: i config)
  case (Cons v vs)
  let ?ov = "cfg_output_values config"
  have i: "i < length ?ov" using Cons.prems by simp
  have "take (Suc i) (?ov[i := v]) = take i ?ov @ [v]"
    using i by (simp add: take_Suc_conv_app_nth)
  with Cons i show ?case
    by (simp add: gpiod_set_output_value_cases Let_def)
qed simp

lemma set_output_loop_bad:
  "\<exists>v \<in> set vs. \<not> valid_line_value v \<Longrightarrow> set_output_loop i vs config c = (ret, config', c') \<Longrightarrow>
     ret = -1 \<and> cfg_num_output_values config' = 0 \<and> crt_errno c' = EINVAL"
  by (induction vs arbitrary: i config c)
    (auto simp: gpiod_set_output_value_cases Let_def split: if_splits)

section \<open>The contract of configuration operations\<close>

text \<open>
  A configuration in a heap: its invariant holds and its blocks are allocated.  \<open>foreign\<close> are the
  allocated blocks of everybody else.
\<close>

definition config_state :: "gpiod_line_config \<Rightarrow> crt \<Rightarrow> bool" where
  "config_state config c \<longleftrightarrow> config_inv config \<and> heap_ok c \<and> config_blocks config \<subseteq> live c"

definition foreign :: "gpiod_line_config \<Rightarrow> crt \<Rightarrow> nat set" where
  "foreign config c = live c - config_blocks config"

locale config_op =
  fixes run :: "gpiod_line_config \<Rightarrow> crt \<Rightarrow> int \<times> gpiod_line_config \<times> crt"
    and pre :: bool
  assumes keeps_state: "pre \<Longrightarrow> config_state config c \<Longrightarrow> run config c = (ret, config', c') \<Longrightarrow>
      config_state config' c'"
    and keeps_foreign: "pre \<Longrightarrow> config_state config c \<Longrightarrow> run config c = (ret, config', c') \<Longrightarrow>
      foreign config' c' = foreign config c"
begin

lemma keeps:
  assumes "pre" "config_state config c" "run config c = (ret, config', c')"
  shows "config_state config' c' \<and> foreign config' c' = foreign config c"
  using keeps_state [OF assms] keeps_foreign [OF assms] by simp

text \<open>An operation never releases or takes over a block of another owner.\<close>

lemma foreign_stays_live:
  assumes "pre" "config_state config c" "run config c = (ret, config', c')" "b \<in> foreign config c"
  shows "b \<in> live c' \<and> b \<notin> config_blocks config'"
  using keeps_foreign [OF assms(1-3)] assms(4) by (auto simp: foreign_def)

end

definition array_fits :: "'a list option \<Rightarrow> bool" where
  "array_fits a \<longleftrightarrow> (case a of None \<Rightarrow> True | Some xs \<Rightarrow> length xs < 2 ^ 62)"

lemma table_room_add:
  assumes "config_inv config" "size_add (cfg_num_configs config) (length offs) \<le> LINES_MAX"
    "length offs < 2 ^ 62"
  shows "table_room config (length offs)"
  using assms by (auto simp: config_inv_def config_wf_def table_room_def size_add_no_wrap)

lemma add_line_settings_state:
  assumes fits: "array_fits offsets" and st: "config_state config c"
    and add: "gpiod_line_config_add_line_settings config offsets settings c = (ret, config', c')"
  shows "config_state config' c' \<and> foreign config' c' = foreign config c"
proof -
  from st have heap: "heap_ok c" and inv: "config_inv config" and bl: "config_blocks config \<subseteq> live c"
    by (auto simp: config_state_def)
  from add heap show ?thesis
  proof (cases rule: add_line_settings_cases)
    case (added offs b sb)
    have room: "table_room config (length offs)"
      by (rule table_room_add) (use added(1,3) fits inv in \<open>auto simp: array_fits_def\<close>)
    have "b \<notin> config_blocks config" "sb \<notin> config_blocks config" using added(7,8) bl by blast+
    note new = added_config(1,2) [OF inv room this added(9) added(11)]
    show ?thesis
      unfolding config_state_def foreign_def new(2) added(6)
      using new(1) added(5,7,8) bl by blast
  qed (use st in \<open>simp_all add: config_state_def foreign_def\<close>)
qed

lemma config_inv_cong:
  "cfg_line_configs config' = cfg_line_configs config \<Longrightarrow> cfg_num_configs config' = cfg_num_configs config \<Longrightarrow>
   cfg_sref_list config' = cfg_sref_list config \<Longrightarrow>
   length (cfg_output_values config') = LINES_MAX \<Longrightarrow> cfg_num_output_values config' \<le> LINES_MAX \<Longrightarrow>
   \<forall>v \<in> set (cfg_output_values config'). valid_line_value v \<Longrightarrow>
   config_inv config \<Longrightarrow> config_inv config'"
  by (simp add: config_inv_def config_wf_def config_offsets_def case_option_False)

lemma set_output_values_state:
  assumes st: "config_state config c"
    and set: "gpiod_line_config_set_output_values config values c = (ret, config', c')"
  shows "config_state config' c' \<and> foreign config' c' = foreign config c"
proof (cases "\<exists>vs. values = Some vs \<and> vs \<noteq> [] \<and> length vs \<le> LINES_MAX")
  case True
  then obtain vs where vs: "values = Some vs" "vs \<noteq> []" "length vs \<le> LINES_MAX" by blast
  obtain ret1 config1 c1 where loop: "set_output_loop 0 vs config c = (ret1, config1, c1)"
    by (rule prod_cases3)
  note fr = set_output_loop_frame [OF loop]
  from st have inv: "config_inv config" and wf: "config_wf config"
    by (simp_all add: config_state_def config_inv_def)
  have val: "\<forall>v \<in> set (cfg_output_values config1). valid_line_value v"
    by (rule set_output_loop_valid [OF loop]) (use wf in \<open>simp add: config_wf_def\<close>)
  have inv1: "config_inv (config1\<lparr>cfg_num_output_values := n\<rparr>)" if "n \<le> LINES_MAX" for n
    by (rule config_inv_cong [of _ config]) (use fr val wf inv that in \<open>simp_all add: config_wf_def\<close>)
  have n1: "cfg_num_output_values config1 \<le> LINES_MAX"
    using fr wf by (auto simp: config_wf_def)
  define n where "n = (if ret1 \<noteq> 0 then cfg_num_output_values config1 else length vs)"
  have "config' = config1\<lparr>cfg_num_output_values := n\<rparr>" "c' = c1"
    using set vs loop by (auto simp: gpiod_line_config_set_output_values_def n_def split: if_splits)
  moreover have "config_inv (config1\<lparr>cfg_num_output_values := n\<rparr>)"
    by (rule inv1) (use n1 vs in \<open>simp add: n_def\<close>)
  ultimately show ?thesis
    using fr st by (simp add: config_state_def foreign_def config_blocks_def)
next
  case False
  with set have "config' = config" "c' = set_errno EINVAL c"
    by (auto simp: gpiod_line_config_set_output_values_def split: option.splits if_splits)
  with st show ?thesis by (simp add: config_state_def foreign_def)
qed

lemma free_nodes_heap:
  assumes "heap_ok c" "distinct (node_blocks ns)" "set (node_blocks ns) \<subseteq> live c"
  shows "heap_ok (free_nodes ns c) \<and> live (free_nodes ns c) = live c - set (node_blocks ns)"
  using assms
proof (induction ns arbitrary: c)
  case Nil
  then show ?case by (simp add: node_blocks_def)
next
  case (Cons n ns)
  let ?c1 = "gpiod_line_settings_free (sn_settings n) c"
  have c1: "heap_ok ?c1" "live ?c1 = live c - {fst (sn_settings n)}"
    using Cons.prems settings_heap.release_ok [of c "sn_settings n"] by auto
  have "heap_ok (free (sn_blk n) ?c1)"
    using Cons.prems c1 by (intro heap_ok_free) auto
  moreover have "set (node_blocks ns) \<subseteq> live (free (sn_blk n) ?c1)"
    using Cons.prems c1 by auto
  ultimately have "heap_ok (free_nodes ns (free (sn_blk n) ?c1))
      \<and> live (free_nodes ns (free (sn_blk n) ?c1)) = live (free (sn_blk n) ?c1) - set (node_blocks ns)"
    using Cons by simp
  with c1 show ?case by auto
qed

lemma config_inv_zero [simp]: "config_inv zero_config"
  by (simp add: config_inv_def config_wf_def zero_config_def config_offsets_def node_blocks_def
      valid_line_value_def)

lemma config_blocks_zero [simp]: "config_blocks zero_config = {}"
  by (simp add: config_blocks_def zero_config_def node_blocks_def)

lemma free_refs_heap:
  "config_state config c \<Longrightarrow>
     heap_ok (free_refs config c) \<and> live (free_refs config c) = foreign config c"
  using free_nodes_heap [of c "cfg_sref_list config"]
  by (auto simp: config_state_def config_inv_def free_refs_def foreign_def config_blocks_def)

lemma reset_state:
  assumes "config_state config c" "gpiod_line_config_reset config c = (config', c')"
  shows "config_state config' c' \<and> foreign config' c' = foreign config c"
  using assms free_refs_heap [OF assms(1)]
  by (auto simp: gpiod_line_config_reset_def config_state_def foreign_def)

interpretation add_op: config_op "\<lambda>config. gpiod_line_config_add_line_settings config offsets settings"
    "array_fits offsets" for offsets settings
  by unfold_locales (auto dest: add_line_settings_state)

interpretation output_op: config_op "\<lambda>config. gpiod_line_config_set_output_values config values" True
  for "values"
  by unfold_locales (auto dest: set_output_values_state)

interpretation reset_op: config_op "\<lambda>config c. case gpiod_line_config_reset config c of
    (config', c') \<Rightarrow> (0, config', c')" True
  by unfold_locales (auto dest: reset_state split: prod.splits)

interpretation config_heap: heap_object gpiod_line_config_new "\<lambda>p. gpiod_line_config_free (Some p)"
    "\<lambda>p. insert (fst p) (config_blocks (snd p))"
    "\<lambda>p. config_inv (snd p) \<and> fst p \<notin> config_blocks (snd p)"
proof
  fix c c' :: crt
  assume "gpiod_line_config_new c = (None, c')" "heap_ok c"
  then show "heap_ok c' \<and> live c' = live c"
    using one_block.new_fail [of zero_config c c'] by (simp add: gpiod_line_config_new_def)
next
  fix c c' :: crt and p
  assume new: "gpiod_line_config_new c = (Some p, c')" and heap: "heap_ok c"
  then have "snd p = zero_config" using malloc_obj_SomeD(1) by (fastforce simp: gpiod_line_config_new_def)
  with new heap show "heap_ok c' \<and> live c' = live c \<union> insert (fst p) (config_blocks (snd p))
      \<and> live c \<inter> insert (fst p) (config_blocks (snd p)) = {}
      \<and> config_inv (snd p) \<and> fst p \<notin> config_blocks (snd p)"
    using one_block.new_ok [of zero_config c p c'] by (simp add: gpiod_line_config_new_def)
next
  fix c :: crt and p :: "gpiod_line_config obj"
  assume heap: "heap_ok c" and inv: "config_inv (snd p) \<and> fst p \<notin> config_blocks (snd p)"
    and bl: "insert (fst p) (config_blocks (snd p)) \<subseteq> live c"
  then have "heap_ok (free_refs (snd p) c) \<and> live (free_refs (snd p) c) = foreign (snd p) c"
    by (intro free_refs_heap) (simp add: config_state_def)
  then show "heap_ok (gpiod_line_config_free (Some p) c)
      \<and> live (gpiod_line_config_free (Some p) c) = live c - insert (fst p) (config_blocks (snd p))"
    using inv bl one_block.release_ok [of "free_refs (snd p) c" p]
    by (auto simp: gpiod_line_config_free_def foreign_def)
qed

section \<open>A sample configuration\<close>

text \<open>Two output lines that share their settings and a debounced input line.\<close>

definition output_settings :: gpiod_line_settings where
  "output_settings = default_settings\<lparr>ls_direction := GPIOD_LINE_DIRECTION_OUTPUT,
     ls_output_value := GPIOD_LINE_VALUE_ACTIVE\<rparr>"

definition input_settings :: gpiod_line_settings where
  "input_settings = default_settings\<lparr>ls_direction := GPIOD_LINE_DIRECTION_INPUT,
     ls_bias := GPIOD_LINE_BIAS_PULL_UP, ls_debounce_period_us := 1000\<rparr>"

definition sample_config :: gpiod_line_config where
  "sample_config =
     (case gpiod_line_config_add_line_settings zero_config (Some [4, 7]) (Some output_settings) crt_init of
        (_, config, c) \<Rightarrow>
          fst (snd (gpiod_line_config_add_line_settings config (Some [9]) (Some input_settings) c)))"

lemma sample_config_num: "cfg_num_configs sample_config = 3"
  by code_simp

lemma sample_config_abs:
  "config_abs sample_config = [(4, output_settings), (7, output_settings), (9, input_settings)]"
  by code_simp

lemma sample_config_inv: "config_inv sample_config"
  by code_simp

section \<open>Reading back\<close>

text \<open>Settings of the \<open>i\<close>-th line with the global output value, if there is one, put in.\<close>

definition settings_with_output :: "gpiod_line_config \<Rightarrow> nat \<Rightarrow> gpiod_line_settings" where
  "settings_with_output config i =
     (if i < cfg_num_output_values config
      then (line_settings_at config i)\<lparr>ls_output_value := cfg_output_values config ! i\<rparr>
      else line_settings_at config i)"

lemma config_offsets_nth:
  "config_wf config \<Longrightarrow> i < cfg_num_configs config \<Longrightarrow>
     config_offsets config ! i = plc_offset (cfg_line_configs config ! i)"
  by (simp add: config_offsets_def config_wf_def)

lemma length_config_offsets: "config_wf config \<Longrightarrow> length (config_offsets config) = cfg_num_configs config"
  by (simp add: config_offsets_def config_wf_def)

lemma find_offset:
  assumes wf: "config_wf config" and i: "i < cfg_num_configs config"
  shows "find (\<lambda>j. plc_offset (cfg_line_configs config ! j) = config_offsets config ! i)
    [0..<cfg_num_configs config] = Some i"
proof -
  have d: "distinct (config_offsets config)" using wf by (simp add: config_wf_def)
  have "plc_offset (cfg_line_configs config ! j) \<noteq> config_offsets config ! i" if "j < i" for j
    using d that i nth_eq_iff_index_eq [OF d, of j i] config_offsets_nth [OF wf, of j]
    by (simp add: length_config_offsets [OF wf])
  with i show ?thesis by (simp add: find_upt_Some config_offsets_nth [OF wf])
qed

lemma get_line_settings_known:
  assumes wf: "config_wf config" and i: "i < cfg_num_configs config"
  shows "gpiod_line_config_get_line_settings config (config_offsets config ! i) c
    = malloc_obj (settings_with_output config i) c"
proof -
  have v: "valid_line_value (cfg_output_values config ! i)" if "i < cfg_num_output_values config"
    using wf that by (simp add: config_wf_def)
  show ?thesis
  proof (cases rule: malloc_obj_cases [of "line_settings_at config i" c])
    case fail
    moreover from this have "malloc_obj (settings_with_output config i) c =
        (None, set_errno ENOMEM (c\<lparr>nalloc := Suc (nalloc c)\<rparr>))"
      by (simp add: malloc_obj_def malloc_def Let_def)
    ultimately show ?thesis
      by (simp add: gpiod_line_config_get_line_settings_def find_offset [OF wf i]
          gpiod_line_settings_copy_def)
  next
    case ok
    moreover from this have "malloc_obj (settings_with_output config i) c = (Some (nalloc c,
        settings_with_output config i), c\<lparr>nalloc := Suc (nalloc c), live := insert (nalloc c) (live c)\<rparr>)"
      by (simp add: malloc_obj_def malloc_def Let_def)
    ultimately show ?thesis
      using v by (simp add: gpiod_line_config_get_line_settings_def find_offset [OF wf i]
          gpiod_line_settings_copy_def set_output_eq settings_with_output_def)
  qed
qed

lemma get_line_settings_unknown:
  assumes "config_wf config" "off \<notin> set (config_offsets config)"
  shows "gpiod_line_config_get_line_settings config off c = (None, set_errno ENOENT c)"
proof -
  have "plc_offset (cfg_line_configs config ! i) \<noteq> off" if "i < cfg_num_configs config" for i
    using assms that config_offsets_nth [OF assms(1) that] nth_mem [of i "config_offsets config"]
    by (auto simp: length_config_offsets)
  then have "find (\<lambda>i. plc_offset (cfg_line_configs config ! i) = off) [0..<cfg_num_configs config] = None"
    by (simp add: find_upt_None)
  then show ?thesis by (simp add: gpiod_line_config_get_line_settings_def)
qed

lemma config_abs_offsets: "config_wf config \<Longrightarrow> map fst (config_abs config) = config_offsets config"
  by (rule nth_equalityI)
    (auto simp: config_abs_def length_config_offsets config_offsets_nth)

lemma config_abs_lookup:
  assumes wf: "config_wf config" and "map_of (config_abs config) off = Some s"
  obtains i where "i < cfg_num_configs config" "config_offsets config ! i = off"
    "line_settings_at config i = s"
proof -
  from assms(2) have "(off, s) \<in> set (config_abs config)" by (rule map_of_SomeD)
  then obtain i where "i < cfg_num_configs config" "plc_offset (cfg_line_configs config ! i) = off"
    "line_settings_at config i = s" by (auto simp: config_abs_def)
  with that [of i] config_offsets_nth [OF wf, of i] show ?thesis by simp
qed

lemma get_line_settings_abs:
  assumes wf: "config_wf config" and none: "cfg_num_output_values config = 0"
  shows "gpiod_line_config_get_line_settings config off c =
    (case map_of (config_abs config) off of
       None \<Rightarrow> (None, set_errno ENOENT c) | Some s \<Rightarrow> malloc_obj s c)"
proof (cases "map_of (config_abs config) off")
  case None
  then have "off \<notin> set (config_offsets config)"
    by (simp add: map_of_eq_None_iff config_abs_offsets [OF wf, symmetric])
  with None show ?thesis by (simp add: get_line_settings_unknown [OF wf])
next
  case (Some s)
  obtain i where "i < cfg_num_configs config" "config_offsets config ! i = off"
    "line_settings_at config i = s" by (rule config_abs_lookup [OF wf Some])
  with Some none show ?thesis
    using get_line_settings_known [OF wf, of i c] by (simp add: settings_with_output_def)
qed

section \<open>Sequences of calls\<close>

datatype config_call =
    AddLineSettings "u32 list option" "gpiod_line_settings option"
  | SetOutputValues "gpiod_line_value list option"
  | ResetConfig

fun run_config_call :: "config_call \<Rightarrow> gpiod_line_config \<times> crt \<Rightarrow> gpiod_line_config \<times> crt" where
  "run_config_call (AddLineSettings offsets settings) (config, c) =
     snd (gpiod_line_config_add_line_settings config offsets settings c)"
| "run_config_call (SetOutputValues values) (config, c) =
     snd (gpiod_line_config_set_output_values config values c)"
| "run_config_call ResetConfig (config, c) = gpiod_line_config_reset config c"

definition call_fits :: "config_call \<Rightarrow> bool" where
  "call_fits call \<longleftrightarrow> (case call of AddLineSettings offsets _ \<Rightarrow> array_fits offsets | _ \<Rightarrow> True)"

lemma run_config_call_keeps:
  assumes "call_fits call" "config_state config c" "run_config_call call (config, c) = (config', c')"
  shows "config_state config' c' \<and> foreign config' c' = foreign config c"
proof (cases call)
  case (AddLineSettings offsets settings)
  then obtain ret where "gpiod_line_config_add_line_settings config offsets settings c = (ret, config', c')"
    using assms(3) by (metis prod.collapse run_config_call.simps(1))
  with AddLineSettings assms show ?thesis by (intro add_op.keeps) (simp_all add: call_fits_def)
next
  case (SetOutputValues vs)
  then obtain ret where "gpiod_line_config_set_output_values config vs c = (ret, config', c')"
    using assms(3) by (metis prod.collapse run_config_call.simps(2))
  with assms show ?thesis by (intro output_op.keeps) simp_all
next
  case ResetConfig
  with assms show ?thesis by (intro reset_op.keeps [of config c 0]) simp_all
qed

lemma run_config_calls_keep:
  "\<forall>call \<in> set calls. call_fits call \<Longrightarrow> config_state config c \<Longrightarrow>
     fold run_config_call calls (config, c) = (config', c') \<Longrightarrow>
     config_state config' c' \<and> foreign config' c' = foreign config c"
proof (induction calls arbitrary: config c)
  case (Cons call calls)
  obtain config1 c1 where run: "run_config_call call (config, c) = (config1, c1)" by fastforce
  have "config_state config1 c1 \<and> foreign config1 c1 = foreign config c"
    by (rule run_config_call_keeps [OF _ Cons.prems(2) run]) (use Cons.prems(1) in simp)
  with Cons.IH [of config1 c1] Cons.prems run show ?case by simp
qed simp

text \<open>A configuration that was reset and given settings for some offsets holds just these, in order.\<close>

lemma fold_update_fresh:
  "distinct offs \<Longrightarrow> set offs \<inter> fst ` set al = {} \<Longrightarrow>
     fold (\<lambda>off. AList.update off s) offs al = al @ map (\<lambda>off. (off, s)) offs"
proof (induction offs arbitrary: al)
  case (Cons off offs)
  have "AList.update off s al = al @ [(off, s)]" using Cons.prems(2)
    by (induction al) auto
  with Cons show ?case by simp
qed simp

lemma reset_then_add:
  assumes add: "gpiod_line_config_add_line_settings zero_config (Some offs) (Some s) c = (0, lc, c')"
    and offs: "distinct offs" "length offs < 2 ^ 62"
  shows "config_wf lc \<and> config_abs lc = map (\<lambda>off. (off, s)) offs"
proof -
  have fits: "\<not> size_add (cfg_num_configs zero_config) (length offs) > LINES_MAX" and ne: "offs \<noteq> []"
    using add by (auto simp: gpiod_line_config_add_line_settings_def split: if_splits)
  from fits have room: "table_room zero_config (length offs)" by (intro table_room_add) (use offs in simp_all)
  obtain r c1 where m: "malloc c = (r, c1)" by fastforce
  from add ne fits obtain b where b: "r = Some b"
    by (cases r) (simp_all add: gpiod_line_config_add_line_settings_def m)
  obtain q c2 where m2: "malloc_obj s c1 = (q, c2)" by fastforce
  from add ne fits obtain sb where q: "q = Some (sb, s)"
    using m2 by (cases q) (auto simp: gpiod_line_config_add_line_settings_def m b gpiod_line_settings_copy_def
        malloc_obj_def split: prod.splits option.splits)
  have lc: "lc = fold (assign_line b) offs (zero_config\<lparr>cfg_sref_list :=
      \<lparr>sn_blk = b, sn_settings = (sb, s)\<rparr> # cfg_sref_list zero_config\<rparr>)"
    using add ne fits by (simp add: gpiod_line_config_add_line_settings_def m b gpiod_line_settings_copy_def m2 q Let_def)
  have "b = nalloc c" "nalloc c1 = Suc (nalloc c)" "sb = nalloc c1"
    using m m2 b q by (auto simp: malloc_def malloc_obj_def Let_def split: if_splits)
  then have "b \<noteq> sb" by simp
  note new = added_config [OF config_inv_zero room _ _ this lc, simplified]
  have "config_abs zero_config = []" by (simp add: config_abs_def zero_config_def)
  with new(1,3) fold_update_fresh [OF offs(1), of "[]" s] show ?thesis by (simp add: config_inv_def)
qed

section \<open>Properties\<close>

text \<open>
  C2: Adding settings refines the update of an association list: on success
  \<open>gpiod_line_config_add_line_settings\<close> binds every given offset to the given settings (the default
  settings for \<open>NULL\<close>), an offset already present keeping its position and a new one going to the
  end; on failure the configuration is unchanged.
\<close>

theorem add_line_settings_refines:
  assumes "config_state config c" "array_fits offsets"
    and "gpiod_line_config_add_line_settings config offsets settings c = (ret, config', c')"
  shows "(ret = 0 \<or> ret = -1) \<and> config_abs config' =
    (if ret = 0 then fold (\<lambda>off. AList.update off (settings_or_default settings)) (the offsets) (config_abs config)
     else config_abs config)"
proof -
  from assms(1) have heap: "heap_ok c" and inv: "config_inv config" and bl: "config_blocks config \<subseteq> live c"
    by (auto simp: config_state_def)
  from assms(3) heap show ?thesis
  proof (cases rule: add_line_settings_cases)
    case (added offs b sb)
    have room: "table_room config (length offs)"
      by (rule table_room_add) (use added(1,3) assms(2) inv in \<open>auto simp: array_fits_def\<close>)
    have "b \<notin> config_blocks config" "sb \<notin> config_blocks config" using added(7,8) bl by blast+
    from added_config(3) [OF inv room this added(9) added(11)] added show ?thesis by simp
  qed simp_all
qed

theorem add_line_settings_refines_witness:
  "config_abs (fst (snd (gpiod_line_config_add_line_settings sample_config (Some [7, 2]) None
      (crt_init\<lparr>nalloc := 4, live := {0, 1, 2, 3}\<rparr>))))
    = [(4, output_settings), (7, default_settings), (9, input_settings), (2, default_settings)]"
proof -
  let ?c = "crt_init\<lparr>nalloc := 4, live := {0, 1, 2, 3}\<rparr>"
  obtain ret config' c' where
    add: "gpiod_line_config_add_line_settings sample_config (Some [7, 2]) None ?c = (ret, config', c')"
    by (rule prod_cases3)
  have "config_blocks sample_config = {0, 1, 2, 3}" by code_simp
  then have st: "config_state sample_config ?c"
    by (auto simp: config_state_def sample_config_inv heap_ok_def crt_init_def)
  have "fst (gpiod_line_config_add_line_settings sample_config (Some [7, 2]) None ?c) = 0" by code_simp
  with add add_line_settings_refines [OF st _ add] show ?thesis
    by (simp add: array_fits_def sample_config_abs settings_or_default_def)
qed

text \<open>
  C26: The error returns of \<open>gpiod_line_config_add_line_settings\<close>: it fails with \<open>EINVAL\<close> when there are
  no offsets, with \<open>E2BIG\<close> when the entries in use and the number of offsets exceed \<open>LINES_MAX\<close>, with
  \<open>ENOMEM\<close> when one of its two allocations fails, and in no other case; a failure leaves the
  configuration and the allocated blocks as they were.
\<close>

theorem add_line_settings_errors:
  assumes "heap_ok c"
    and "gpiod_line_config_add_line_settings config offsets settings c = (ret, config', c')"
  shows "(ret \<noteq> 0 \<longleftrightarrow> offsets = None \<or> offsets = Some []
        \<or> size_add (cfg_num_configs config) (length (the offsets)) > LINES_MAX
        \<or> oom c (nalloc c) \<or> oom c (Suc (nalloc c)))
    \<and> (ret \<noteq> 0 \<longrightarrow> ret = -1 \<and> config' = config \<and> live c' = live c \<and> heap_ok c'
        \<and> crt_errno c' = (if offsets = None \<or> offsets = Some [] then EINVAL
            else if size_add (cfg_num_configs config) (length (the offsets)) > LINES_MAX then E2BIG
            else ENOMEM))"
proof -
  have ok: "\<not> oom c (nalloc c) \<and> \<not> oom c (Suc (nalloc c))"
    if "ret = 0" "offsets = Some offs" "offs \<noteq> []"
      "size_add (cfg_num_configs config) (length offs) \<le> LINES_MAX" for offs
    using assms(2) that
    by (cases rule: malloc_cases [of c])
      (auto simp: gpiod_line_config_add_line_settings_def settings_alloc_eq malloc_obj_def malloc_def
        Let_def split: if_splits)
  from assms(2,1) show ?thesis
  proof (cases rule: add_line_settings_cases)
    case (added offs b sb)
    with ok [of offs] show ?thesis by auto
  qed (use assms(1) in auto)
qed

theorem add_line_settings_errors_witness:
  "gpiod_line_config_add_line_settings zero_config (Some (replicate 65 1)) None crt_init
     = (-1, zero_config, snd (snd (gpiod_line_config_add_line_settings zero_config
          (Some (replicate 65 1)) None crt_init)))
   \<and> crt_errno (snd (snd (gpiod_line_config_add_line_settings zero_config
          (Some (replicate 65 1)) None crt_init))) = E2BIG"
proof -
  obtain ret config' c' where
    add: "gpiod_line_config_add_line_settings zero_config (Some (replicate 65 1)) None crt_init
      = (ret, config', c')"
    by (rule prod_cases3)
  have "replicate 65 (1 :: u32) \<noteq> []" by simp
  with add_line_settings_errors [OF heap_ok_crt_init add] add show ?thesis
    by (simp add: size_add_def zero_config_def)
qed

lemma config_reachable:
  assumes "heap_ok c" "gpiod_line_config_new c = (Some p, c1)" "\<forall>call \<in> set calls. call_fits call"
    and "fold run_config_call calls (snd p, c1) = (config, c2)"
  shows "config_state config c2" "foreign config c2 = insert (fst p) (live c)" "fst p \<notin> live c"
proof -
  from config_heap.new_ok [OF assms(2,1)] malloc_obj_SomeD(1) [OF assms(2) [unfolded gpiod_line_config_new_def]]
  have p: "snd p = zero_config" and h1: "heap_ok c1" "live c1 = insert (fst p) (live c)" "fst p \<notin> live c"
    by auto
  then have "config_state (snd p) c1" by (simp add: config_state_def)
  from run_config_calls_keep [OF assms(3) this assms(4)] h1 p
  show "config_state config c2" "foreign config c2 = insert (fst p) (live c)" "fst p \<notin> live c"
    by (simp_all add: foreign_def)
qed

text \<open>
  C6: The life of a configuration object leaks nothing and frees nothing twice: after creating it,
  any sequence of additions, output value settings and resets with arguments of any kind, and
  allocation failures at any point, \<open>gpiod_line_config_free\<close> gives back exactly the blocks the object
  acquired.
\<close>

theorem config_lifecycle_heap:
  assumes "heap_ok c" "gpiod_line_config_new c = (Some p, c1)" "\<forall>call \<in> set calls. call_fits call"
    and "fold run_config_call calls (snd p, c1) = (config, c2)"
  shows "heap_ok (gpiod_line_config_free (Some (fst p, config)) c2)
    \<and> live (gpiod_line_config_free (Some (fst p, config)) c2) = live c"
proof -
  note st = config_reachable [OF assms]
  then have "fst p \<notin> config_blocks config" "fst p \<in> live c2" by (auto simp: foreign_def)
  with st config_heap.release_ok [of c2 "(fst p, config)"] show ?thesis
    by (auto simp: config_state_def foreign_def)
qed

theorem config_lifecycle_heap_witness:
  "live (gpiod_line_config_free (Some (0, fst (fold run_config_call
      [AddLineSettings (Some [4, 7]) None, SetOutputValues (Some [GPIOD_LINE_VALUE_OTHER 9]), ResetConfig,
       AddLineSettings (Some [1]) (Some default_settings)]
      (zero_config, crt_init\<lparr>nalloc := 1, live := {0}\<rparr>))))
    (snd (fold run_config_call
      [AddLineSettings (Some [4, 7]) None, SetOutputValues (Some [GPIOD_LINE_VALUE_OTHER 9]), ResetConfig,
       AddLineSettings (Some [1]) (Some default_settings)]
      (zero_config, crt_init\<lparr>nalloc := 1, live := {0}\<rparr>)))) = {}"
proof -
  let ?c = "crt_init\<lparr>nalloc := 1, live := {0}\<rparr>"
  let ?calls = "[AddLineSettings (Some [4, 7]) None, SetOutputValues (Some [GPIOD_LINE_VALUE_OTHER 9]),
      ResetConfig, AddLineSettings (Some [1]) (Some default_settings)]"
  have new: "gpiod_line_config_new crt_init = (Some (0, zero_config), ?c)"
    by (simp add: gpiod_line_config_new_def malloc_obj_def malloc_def crt_init_def)
  have fits: "\<forall>call \<in> set ?calls. call_fits call" by (simp add: call_fits_def array_fits_def)
  obtain config c2 where run: "fold run_config_call ?calls (zero_config, ?c) = (config, c2)"
    by (rule prod.exhaust)
  have "live crt_init = {}" by (simp add: crt_init_def)
  with config_lifecycle_heap [OF heap_ok_crt_init new fits] run show ?thesis by simp
qed

text \<open>
  C16: The invariant of a configuration object.  After creation and any sequence of calls with arguments of
  any kind, and allocation failures at any point, the table holds at most 64 lines with different
  offsets, every line refers to a node of the list, the stored output values are valid, and the nodes
  and their settings are in blocks of their own that are in use, none of them in use before the object
  was created; nothing else is in use beside what was in use before.
\<close>

theorem config_invariant:
  assumes "heap_ok c" "gpiod_line_config_new c = (Some p, c1)" "\<forall>call \<in> set calls. call_fits call"
    and "fold run_config_call calls (snd p, c1) = (config, c2)"
  shows "cfg_num_configs config \<le> 64 \<and> distinct (config_offsets config)
    \<and> (\<forall>i < cfg_num_configs config. \<exists>node \<in> set (cfg_sref_list config).
         plc_node (cfg_line_configs config ! i) = Some (sn_blk node))
    \<and> list_all valid_line_value (cfg_output_values config)
    \<and> distinct (fst p # node_blocks (cfg_sref_list config))
    \<and> set (fst p # node_blocks (cfg_sref_list config)) \<inter> live c = {}
    \<and> live c2 = insert (fst p) (set (node_blocks (cfg_sref_list config)) \<union> live c)"
proof -
  note st = config_reachable [OF assms]
  then have inv: "config_wf config" "distinct (node_blocks (cfg_sref_list config))" and blk: "config_blocks config \<subseteq> live c2"
    by (simp_all add: config_state_def config_inv_def)
  have "\<exists>node \<in> set (cfg_sref_list config). plc_node (cfg_line_configs config ! i) = Some (sn_blk node)"
    if "i < cfg_num_configs config" for i
    using inv(1) that by (fastforce simp: config_wf_def split: option.splits)
  moreover have "fst p \<notin> config_blocks config" "live c2 = insert (fst p) (config_blocks config \<union> live c)"
    "config_blocks config \<inter> live c = {}" "fst p \<notin> live c"
    using st blk by (auto simp: foreign_def)
  ultimately show ?thesis using inv by (simp add: config_wf_def list_all_iff config_blocks_def)
qed

theorem config_invariant_witness:
  "cfg_num_configs (fst (fold run_config_call [AddLineSettings (Some [4, 7]) None, AddLineSettings (Some [4]) None]
      (zero_config, crt_init\<lparr>nalloc := 1, live := {0}\<rparr>))) \<le> 64
   \<and> distinct (config_offsets (fst (fold run_config_call [AddLineSettings (Some [4, 7]) None, AddLineSettings (Some [4]) None]
      (zero_config, crt_init\<lparr>nalloc := 1, live := {0}\<rparr>))))"
proof -
  let ?calls = "[AddLineSettings (Some [4, 7]) None, AddLineSettings (Some [4]) None]"
  obtain config c2 where run: "fold run_config_call ?calls (zero_config, crt_init\<lparr>nalloc := 1, live := {0}\<rparr>) = (config, c2)"
    by (rule prod.exhaust)
  have new: "gpiod_line_config_new crt_init = (Some (0, zero_config), crt_init\<lparr>nalloc := 1, live := {0}\<rparr>)"
    by (simp add: gpiod_line_config_new_def malloc_obj_def malloc_def crt_init_def)
  have fits: "\<forall>call \<in> set ?calls. call_fits call" by (simp add: call_fits_def array_fits_def)
  have "fold run_config_call ?calls (snd (0 :: nat, zero_config), crt_init\<lparr>nalloc := 1, live := {0}\<rparr>) = (config, c2)"
    using run by (simp only: snd_conv)
  from config_invariant [OF heap_ok_crt_init new fits this] have "cfg_num_configs config \<le> 64 \<and> distinct (config_offsets config)"
    by simp
  then show ?thesis by (simp only: run fst_conv)
qed

text \<open>
  C21: What was added is read back: after a successful addition, \<open>gpiod_line_config_get_line_settings\<close>
  returns a fresh copy of the new settings for each of the offsets, and for any other offset answers
  as it did before (as long as no global output values are set).
\<close>

theorem add_then_get:
  assumes st: "config_state config c" and fits: "array_fits (Some offs)"
    and none: "cfg_num_output_values config = 0"
    and add: "gpiod_line_config_add_line_settings config (Some offs) settings c = (0, config', c')"
  shows "gpiod_line_config_get_line_settings config' off c2 =
    (if off \<in> set offs then malloc_obj (settings_or_default settings) c2
     else gpiod_line_config_get_line_settings config off c2)"
proof -
  from st have heap: "heap_ok c" and inv: "config_inv config" and bl: "config_blocks config \<subseteq> live c"
    by (auto simp: config_state_def)
  from add heap show ?thesis
  proof (cases rule: add_line_settings_cases)
    case (added offs' b sb)
    then have offs: "offs' = offs" by simp
    have room: "table_room config (length offs')"
      by (rule table_room_add) (use added(1,3) fits inv in \<open>auto simp: array_fits_def\<close>)
    have "b \<notin> config_blocks config" "sb \<notin> config_blocks config" using added(7,8) bl by blast+
    note new = added_config [OF inv room this added(9) added(11)]
    have "config_wf config'" "cfg_num_output_values config' = 0"
      using new(1,5) none by (simp_all add: config_inv_def)
    note get' = get_line_settings_abs [OF this] and get = get_line_settings_abs [OF _ none, of off c2]
    show ?thesis
      using inv unfolding get' new(3) map_of_fold_AList_update offs
      by (simp add: get config_inv_def)
  qed simp_all
qed

theorem add_then_get_witness:
  "gpiod_line_config_get_line_settings
      (fst (snd (gpiod_line_config_add_line_settings zero_config (Some [4, 7]) (Some output_settings) crt_init)))
      7 crt_init
    = malloc_obj output_settings crt_init"
proof -
  let ?add = "gpiod_line_config_add_line_settings zero_config (Some [4, 7]) (Some output_settings) crt_init"
  have "fst ?add = 0" by code_simp
  then have add: "?add = (0, fst (snd ?add), snd (snd ?add))" by (metis prod.collapse)
  have "config_state zero_config crt_init" by (simp add: config_state_def crt_init_def heap_ok_def)
  from add_then_get [OF this _ _ add, of 7 crt_init] show ?thesis
    by (simp add: array_fits_def zero_config_def settings_or_default_def)
qed

text \<open>
  What \<open>gpiod_line_config_get_line_settings\<close> returns in general: a copy of the line's settings in
  which the global output value of that line, if one is set, replaces the output value; \<open>ENOENT\<close> for
  an offset that was never added.
\<close>

theorem get_line_settings_spec:
  assumes "config_wf config"
  shows "gpiod_line_config_get_line_settings config off c =
    (case find (\<lambda>i. config_offsets config ! i = off) [0..<cfg_num_configs config] of
       None \<Rightarrow> (None, set_errno ENOENT c)
     | Some i \<Rightarrow> malloc_obj (settings_with_output config i) c)"
proof (cases "find (\<lambda>i. config_offsets config ! i = off) [0..<cfg_num_configs config]")
  case None
  then have "off \<notin> set (config_offsets config)"
    by (auto simp: find_upt_None in_set_conv_nth length_config_offsets [OF assms])
  with None show ?thesis by (simp add: get_line_settings_unknown [OF assms])
next
  case (Some i)
  then have "i < cfg_num_configs config" "config_offsets config ! i = off" by (auto simp: find_upt_Some)
  with Some get_line_settings_known [OF assms, of i c] show ?thesis by simp
qed

theorem get_line_settings_spec_witness:
  "gpiod_line_config_get_line_settings sample_config 8 crt_init = (None, set_errno ENOENT crt_init)
   \<and> gpiod_line_config_get_line_settings sample_config 9 crt_init = malloc_obj input_settings crt_init"
proof -
  have wf: "config_wf sample_config" using sample_config_inv by (simp add: config_inv_def)
  have "find (\<lambda>i. config_offsets sample_config ! i = 8) [0..<cfg_num_configs sample_config] = None"
    "find (\<lambda>i. config_offsets sample_config ! i = 9) [0..<cfg_num_configs sample_config] = Some 2"
    "settings_with_output sample_config 2 = input_settings"
    by code_simp+
  then show ?thesis
    using get_line_settings_spec [OF wf, of 8 crt_init] get_line_settings_spec [OF wf, of 9 crt_init] by simp
qed

text \<open>
  C25: \<open>gpiod_line_config_set_output_values\<close>: with 1 to \<open>LINES_MAX\<close> valid values it stores them and
  their number and nothing else; a bad count or \<open>NULL\<close> fails with \<open>EINVAL\<close> and changes nothing; a
  value that is neither active nor inactive fails with \<open>EINVAL\<close> and switches the global values off.
\<close>

theorem set_output_values_spec:
  assumes wf: "config_wf config"
    and set: "gpiod_line_config_set_output_values config values c = (ret, config', c')"
  shows "case values of
      None \<Rightarrow> ret = -1 \<and> config' = config \<and> crt_errno c' = EINVAL
    | Some vs \<Rightarrow>
        if vs = [] \<or> length vs > LINES_MAX then ret = -1 \<and> config' = config \<and> crt_errno c' = EINVAL
        else if \<forall>v \<in> set vs. valid_line_value v
        then ret = 0 \<and> c' = c \<and> config' = config\<lparr>
          cfg_output_values := vs @ drop (length vs) (cfg_output_values config),
          cfg_num_output_values := length vs\<rparr>
        else ret = -1 \<and> cfg_num_output_values config' = 0 \<and> crt_errno c' = EINVAL
          \<and> config_abs config' = config_abs config"
proof (cases "values")
  case None
  with set show ?thesis by (auto simp: gpiod_line_config_set_output_values_def)
next
  case (Some vs)
  show ?thesis
  proof (cases "vs = [] \<or> length vs > LINES_MAX")
    case True
    with Some set show ?thesis by (auto simp: gpiod_line_config_set_output_values_def)
  next
    case len: False
    obtain ret1 config1 c1 where loop: "set_output_loop 0 vs config c = (ret1, config1, c1)"
      by (rule prod_cases3)
    show ?thesis
    proof (cases "\<forall>v \<in> set vs. valid_line_value v")
      case True
      have "length vs \<le> length (cfg_output_values config)" using wf len by (simp add: config_wf_def)
      with set_output_loop_all_valid [OF True, of 0 config c] True len Some set show ?thesis
        by (auto simp: gpiod_line_config_set_output_values_def)
    next
      case False
      then have bad: "ret1 = -1" "cfg_num_output_values config1 = 0" "crt_errno c1 = EINVAL"
        using set_output_loop_bad [OF _ loop] by auto
      then have "ret = -1" "config' = config1" "c' = c1"
        using set Some len loop by (auto simp: gpiod_line_config_set_output_values_def)
      moreover have "config_abs config1 = config_abs config"
        using set_output_loop_frame [OF loop] node_settings_cong [of config1 config]
        by (simp add: config_abs_def line_settings_at_def)
      ultimately show ?thesis using bad len False Some by auto
    qed
  qed
qed

theorem set_output_values_spec_witness:
  "fst (gpiod_line_config_set_output_values sample_config
     (Some [GPIOD_LINE_VALUE_ACTIVE, GPIOD_LINE_VALUE_ERROR]) crt_init) = -1"
proof -
  have wf: "config_wf sample_config" using sample_config_inv by (simp add: config_inv_def)
  obtain ret config' c' where
    set: "gpiod_line_config_set_output_values sample_config
      (Some [GPIOD_LINE_VALUE_ACTIVE, GPIOD_LINE_VALUE_ERROR]) crt_init = (ret, config', c')"
    by (rule prod_cases3)
  from set_output_values_spec [OF wf set] set show ?thesis by (simp add: valid_line_value_def)
qed

text \<open>
  \<open>gpiod_line_config_get_configured_offsets\<close> fills the caller's array with the first
  \<open>max_offsets\<close> configured offsets in the order of the lines, returns how many it wrote, and writes
  nothing else.
\<close>

theorem get_configured_offsets_spec:
  assumes "config_wf config" "max_offsets \<le> length buf"
  shows "gpiod_line_config_get_configured_offsets config (Some buf) max_offsets =
    (min (cfg_num_configs config) max_offsets,
     Some (take max_offsets (config_offsets config)
       @ drop (min (cfg_num_configs config) max_offsets) buf))"
proof -
  let ?n = "min (cfg_num_configs config) max_offsets"
  have "map (\<lambda>i. plc_offset (cfg_line_configs config ! i)) [0..<?n] = take max_offsets (config_offsets config)"
    by (rule nth_equalityI)
      (use assms(1) in \<open>auto simp: config_offsets_nth length_config_offsets\<close>)
  then show ?thesis
    using fold_update_prefix [of ?n buf "\<lambda>i. plc_offset (cfg_line_configs config ! i)"] assms
    by (auto simp: gpiod_line_config_get_configured_offsets_def Let_def)
qed

theorem get_configured_offsets_spec_witness:
  "gpiod_line_config_get_configured_offsets sample_config (Some [0, 0, 0, 0, 0]) 5 = (3, Some [4, 7, 9, 0, 0])"
proof -
  have wf: "config_wf sample_config" using sample_config_inv by (simp add: config_inv_def)
  have "config_offsets sample_config = [4, 7, 9]" by code_simp
  with get_configured_offsets_spec [OF wf, of 5 "[0, 0, 0, 0, 0]"] show ?thesis
    by (simp add: sample_config_num)
qed

end
