(* ===== verification/Line_Config_Uapi.thy ===== *)
theory Line_Config_Uapi
  imports Line_Config
begin

text \<open>
  \<open>lib/line-config.c\<close>, the second half: the encoder that turns a configuration object into the
  \<open>struct gpio_v2_line_request\<close> the kernel takes.  Lines with equal properties share one attribute,
  and the ABI has room for \<open>GPIO_V2_LINE_NUM_ATTRS_MAX\<close> of them.

  The main results: the encoder succeeds exactly when the attributes it needs fit, and then the
  documented reading of the request (theory \<open>Gpiod_Uapi\<close>) gives every line its own settings back.
\<close>

section \<open>Offsets\<close>

definition set_offsets :: "gpiod_line_config \<Rightarrow> gpio_v2_line_request \<Rightarrow> gpio_v2_line_request" where
  "set_offsets config uapi_cfg =
     (let uapi_cfg = uapi_cfg\<lparr>lr_num_lines := of_nat (cfg_num_configs config)\<rparr>
      in fold (\<lambda>i u. u\<lparr>lr_offsets := (lr_offsets u)[i := plc_offset (cfg_line_configs config ! i)]\<rparr>)
           [0..<cfg_num_configs config] uapi_cfg)"

section \<open>Attributes\<close>

text \<open>
  Storing one attribute: \<open>attr->attr.id\<close>, one member of the union, and \<open>attr->mask\<close> of the entry
  \<open>attrs[idx]\<close>.
\<close>

definition put_attr ::
    "nat \<Rightarrow> u32 \<Rightarrow> line_attr_union \<Rightarrow> u64 \<Rightarrow> gpio_v2_line_config \<Rightarrow> gpio_v2_line_config" where
  "put_attr idx ident data m lc =
     (let attr = lc_attrs lc ! idx
      in lc\<lparr>lc_attrs := (lc_attrs lc)[idx :=
           attr\<lparr>lca_attr := (lca_attr attr)\<lparr>la_id := ident, la_data := data\<rparr>, lca_mask := m\<rparr>]\<rparr>)"

section \<open>Output values\<close>

definition has_at_least_one_output_direction :: "gpiod_line_config \<Rightarrow> bool" where
  "has_at_least_one_output_direction config \<longleftrightarrow>
     list_ex (\<lambda>i. gpiod_line_settings_get_direction (line_settings_at config i)
        = GPIOD_LINE_DIRECTION_OUTPUT) [0..<cfg_num_configs config]"

definition set_output_value :: "u64 \<Rightarrow> nat \<Rightarrow> gpiod_line_value \<Rightarrow> u64" where
  "set_output_value vals nr val =
     gpiod_line_mask_assign_bit vals nr (val = GPIOD_LINE_VALUE_ACTIVE)"

text \<open>The result is the pair of \<open>*mask\<close> and \<open>*vals\<close>.\<close>

definition set_kernel_output_values :: "gpiod_line_config \<Rightarrow> u64 \<times> u64" where
  "set_kernel_output_values config =
     (let start = (gpiod_line_mask_zero, gpiod_line_mask_zero);
          per_line = fold (\<lambda>i (m, vals).
              let settings = line_settings_at config i
              in if gpiod_line_settings_get_direction settings \<noteq> GPIOD_LINE_DIRECTION_OUTPUT
                 then (m, vals)
                 else (gpiod_line_mask_set_bit m i,
                       set_output_value vals i (gpiod_line_settings_get_output_value settings)))
            [0..<cfg_num_configs config] start
      in fold (\<lambda>i (m, vals).
             (gpiod_line_mask_set_bit m i, set_output_value vals i (cfg_output_values config ! i)))
           [0..<cfg_num_output_values config] per_line)"

definition set_output_values ::
    "gpiod_line_config \<Rightarrow> gpio_v2_line_config \<Rightarrow> nat \<Rightarrow> gpio_v2_line_config \<times> nat" where
  "set_output_values config lc attr_idx =
     (if \<not> has_at_least_one_output_direction config then (lc, attr_idx)
      else (case set_kernel_output_values config of
              (m, vals) \<Rightarrow>
                (put_attr attr_idx GPIO_V2_LINE_ATTR_ID_OUTPUT_VALUES (AttrValues vals) m lc,
                 attr_idx + 1)))"

section \<open>Debounce periods\<close>

definition debounce_at :: "gpiod_line_config \<Rightarrow> nat \<Rightarrow> u64" where
  "debounce_at config i = gpiod_line_settings_get_debounce_period_us (line_settings_at config i)"

text \<open>The inner loop over \<open>j\<close>: two masks are extended by the indices that satisfy the test.\<close>

definition mark_equal :: "(nat \<Rightarrow> bool) \<Rightarrow> nat list \<Rightarrow> u64 \<times> u64 \<Rightarrow> u64 \<times> u64" where
  "mark_equal same js md =
     fold (\<lambda>j (m, dn). if same j then (gpiod_line_mask_set_bit m j, gpiod_line_mask_set_bit dn j)
                       else (m, dn)) js md"

text \<open>
  The outer loop, over the indices not visited yet; \<open>dn\<close> is the mask \<open>done\<close>.  The result is the
  return value, the configuration, the next attribute index, and the run-time state.
\<close>

fun debounce_loop :: "gpiod_line_config \<Rightarrow> nat list \<Rightarrow> u64 \<Rightarrow> gpio_v2_line_config \<Rightarrow> nat \<Rightarrow> crt
    \<Rightarrow> int \<times> gpio_v2_line_config \<times> nat \<times> crt" where
  "debounce_loop config [] dn lc attr_idx c = (0, lc, attr_idx, c)"
| "debounce_loop config (i # is) dn lc attr_idx c =
     (if gpiod_line_mask_test_bit dn i then debounce_loop config is dn lc attr_idx c
      else
        let dn = gpiod_line_mask_set_bit dn i;
            m = gpiod_line_mask_zero;
            period_i = debounce_at config i
        in if period_i = 0 then debounce_loop config is dn lc attr_idx c
           else if attr_idx = GPIO_V2_LINE_NUM_ATTRS_MAX then (-1, lc, attr_idx, set_errno E2BIG c)
           else
             (case mark_equal (\<lambda>j. period_i = debounce_at config j) [i..<cfg_num_configs config]
                     (gpiod_line_mask_set_bit m i, dn) of
                (m, dn) \<Rightarrow>
                  debounce_loop config is dn
                    (put_attr attr_idx GPIO_V2_LINE_ATTR_ID_DEBOUNCE
                       (AttrDebounce (ucast period_i)) m lc)
                    (attr_idx + 1) c))"

definition set_debounce_periods :: "gpiod_line_config \<Rightarrow> gpio_v2_line_config \<Rightarrow> nat \<Rightarrow> crt
    \<Rightarrow> int \<times> gpio_v2_line_config \<times> nat \<times> crt" where
  "set_debounce_periods config lc attr_idx c =
     debounce_loop config [0..<cfg_num_configs config] gpiod_line_mask_zero lc attr_idx c"

section \<open>Flags\<close>

definition make_kernel_flags :: "gpiod_line_settings \<Rightarrow> u64" where
  "make_kernel_flags settings =
     (let flags = 0;
          flags = (case gpiod_line_settings_get_direction settings of
              GPIOD_LINE_DIRECTION_INPUT \<Rightarrow> flags OR line_flag GPIO_V2_LINE_FLAG_INPUT
            | GPIOD_LINE_DIRECTION_OUTPUT \<Rightarrow> flags OR line_flag GPIO_V2_LINE_FLAG_OUTPUT
            | _ \<Rightarrow> flags);
          flags = (case gpiod_line_settings_get_edge_detection settings of
              GPIOD_LINE_EDGE_FALLING \<Rightarrow> flags OR (line_flag GPIO_V2_LINE_FLAG_EDGE_FALLING
                OR line_flag GPIO_V2_LINE_FLAG_INPUT)
            | GPIOD_LINE_EDGE_RISING \<Rightarrow> flags OR (line_flag GPIO_V2_LINE_FLAG_EDGE_RISING
                OR line_flag GPIO_V2_LINE_FLAG_INPUT)
            | GPIOD_LINE_EDGE_BOTH \<Rightarrow> flags OR (line_flag GPIO_V2_LINE_FLAG_EDGE_FALLING
                OR line_flag GPIO_V2_LINE_FLAG_EDGE_RISING OR line_flag GPIO_V2_LINE_FLAG_INPUT)
            | _ \<Rightarrow> flags);
          flags = (case gpiod_line_settings_get_drive settings of
              GPIOD_LINE_DRIVE_OPEN_DRAIN \<Rightarrow> flags OR line_flag GPIO_V2_LINE_FLAG_OPEN_DRAIN
            | GPIOD_LINE_DRIVE_OPEN_SOURCE \<Rightarrow> flags OR line_flag GPIO_V2_LINE_FLAG_OPEN_SOURCE
            | _ \<Rightarrow> flags);
          flags = (case gpiod_line_settings_get_bias settings of
              GPIOD_LINE_BIAS_DISABLED \<Rightarrow> flags OR line_flag GPIO_V2_LINE_FLAG_BIAS_DISABLED
            | GPIOD_LINE_BIAS_PULL_UP \<Rightarrow> flags OR line_flag GPIO_V2_LINE_FLAG_BIAS_PULL_UP
            | GPIOD_LINE_BIAS_PULL_DOWN \<Rightarrow> flags OR line_flag GPIO_V2_LINE_FLAG_BIAS_PULL_DOWN
            | _ \<Rightarrow> flags);
          flags = (if gpiod_line_settings_get_active_low settings
                   then flags OR line_flag GPIO_V2_LINE_FLAG_ACTIVE_LOW else flags);
          flags = (case gpiod_line_settings_get_event_clock settings of
              GPIOD_LINE_CLOCK_REALTIME \<Rightarrow> flags OR line_flag GPIO_V2_LINE_FLAG_EVENT_CLOCK_REALTIME
            | GPIOD_LINE_CLOCK_HTE \<Rightarrow> flags OR line_flag GPIO_V2_LINE_FLAG_EVENT_CLOCK_HTE
            | _ \<Rightarrow> flags)
      in flags)"

definition settings_equal :: "gpiod_line_settings \<Rightarrow> gpiod_line_settings \<Rightarrow> bool" where
  "settings_equal left right =
     (if gpiod_line_settings_get_direction left \<noteq> gpiod_line_settings_get_direction right then False
      else if gpiod_line_settings_get_edge_detection left
                \<noteq> gpiod_line_settings_get_edge_detection right then False
      else if gpiod_line_settings_get_bias left \<noteq> gpiod_line_settings_get_bias right then False
      else if gpiod_line_settings_get_drive left \<noteq> gpiod_line_settings_get_drive right then False
      else if gpiod_line_settings_get_active_low left
                \<noteq> gpiod_line_settings_get_active_low right then False
      else if gpiod_line_settings_get_event_clock left
                \<noteq> gpiod_line_settings_get_event_clock right then False
      else True)"

fun flags_loop :: "gpiod_line_config \<Rightarrow> nat list \<Rightarrow> bool \<Rightarrow> u64 \<Rightarrow> gpio_v2_line_config \<Rightarrow> nat \<Rightarrow> crt
    \<Rightarrow> int \<times> gpio_v2_line_config \<times> nat \<times> crt" where
  "flags_loop config [] globals_taken dn lc attr_idx c = (0, lc, attr_idx, c)"
| "flags_loop config (i # is) globals_taken dn lc attr_idx c =
     (if gpiod_line_mask_test_bit dn i then flags_loop config is globals_taken dn lc attr_idx c
      else
        let dn = gpiod_line_mask_set_bit dn i;
            settings_i = line_settings_at config i;
            same = (\<lambda>j. settings_equal settings_i (line_settings_at config j))
        in if \<not> globals_taken
           then let lc = lc\<lparr>lc_flags := make_kernel_flags settings_i\<rparr>;
                    dn = fold (\<lambda>j dn. if same j then gpiod_line_mask_set_bit dn j else dn)
                           [i..<cfg_num_configs config] dn
                in flags_loop config is True dn lc attr_idx c
           else
             let m = gpiod_line_mask_set_bit gpiod_line_mask_zero i
             in if attr_idx = GPIO_V2_LINE_NUM_ATTRS_MAX
                then (-1, lc, attr_idx, set_errno E2BIG c)
                else
                  (case mark_equal same [i..<cfg_num_configs config] (m, dn) of
                     (m, dn) \<Rightarrow>
                       flags_loop config is True dn
                         (put_attr attr_idx GPIO_V2_LINE_ATTR_ID_FLAGS
                            (AttrFlags (make_kernel_flags settings_i)) m lc)
                         (attr_idx + 1) c))"

definition set_flags :: "gpiod_line_config \<Rightarrow> gpio_v2_line_config \<Rightarrow> nat \<Rightarrow> crt
    \<Rightarrow> int \<times> gpio_v2_line_config \<times> nat \<times> crt" where
  "set_flags config lc attr_idx c =
     flags_loop config [0..<cfg_num_configs config] False gpiod_line_mask_zero lc attr_idx c"

section \<open>The encoder\<close>

definition gpiod_line_config_to_uapi ::
    "gpiod_line_config \<Rightarrow> gpio_v2_line_request \<Rightarrow> crt \<Rightarrow> int \<times> gpio_v2_line_request \<times> crt" where
  "gpiod_line_config_to_uapi config uapi_cfg c =
     (let uapi_cfg = set_offsets config uapi_cfg in
      case set_output_values config (lr_config uapi_cfg) 0 of
        (lc, attr_idx) \<Rightarrow>
          (case set_debounce_periods config lc attr_idx c of
             (ret, lc, attr_idx, c) \<Rightarrow>
               if ret \<noteq> 0 then (-1, uapi_cfg\<lparr>lr_config := lc\<rparr>, c)
               else
                 (case set_flags config lc attr_idx c of
                    (ret, lc, attr_idx, c) \<Rightarrow>
                      if ret \<noteq> 0 then (-1, uapi_cfg\<lparr>lr_config := lc\<rparr>, c)
                      else (0, uapi_cfg\<lparr>lr_config := lc\<lparr>lc_num_attrs := of_nat attr_idx\<rparr>\<rparr>, c))))"

section \<open>Grouping lines by a key\<close>

text \<open>
  Both loops group the line indices by a key (the debounce period, the flag-relevant settings) and
  emit one attribute per group, at the first index of the group.  \<open>done_ok\<close> is their loop invariant
  on the mask \<open>done\<close>: the visited indices and the groups already emitted.
\<close>

definition first_in_group :: "(nat \<Rightarrow> 'k) \<Rightarrow> nat \<Rightarrow> bool" where
  "first_in_group key i \<longleftrightarrow> (\<forall>j < i. key j \<noteq> key i)"

definition done_ok :: "(nat \<Rightarrow> 'k) \<Rightarrow> ('k \<Rightarrow> bool) \<Rightarrow> nat \<Rightarrow> nat \<Rightarrow> u64 \<Rightarrow> bool" where
  "done_ok key sel n i dn \<longleftrightarrow>
     (\<forall>j < n. bit dn j \<longleftrightarrow> j < i \<or> (\<exists>i' < i. sel (key i') \<and> key i' = key j))"

definition group_mask :: "(nat \<Rightarrow> bool) \<Rightarrow> nat \<Rightarrow> nat \<Rightarrow> u64" where
  "group_mask same n i =
     fold (\<lambda>j m. if same j then gpiod_line_mask_set_bit m j else m) [i..<n]
       (gpiod_line_mask_set_bit gpiod_line_mask_zero i)"

lemma first_in_group_exists: "\<exists>r \<le> i. key r = key i \<and> first_in_group key r"
proof -
  let ?r = "LEAST r. key r = key i"
  have "key ?r = key i" by (rule LeastI [of _ i]) simp
  moreover have "?r \<le> i" by (rule Least_le) simp
  moreover have "first_in_group key ?r"
    unfolding first_in_group_def using calculation(1) not_less_Least by fastforce
  ultimately show ?thesis by blast
qed

lemma mark_equal_eq:
  "mark_equal same js (m, dn) =
     (fold (\<lambda>j m. if same j then gpiod_line_mask_set_bit m j else m) js m,
      fold (\<lambda>j m. if same j then gpiod_line_mask_set_bit m j else m) js dn)"
  unfolding mark_equal_def by (induction js arbitrary: m dn) auto

lemma bit_fold_set:
  "n \<le> 64 \<Longrightarrow> bit (fold (\<lambda>j m. if same j then gpiod_line_mask_set_bit m j else m) [i..<n] m) j
     \<longleftrightarrow> bit m j \<or> (i \<le> j \<and> j < n \<and> same j)"
  using mask.test_fold_set [of "[i..<n]" same m j] by (auto simp: mask_test_bit_eq)

lemma bit_group_mask:
  "n \<le> 64 \<Longrightarrow> i < n \<Longrightarrow> bit (group_mask same n i) j \<longleftrightarrow> j = i \<or> (i \<le> j \<and> j < n \<and> same j)"
  by (auto simp: group_mask_def bit_fold_set bit_mask_set)

lemma done_ok_0 [simp]: "done_ok key sel n 0 gpiod_line_mask_zero"
  by (simp add: done_ok_def)

lemma done_ok_test:
  "done_ok key sel n i dn \<Longrightarrow> i < n \<Longrightarrow>
     gpiod_line_mask_test_bit dn i \<longleftrightarrow> sel (key i) \<and> \<not> first_in_group key i"
  by (auto simp: done_ok_def mask_test_bit_eq first_in_group_def)

lemma done_ok_skip:
  assumes "done_ok key sel n i dn" "i < n" "gpiod_line_mask_test_bit dn i"
  shows "done_ok key sel n (Suc i) dn"
proof -
  from assms obtain i' where "i' < i" "sel (key i')" "key i' = key i"
    by (auto simp: done_ok_def mask_test_bit_eq)
  with assms show ?thesis
    by (auto simp: done_ok_def mask_test_bit_eq less_Suc_eq)
qed

lemma done_ok_unselected:
  assumes "done_ok key sel n i dn" "i < n" "n \<le> 64" "\<not> sel (key i)"
  shows "done_ok key sel n (Suc i) (gpiod_line_mask_set_bit dn i)"
  using assms by (auto simp: done_ok_def bit_mask_set less_Suc_eq)

lemma done_ok_selected:
  assumes "done_ok key sel n i dn" "i < n" "n \<le> 64" "sel (key i)"
    and "\<And>j. same j \<longleftrightarrow> key i = key j"
  shows "done_ok key sel n (Suc i)
    (fold (\<lambda>j m. if same j then gpiod_line_mask_set_bit m j else m) [i..<n]
      (gpiod_line_mask_set_bit dn i))"
  unfolding done_ok_def
proof (intro allI impI)
  fix j assume "j < n"
  then show "bit (fold (\<lambda>j m. if same j then gpiod_line_mask_set_bit m j else m) [i..<n]
      (gpiod_line_mask_set_bit dn i)) j
    \<longleftrightarrow> j < Suc i \<or> (\<exists>i' < Suc i. sel (key i') \<and> key i' = key j)"
    using assms by (cases "i \<le> j") (auto simp: done_ok_def bit_mask_set bit_fold_set less_Suc_eq)
qed

section \<open>Sequences of attributes\<close>

text \<open>An attribute as the ABI reads it, and storing a list of them from an index on.\<close>

type_synonym attr_view = "u32 \<times> line_attr_union \<times> u64"

definition attr_view :: "gpio_v2_line_config_attribute \<Rightarrow> attr_view" where
  "attr_view a = (la_id (lca_attr a), la_data (lca_attr a), lca_mask a)"

fun put_attrs :: "nat \<Rightarrow> attr_view list \<Rightarrow> gpio_v2_line_config \<Rightarrow> gpio_v2_line_config" where
  "put_attrs idx [] lc = lc"
| "put_attrs idx ((ident, data, m) # es) lc = put_attrs (Suc idx) es (put_attr idx ident data m lc)"

lemma put_attr_simps [simp]:
  "lc_flags (put_attr idx ident data m lc) = lc_flags lc"
  "length (lc_attrs (put_attr idx ident data m lc)) = length (lc_attrs lc)"
  "put_attr idx ident data m (lc\<lparr>lc_flags := f\<rparr>) = (put_attr idx ident data m lc)\<lparr>lc_flags := f\<rparr>"
  by (simp_all add: put_attr_def Let_def)

lemma put_attrs_simps [simp]:
  "lc_flags (put_attrs idx es lc) = lc_flags lc"
  "length (lc_attrs (put_attrs idx es lc)) = length (lc_attrs lc)"
  by (induction idx es lc rule: put_attrs.induct) simp_all

lemma put_attrs_view:
  assumes "idx + length es \<le> length (lc_attrs lc)"
  shows "map attr_view (take (idx + length es) (lc_attrs (put_attrs idx es lc)))
    = map attr_view (take idx (lc_attrs lc)) @ es"
  using assms
proof (induction idx es lc rule: put_attrs.induct)
  case (2 idx ident data m es lc)
  have "map attr_view (take (Suc idx) (lc_attrs (put_attr idx ident data m lc)))
      = map attr_view (take idx (lc_attrs lc)) @ [(ident, data, m)]"
    using "2.prems" by (simp add: put_attr_def Let_def take_Suc_conv_app_nth attr_view_def)
  with 2 show ?case by simp
qed simp

section \<open>What the loops store\<close>

definition debounce_entry :: "gpiod_line_config \<Rightarrow> nat \<Rightarrow> attr_view" where
  "debounce_entry config i =
     (GPIO_V2_LINE_ATTR_ID_DEBOUNCE, AttrDebounce (ucast (debounce_at config i)),
      group_mask (\<lambda>j. debounce_at config i = debounce_at config j) (cfg_num_configs config) i)"

definition debounce_reps :: "gpiod_line_config \<Rightarrow> nat \<Rightarrow> nat list" where
  "debounce_reps config i =
     filter (\<lambda>i. debounce_at config i \<noteq> 0 \<and> first_in_group (debounce_at config) i)
       [i..<cfg_num_configs config]"

text \<open>The settings \<open>settings_equal\<close> compares; they are the ones the kernel flags depend on.\<close>

definition flag_key :: "gpiod_line_config \<Rightarrow> nat \<Rightarrow> gpiod_line_direction \<times> gpiod_line_edge
    \<times> gpiod_line_bias \<times> gpiod_line_drive \<times> bool \<times> gpiod_line_clock" where
  "flag_key config i = (let s = line_settings_at config i in
     (ls_direction s, ls_edge_detection s, ls_bias s, ls_drive s, ls_active_low s, ls_event_clock s))"

definition flags_at :: "gpiod_line_config \<Rightarrow> nat \<Rightarrow> u64" where
  "flags_at config i = make_kernel_flags (line_settings_at config i)"

definition flags_entry :: "gpiod_line_config \<Rightarrow> nat \<Rightarrow> attr_view" where
  "flags_entry config i =
     (GPIO_V2_LINE_ATTR_ID_FLAGS, AttrFlags (flags_at config i),
      group_mask (\<lambda>j. flag_key config i = flag_key config j) (cfg_num_configs config) i)"

definition flags_reps :: "gpiod_line_config \<Rightarrow> nat \<Rightarrow> nat list" where
  "flags_reps config i = filter (first_in_group (flag_key config)) [i..<cfg_num_configs config]"

lemma settings_equal_key:
  "settings_equal (line_settings_at config i) (line_settings_at config j)
     \<longleftrightarrow> flag_key config i = flag_key config j"
  by (auto simp: settings_equal_def flag_key_def settings_getters Let_def)

lemma flags_at_key: "flag_key config i = flag_key config j \<Longrightarrow> flags_at config i = flags_at config j"
  by (simp add: flag_key_def flags_at_def make_kernel_flags_def settings_getters Let_def)

lemma debounce_reps_step:
  "i < cfg_num_configs config \<Longrightarrow> debounce_reps config i =
     (if debounce_at config i \<noteq> 0 \<and> first_in_group (debounce_at config) i then [i] else [])
       @ debounce_reps config (Suc i)"
  by (simp add: debounce_reps_def upt_conv_Cons)

lemma flags_reps_step:
  "i < cfg_num_configs config \<Longrightarrow> flags_reps config i =
     (if first_in_group (flag_key config) i then [i] else []) @ flags_reps config (Suc i)"
  by (simp add: flags_reps_def upt_conv_Cons)

lemma debounce_loop_run:
  assumes "cfg_num_configs config \<le> 64" "i \<le> cfg_num_configs config"
    and "done_ok (debounce_at config) (\<lambda>p. p \<noteq> 0) (cfg_num_configs config) i dn" "idx \<le> 10"
  shows "if idx + length (debounce_reps config i) \<le> 10
    then debounce_loop config [i..<cfg_num_configs config] dn lc idx c =
      (0, put_attrs idx (map (debounce_entry config) (debounce_reps config i)) lc,
       idx + length (debounce_reps config i), c)
    else \<exists>lc'. debounce_loop config [i..<cfg_num_configs config] dn lc idx c
      = (-1, lc', 10, set_errno E2BIG c)"
  using assms
proof (induction "cfg_num_configs config - i" arbitrary: i dn lc idx)
  case 0
  then show ?case by (simp add: debounce_reps_def)
next
  case (Suc k)
  let ?n = "cfg_num_configs config"
  have i: "i < ?n" and k: "k = ?n - Suc i" using Suc.hyps(2) by auto
  note IH = Suc.hyps(1) [OF k Suc.prems(1)]
  note test = done_ok_test [OF Suc.prems(3) i]
  show ?case
  proof (cases "gpiod_line_mask_test_bit dn i")
    case True
    with test have "debounce_reps config i = debounce_reps config (Suc i)"
      using i by (simp add: debounce_reps_step)
    with True i IH [OF _ done_ok_skip [OF Suc.prems(3) i True] Suc.prems(4), of lc]
    show ?thesis by (simp add: upt_conv_Cons)
  next
    case False
    show ?thesis
    proof (cases "debounce_at config i = 0")
      case zero: True
      have "done_ok (debounce_at config) (\<lambda>p. p \<noteq> 0) ?n (Suc i) (gpiod_line_mask_set_bit dn i)"
        using Suc.prems i zero by (intro done_ok_unselected) simp_all
      from IH [OF _ this Suc.prems(4), of lc] False zero i show ?thesis
        by (simp add: upt_conv_Cons debounce_reps_step Let_def)
    next
      case nonzero: False
      with test False have reps: "debounce_reps config i = i # debounce_reps config (Suc i)"
        using i by (simp add: debounce_reps_step)
      let ?dn = "fold (\<lambda>j m. if debounce_at config i = debounce_at config j
          then gpiod_line_mask_set_bit m j else m) [i..<?n] (gpiod_line_mask_set_bit dn i)"
      have "done_ok (debounce_at config) (\<lambda>p. p \<noteq> 0) ?n (Suc i) ?dn"
        using Suc.prems i nonzero by (intro done_ok_selected) simp_all
      from IH [OF _ this, of "Suc idx"] False nonzero i Suc.prems(4) reps show ?thesis
        by (auto simp: upt_conv_Cons [of i ?n] Let_def mark_equal_eq uapi_limits debounce_entry_def
            group_mask_def)
    qed
  qed
qed

lemma flags_loop_run:
  assumes "cfg_num_configs config \<le> 64" "i \<le> cfg_num_configs config"
    and "done_ok (flag_key config) (\<lambda>_. True) (cfg_num_configs config) i dn" "idx \<le> 10"
  shows "if idx + length (flags_reps config i) \<le> 10
    then flags_loop config [i..<cfg_num_configs config] True dn lc idx c =
      (0, put_attrs idx (map (flags_entry config) (flags_reps config i)) lc,
       idx + length (flags_reps config i), c)
    else \<exists>lc'. flags_loop config [i..<cfg_num_configs config] True dn lc idx c
      = (-1, lc', 10, set_errno E2BIG c)"
  using assms
proof (induction "cfg_num_configs config - i" arbitrary: i dn lc idx)
  case 0
  then show ?case by (simp add: flags_reps_def)
next
  case (Suc k)
  let ?n = "cfg_num_configs config"
  have i: "i < ?n" and k: "k = ?n - Suc i" using Suc.hyps(2) by auto
  note IH = Suc.hyps(1) [OF k Suc.prems(1)]
  note test = done_ok_test [OF Suc.prems(3) i]
  show ?case
  proof (cases "gpiod_line_mask_test_bit dn i")
    case True
    with test have "flags_reps config i = flags_reps config (Suc i)"
      using i by (simp add: flags_reps_step)
    with True i IH [OF _ done_ok_skip [OF Suc.prems(3) i True] Suc.prems(4), of lc]
    show ?thesis by (simp add: upt_conv_Cons)
  next
    case False
    with test have reps: "flags_reps config i = i # flags_reps config (Suc i)"
      using i by (simp add: flags_reps_step)
    let ?dn = "fold (\<lambda>j m. if flag_key config i = flag_key config j
        then gpiod_line_mask_set_bit m j else m) [i..<?n] (gpiod_line_mask_set_bit dn i)"
    have "done_ok (flag_key config) (\<lambda>_. True) ?n (Suc i) ?dn"
      using Suc.prems i by (intro done_ok_selected) simp_all
    from IH [OF _ this, of "Suc idx"] False i Suc.prems(4) reps show ?thesis
      by (auto simp: upt_conv_Cons [of i ?n] Let_def mark_equal_eq uapi_limits flags_entry_def
          group_mask_def settings_equal_key flags_at_def)
  qed
qed

lemma set_flags_run:
  assumes "cfg_num_configs config \<le> 64" "0 < cfg_num_configs config" "idx \<le> 10"
  shows "if idx + length (flags_reps config 1) \<le> 10
    then set_flags config lc idx c =
      (0, put_attrs idx (map (flags_entry config) (flags_reps config 1))
            (lc\<lparr>lc_flags := flags_at config 0\<rparr>),
       idx + length (flags_reps config 1), c)
    else \<exists>lc'. set_flags config lc idx c = (-1, lc', 10, set_errno E2BIG c)"
proof -
  let ?n = "cfg_num_configs config"
  let ?dn = "fold (\<lambda>j m. if flag_key config 0 = flag_key config j
      then gpiod_line_mask_set_bit m j else m) [0..<?n] (gpiod_line_mask_set_bit gpiod_line_mask_zero 0)"
  have "done_ok (flag_key config) (\<lambda>_. True) ?n (Suc 0) ?dn"
    using assms by (intro done_ok_selected) simp_all
  moreover have "set_flags config lc idx c = flags_loop config [Suc 0..<?n] True ?dn
      (lc\<lparr>lc_flags := flags_at config 0\<rparr>) idx c"
    using assms(2) by (simp add: set_flags_def upt_conv_Cons [of 0 ?n] Let_def mask.test_zero
        settings_equal_key flags_at_def)
  ultimately show ?thesis
    using flags_loop_run [of config "Suc 0"] assms by simp
qed

section \<open>Output values\<close>

definition output_at :: "gpiod_line_config \<Rightarrow> nat \<Rightarrow> bool option" where
  "output_at config i =
     (if i < cfg_num_output_values config
      then Some (cfg_output_values config ! i = GPIOD_LINE_VALUE_ACTIVE)
      else if i < cfg_num_configs config
           \<and> ls_direction (line_settings_at config i) = GPIOD_LINE_DIRECTION_OUTPUT
      then Some (ls_output_value (line_settings_at config i) = GPIOD_LINE_VALUE_ACTIVE)
      else None)"

definition mask_vals_view :: "u64 \<times> u64 \<Rightarrow> nat \<Rightarrow> bool option" where
  "mask_vals_view mv i = (if bit (fst mv) i then Some (bit (snd mv) i) else None)"

lemma fold_mask_vals:
  assumes "n \<le> 64"
  shows "mask_vals_view (fold (\<lambda>i (m, vals). if P i
        then (gpiod_line_mask_set_bit m i, set_output_value vals i (f i)) else (m, vals)) [0..<n] mv) j
    = (if j < n \<and> P j then Some (f j = GPIOD_LINE_VALUE_ACTIVE) else mask_vals_view mv j)"
  using assms
proof (induction n)
  case (Suc n)
  then show ?case
    by (auto simp: mask_vals_view_def set_output_value_def bit_mask_set bit_mask_assign less_Suc_eq
        split: prod.splits if_splits)
qed simp

lemma set_kernel_output_values_view:
  assumes "cfg_num_configs config \<le> 64" "cfg_num_output_values config \<le> 64"
  shows "mask_vals_view (set_kernel_output_values config) i = output_at config i"
proof -
  have if_swap: "(\<lambda>i (m, vals). let s = line_settings_at config i in
       if gpiod_line_settings_get_direction s \<noteq> GPIOD_LINE_DIRECTION_OUTPUT then (m, vals)
       else (gpiod_line_mask_set_bit m i, set_output_value vals i (gpiod_line_settings_get_output_value s)))
     = (\<lambda>i (m, vals). if ls_direction (line_settings_at config i) = GPIOD_LINE_DIRECTION_OUTPUT
         then (gpiod_line_mask_set_bit m i, set_output_value vals i (ls_output_value (line_settings_at config i)))
         else (m, vals))"
    by (auto simp: fun_eq_iff settings_getters Let_def)
  have zero: "mask_vals_view (gpiod_line_mask_zero, gpiod_line_mask_zero) i = None"
    by (simp add: mask_vals_view_def)
  show ?thesis
    unfolding set_kernel_output_values_def if_swap
    using fold_mask_vals [OF assms(2), of "\<lambda>_. True" "\<lambda>i. cfg_output_values config ! i"]
      fold_mask_vals [OF assms(1), of "\<lambda>i. ls_direction (line_settings_at config i) = GPIOD_LINE_DIRECTION_OUTPUT"
        "\<lambda>i. ls_output_value (line_settings_at config i)"]
    by (simp add: output_at_def zero Let_def)
qed

section \<open>The whole request\<close>

definition output_entries :: "gpiod_line_config \<Rightarrow> attr_view list" where
  "output_entries config =
     (if has_at_least_one_output_direction config
      then [(GPIO_V2_LINE_ATTR_ID_OUTPUT_VALUES, AttrValues (snd (set_kernel_output_values config)),
             fst (set_kernel_output_values config))]
      else [])"

definition encoded_attrs :: "gpiod_line_config \<Rightarrow> attr_view list" where
  "encoded_attrs config = output_entries config
     @ map (debounce_entry config) (debounce_reps config 0)
     @ map (flags_entry config) (flags_reps config 1)"

definition attrs_needed :: "gpiod_line_config \<Rightarrow> nat" where
  "attrs_needed config = length (encoded_attrs config)"

definition encodes :: "gpiod_line_config \<Rightarrow> gpio_v2_line_config \<Rightarrow> bool" where
  "encodes config lc \<longleftrightarrow> map attr_view (active_attrs lc) = encoded_attrs config
     \<and> (0 < cfg_num_configs config \<longrightarrow> lc_flags lc = flags_at config 0)"

lemma set_offsets_config [simp]: "lr_config (set_offsets config u) = lr_config u"
proof -
  have "lr_config (fold (\<lambda>i u. u\<lparr>lr_offsets := (lr_offsets u)[i := f i]\<rparr>) is u) = lr_config u"
    for f "is" and u :: gpio_v2_line_request
    by (induction "is" arbitrary: u) simp_all
  then show ?thesis by (simp add: set_offsets_def Let_def)
qed

lemma set_output_values_run:
  "set_output_values config lc 0 =
     (put_attrs 0 (output_entries config) lc, length (output_entries config))"
  by (simp add: set_output_values_def output_entries_def split: prod.splits)

lemma put_attrs_append:
  "put_attrs idx (es @ fs) lc = put_attrs (idx + length es) fs (put_attrs idx es lc)"
  by (induction idx es lc rule: put_attrs.induct) simp_all

lemma put_attrs_flags:
  "put_attrs idx es (lc\<lparr>lc_flags := f\<rparr>) = (put_attrs idx es lc)\<lparr>lc_flags := f\<rparr>"
  by (induction idx es lc rule: put_attrs.induct) simp_all

lemma set_flags_any:
  assumes "cfg_num_configs config \<le> 64" "idx \<le> 10"
  shows "if idx + length (flags_reps config 1) \<le> 10
    then set_flags config lc idx c =
      (0, (put_attrs idx (map (flags_entry config) (flags_reps config 1)) lc)\<lparr>lc_flags :=
            if 0 < cfg_num_configs config then flags_at config 0 else lc_flags lc\<rparr>,
       idx + length (flags_reps config 1), c)
    else \<exists>lc'. set_flags config lc idx c = (-1, lc', 10, set_errno E2BIG c)"
proof (cases "0 < cfg_num_configs config")
  case True
  with set_flags_run [OF assms(1) _ assms(2), of lc c] show ?thesis by (simp add: put_attrs_flags)
next
  case False
  with assms show ?thesis by (simp add: set_flags_def flags_reps_def)
qed

lemma to_uapi_run:
  assumes n: "cfg_num_configs config \<le> 64" and len: "length (lc_attrs (lr_config u)) = 10"
  shows "if attrs_needed config \<le> 10
    then \<exists>lc. gpiod_line_config_to_uapi config u c = (0, (set_offsets config u)\<lparr>lr_config := lc\<rparr>, c)
      \<and> encodes config lc
    else \<exists>u'. gpiod_line_config_to_uapi config u c = (-1, u', set_errno E2BIG c)"
proof -
  let ?oe = "output_entries config" and ?de = "map (debounce_entry config) (debounce_reps config 0)"
  let ?fe = "map (flags_entry config) (flags_reps config 1)"
  let ?start = "lr_config u"
  let ?lc1 = "put_attrs 0 ?oe ?start"
  have oe: "length ?oe \<le> 10" by (simp add: output_entries_def)
  have need: "attrs_needed config = length ?oe + length (debounce_reps config 0) + length (flags_reps config 1)"
    by (simp add: attrs_needed_def encoded_attrs_def)
  have deb: "if length ?oe + length (debounce_reps config 0) \<le> 10
    then set_debounce_periods config ?lc1 (length ?oe) c =
      (0, put_attrs (length ?oe) ?de ?lc1, length ?oe + length (debounce_reps config 0), c)
    else \<exists>lc'. set_debounce_periods config ?lc1 (length ?oe) c = (-1, lc', 10, set_errno E2BIG c)"
    using debounce_loop_run [OF n, of 0 gpiod_line_mask_zero "length ?oe" ?lc1 c] oe
    by (simp add: set_debounce_periods_def)
  show ?thesis
  proof (cases "length ?oe + length (debounce_reps config 0) \<le> 10")
    case False
    with deb need show ?thesis
      by (auto simp: gpiod_line_config_to_uapi_def Let_def set_output_values_run)
  next
    case True
    let ?idx = "length ?oe + length (debounce_reps config 0)"
    let ?lc2 = "put_attrs (length ?oe) ?de ?lc1"
    note fl = set_flags_any [OF n True, of ?lc2 c]
    show ?thesis
    proof (cases "?idx + length (flags_reps config 1) \<le> 10")
      case False
      with fl deb True need show ?thesis
        by (auto simp: gpiod_line_config_to_uapi_def Let_def set_output_values_run)
    next
      case fits: True
      let ?lc = "(put_attrs ?idx ?fe ?lc2)\<lparr>lc_flags :=
        if 0 < cfg_num_configs config then flags_at config 0 else lc_flags ?lc2\<rparr>"
      have "put_attrs ?idx ?fe ?lc2 = put_attrs 0 (encoded_attrs config) ?start"
        by (simp add: encoded_attrs_def put_attrs_append)
      then have "map attr_view (take (attrs_needed config) (lc_attrs ?lc)) = encoded_attrs config"
        using put_attrs_view [of 0 "encoded_attrs config" ?start] fits need len
        by (simp add: attrs_needed_def)
      moreover have "attrs_needed config \<le> 10" using fits need by simp
      then have "unat (of_nat (attrs_needed config) :: u32) = attrs_needed config"
        by (simp add: unat_of_nat)
      ultimately have "encodes config (?lc\<lparr>lc_num_attrs := of_nat (attrs_needed config)\<rparr>)"
        by (simp add: encodes_def active_attrs_def)
      with fl deb True fits need show ?thesis
        by (auto simp: gpiod_line_config_to_uapi_def Let_def set_output_values_run)
    qed
  qed
qed

section \<open>Reading the request back\<close>

text \<open>Which view applies to a line; the attribute list is searched in index order.\<close>

definition view_applies :: "u32 \<Rightarrow> nat \<Rightarrow> attr_view \<Rightarrow> bool" where
  "view_applies ident i v \<longleftrightarrow> fst v = ident \<and> bit (snd (snd v)) i"

lemma effective_attr_view:
  "map_option la_data (effective_attr lc ident i)
     = map_option (fst \<circ> snd) (find (view_applies ident i) (map attr_view (active_attrs lc)))"
proof -
  have "map_option (fst \<circ> snd) (find (view_applies ident i) (map attr_view as))
      = map_option la_data (map_option lca_attr (find (attr_applies ident i) as))" for as
    by (induction as) (auto simp: view_applies_def attr_applies_def attr_view_def)
  then show ?thesis by (simp add: effective_attr_def)
qed

lemma find_append: "find P (xs @ ys) = (case find P xs of None \<Rightarrow> find P ys | Some x \<Rightarrow> Some x)"
  by (induction xs) auto

lemma find_other_id:
  "\<forall>v \<in> set vs. fst v \<noteq> ident \<Longrightarrow> find (view_applies ident i) vs = None"
  by (auto simp: find_None_iff view_applies_def)

lemma entries_ids:
  "\<forall>v \<in> set (output_entries config). fst v = GPIO_V2_LINE_ATTR_ID_OUTPUT_VALUES"
  "\<forall>v \<in> set (map (debounce_entry config) is). fst v = GPIO_V2_LINE_ATTR_ID_DEBOUNCE"
  "\<forall>v \<in> set (map (flags_entry config) is). fst v = GPIO_V2_LINE_ATTR_ID_FLAGS"
  by (auto simp: output_entries_def debounce_entry_def flags_entry_def)

lemma find_encoded:
  "find (view_applies GPIO_V2_LINE_ATTR_ID_OUTPUT_VALUES i) (encoded_attrs config)
     = find (view_applies GPIO_V2_LINE_ATTR_ID_OUTPUT_VALUES i) (output_entries config)"
  "find (view_applies GPIO_V2_LINE_ATTR_ID_DEBOUNCE i) (encoded_attrs config)
     = find (view_applies GPIO_V2_LINE_ATTR_ID_DEBOUNCE i)
         (map (debounce_entry config) (debounce_reps config 0))"
  "find (view_applies GPIO_V2_LINE_ATTR_ID_FLAGS i) (encoded_attrs config)
     = find (view_applies GPIO_V2_LINE_ATTR_ID_FLAGS i) (map (flags_entry config) (flags_reps config 1))"
  unfolding encoded_attrs_def find_append
  using find_other_id [of "output_entries config"] find_other_id [of "map (debounce_entry config) (debounce_reps config 0)"]
    find_other_id [of "map (flags_entry config) (flags_reps config 1)"] entries_ids
  by (auto simp: attr_ids split: option.splits)

lemma find_group:
  assumes reps: "\<And>r. r \<in> set rs \<Longrightarrow> P r \<Longrightarrow> g r = d"
    and ex: "Q \<longleftrightarrow> (\<exists>r \<in> set rs. P r)"
  shows "map_option g (find P rs) = (if Q then Some d else None)"
proof (cases "find P rs")
  case None
  then show ?thesis using ex by (auto simp: find_None_iff)
next
  case (Some r)
  then have "r \<in> set rs" "P r" by (auto simp: find_Some_iff)
  then show ?thesis using Some ex reps [of r] by auto
qed

lemma find_map: "find P (map f xs) = map_option f (find (P \<circ> f) xs)"
  by (induction xs) auto

lemma effective_debounce_encoded:
  assumes enc: "encodes config lc" and n: "cfg_num_configs config \<le> 64" and i: "i < cfg_num_configs config"
  shows "effective_debounce lc i =
    (if debounce_at config i = 0 then None else Some (ucast (debounce_at config i)))"
proof -
  let ?P = "view_applies GPIO_V2_LINE_ATTR_ID_DEBOUNCE i \<circ> debounce_entry config"
  have P: "?P r \<longleftrightarrow> r \<le> i \<and> debounce_at config r = debounce_at config i"
    if "r \<in> set (debounce_reps config 0)" for r
    using that n i by (auto simp: view_applies_def debounce_entry_def debounce_reps_def bit_group_mask)
  have ex: "debounce_at config i \<noteq> 0 \<longleftrightarrow> (\<exists>r \<in> set (debounce_reps config 0). ?P r)"
  proof
    assume nz: "debounce_at config i \<noteq> 0"
    obtain r where r: "r \<le> i" "debounce_at config r = debounce_at config i"
      "first_in_group (debounce_at config) r"
      using first_in_group_exists [of i "debounce_at config"] by blast
    with nz i have "r \<in> set (debounce_reps config 0)" by (auto simp: debounce_reps_def)
    with P r show "\<exists>r \<in> set (debounce_reps config 0). ?P r" by blast
  next
    assume "\<exists>r \<in> set (debounce_reps config 0). ?P r"
    with P show "debounce_at config i \<noteq> 0" by (auto simp: debounce_reps_def)
  qed
  have "map_option (fst \<circ> snd \<circ> debounce_entry config) (find ?P (debounce_reps config 0))
      = (if debounce_at config i \<noteq> 0 then Some (AttrDebounce (ucast (debounce_at config i))) else None)"
    using P ex by (intro find_group) (auto simp: debounce_entry_def)
  then have "map_option la_data (effective_attr lc GPIO_V2_LINE_ATTR_ID_DEBOUNCE i)
      = (if debounce_at config i \<noteq> 0 then Some (AttrDebounce (ucast (debounce_at config i))) else None)"
    using enc by (simp add: effective_attr_view encodes_def find_encoded find_map option.map_comp comp_assoc)
  then show ?thesis by (auto simp: effective_debounce_def split: if_splits)
qed

lemma effective_flags_encoded:
  assumes enc: "encodes config lc" and n: "cfg_num_configs config \<le> 64" and i: "i < cfg_num_configs config"
  shows "effective_flags lc i = flags_at config i"
proof -
  let ?P = "view_applies GPIO_V2_LINE_ATTR_ID_FLAGS i \<circ> flags_entry config"
  let ?later = "flag_key config 0 \<noteq> flag_key config i"
  have P: "?P r \<longleftrightarrow> r \<le> i \<and> flag_key config r = flag_key config i"
    if "r \<in> set (flags_reps config 1)" for r
    using that n i by (auto simp: view_applies_def flags_entry_def flags_reps_def bit_group_mask)
  have ex: "?later \<longleftrightarrow> (\<exists>r \<in> set (flags_reps config 1). ?P r)"
  proof
    assume "?later"
    moreover obtain r where r: "r \<le> i" "flag_key config r = flag_key config i"
      "first_in_group (flag_key config) r"
      using first_in_group_exists [of i "flag_key config"] by blast
    ultimately have "r \<in> set (flags_reps config 1)"
      using i by (cases r) (auto simp: flags_reps_def)
    with P r show "\<exists>r \<in> set (flags_reps config 1). ?P r" by blast
  next
    assume "\<exists>r \<in> set (flags_reps config 1). ?P r"
    then obtain r where r: "r \<in> set (flags_reps config 1)" "?P r" by blast
    then have "0 < r" "first_in_group (flag_key config) r" by (simp_all add: flags_reps_def)
    then have "flag_key config 0 \<noteq> flag_key config r" by (simp add: first_in_group_def)
    with P [OF r(1)] r(2) show ?later by simp
  qed
  have "map_option (fst \<circ> snd \<circ> flags_entry config) (find ?P (flags_reps config 1))
      = (if ?later then Some (AttrFlags (flags_at config i)) else None)"
  proof (rule find_group [OF _ ex])
    fix r assume "r \<in> set (flags_reps config 1)" "?P r"
    with P have "flag_key config r = flag_key config i" by blast
    then show "(fst \<circ> snd \<circ> flags_entry config) r = AttrFlags (flags_at config i)"
      using flags_at_key [of config r i] by (simp add: flags_entry_def)
  qed
  then have "map_option la_data (effective_attr lc GPIO_V2_LINE_ATTR_ID_FLAGS i)
      = (if ?later then Some (AttrFlags (flags_at config i)) else None)"
    using enc by (simp add: effective_attr_view encodes_def find_encoded find_map option.map_comp comp_assoc)
  moreover have "lc_flags lc = flags_at config 0"
    using enc i by (simp add: encodes_def)
  ultimately show ?thesis
    using flags_at_key [of config 0 i]
    by (auto simp: effective_flags_def split: if_splits option.splits)
qed

lemma effective_value_encoded:
  assumes enc: "encodes config lc" and n: "cfg_num_configs config \<le> 64" "cfg_num_output_values config \<le> 64"
  shows "effective_value lc i =
    (if has_at_least_one_output_direction config then output_at config i else None)"
proof -
  let ?mv = "set_kernel_output_values config"
  have "map_option la_data (effective_attr lc GPIO_V2_LINE_ATTR_ID_OUTPUT_VALUES i)
     = (if has_at_least_one_output_direction config \<and> bit (fst ?mv) i
        then Some (AttrValues (snd ?mv)) else None)"
    using enc by (simp add: effective_attr_view encodes_def find_encoded output_entries_def view_applies_def)
  then show ?thesis
    using set_kernel_output_values_view [OF n, of i]
    by (auto simp: effective_value_def mask_vals_view_def split: if_splits)
qed

section \<open>Offsets, and the number of attributes\<close>

lemma set_offsets_offsets:
  assumes "cfg_num_configs config \<le> 64" "length (lr_offsets u) = 64" "length (cfg_line_configs config) = 64"
  shows "take (cfg_num_configs config) (lr_offsets (set_offsets config u)) = config_offsets config"
    and "unat (lr_num_lines (set_offsets config u)) = cfg_num_configs config"
    and "length (lr_offsets (set_offsets config u)) = 64"
proof -
  let ?step = "\<lambda>i u. u\<lparr>lr_offsets := (lr_offsets u)[i := plc_offset (cfg_line_configs config ! i)]\<rparr>"
  let ?v = "u\<lparr>lr_num_lines := of_nat (cfg_num_configs config)\<rparr>"
  have fold: "lr_num_lines (fold ?step [0..<m] v) = lr_num_lines v
      \<and> length (lr_offsets (fold ?step [0..<m] v)) = length (lr_offsets v)
      \<and> take m (lr_offsets (fold ?step [0..<m] v)) = map plc_offset (take m (cfg_line_configs config))"
    if "m \<le> 64" "length (lr_offsets v) = 64" for m v
    using that
  proof (induction m)
    case (Suc m)
    then show ?case using assms(3) by (auto simp: take_Suc_conv_app_nth)
  qed simp
  show "take (cfg_num_configs config) (lr_offsets (set_offsets config u)) = config_offsets config"
    and "unat (lr_num_lines (set_offsets config u)) = cfg_num_configs config"
    and "length (lr_offsets (set_offsets config u)) = 64"
    using fold [OF assms(1), of ?v] assms
    by (simp_all add: set_offsets_def Let_def config_offsets_def unat_of_nat)
qed

lemma card_groups:
  "length (filter (\<lambda>i. P (key i) \<and> first_in_group key i) [0..<n]) = card {k \<in> key ` {..<n}. P k}"
proof -
  let ?rs = "filter (\<lambda>i. P (key i) \<and> first_in_group key i) [0..<n]"
  have "inj_on key (set ?rs)"
  proof (rule inj_onI)
    fix r r' assume "r \<in> set ?rs" "r' \<in> set ?rs" "key r = key r'"
    then show "r = r'" by (cases r r' rule: linorder_cases) (auto simp: first_in_group_def)
  qed
  moreover have "key ` set ?rs = {k \<in> key ` {..<n}. P k}"
  proof
    show "{k \<in> key ` {..<n}. P k} \<subseteq> key ` set ?rs"
    proof
      fix k assume "k \<in> {k \<in> key ` {..<n}. P k}"
      then obtain i where "i < n" "key i = k" "P k" by auto
      moreover obtain r where "r \<le> i" "key r = key i" "first_in_group key r"
        using first_in_group_exists by blast
      ultimately show "k \<in> key ` set ?rs" by (intro image_eqI [of _ _ r]) auto
    qed
  qed auto
  ultimately show ?thesis by (metis card_image distinct_card distinct_filter distinct_upt)
qed

lemma attrs_needed_eq:
  "attrs_needed config =
     (if has_at_least_one_output_direction config then 1 else 0)
     + card (debounce_at config ` {..<cfg_num_configs config} - {0})
     + (card (flag_key config ` {..<cfg_num_configs config}) - 1)"
proof -
  let ?n = "cfg_num_configs config"
  have "length (debounce_reps config 0) = card {k \<in> debounce_at config ` {..<?n}. k \<noteq> 0}"
    unfolding debounce_reps_def by (rule card_groups [where P = "\<lambda>k. k \<noteq> 0"])
  moreover have "{k \<in> debounce_at config ` {..<?n}. k \<noteq> 0} = debounce_at config ` {..<?n} - {0}" by auto
  moreover have "length (flags_reps config 0) = card (flag_key config ` {..<?n})"
    unfolding flags_reps_def using card_groups [of "\<lambda>_. True" "flag_key config" ?n] by simp
  moreover have "length (flags_reps config 1) = length (flags_reps config 0) - 1"
    by (cases "?n = 0") (simp_all add: flags_reps_def upt_conv_Cons first_in_group_def)
  ultimately show ?thesis
    by (simp add: attrs_needed_def encoded_attrs_def output_entries_def)
qed

section \<open>Properties\<close>

lemma zero_request_lengths:
  "length (lc_attrs (lr_config zero_line_request)) = 10" "length (lr_offsets zero_line_request) = 64"
  by (simp_all add: zero_line_request_def zero_line_config_def uapi_limits)

lemma to_uapi_zero:
  assumes wf: "config_wf config"
    and run: "gpiod_line_config_to_uapi config zero_line_request c = (0, u, c')"
  shows "encodes config (lr_config u)" "take (cfg_num_configs config) (lr_offsets u) = config_offsets config"
    "unat (lr_num_lines u) = cfg_num_configs config"
proof -
  from wf have n: "cfg_num_configs config \<le> 64" "length (cfg_line_configs config) = 64"
    by (simp_all add: config_wf_def)
  note main = to_uapi_run [OF n(1) zero_request_lengths(1), of c]
  note offs = set_offsets_offsets [OF n(1) zero_request_lengths(2) n(2)]
  have "attrs_needed config \<le> 10"
  proof (rule ccontr)
    assume "\<not> attrs_needed config \<le> 10"
    with main run show False by auto
  qed
  with main obtain lc where "gpiod_line_config_to_uapi config zero_line_request c
      = (0, (set_offsets config zero_line_request)\<lparr>lr_config := lc\<rparr>, c)" "encodes config lc" by auto
  with run offs show "encodes config (lr_config u)"
    "take (cfg_num_configs config) (lr_offsets u) = config_offsets config"
    "unat (lr_num_lines u) = cfg_num_configs config" by auto
qed

lemma config_abs_nth:
  "i < cfg_num_configs config \<Longrightarrow>
     config_abs config ! i = (plc_offset (cfg_line_configs config ! i), line_settings_at config i)"
  by (simp add: config_abs_def)

lemma sample_config_wf: "config_wf sample_config"
  using sample_config_inv by (simp add: config_inv_def)

lemma sample_config_encoded:
  obtains u where "gpiod_line_config_to_uapi sample_config zero_line_request crt_init = (0, u, crt_init)"
proof -
  have "attrs_needed sample_config \<le> 10" by code_simp
  then show ?thesis
    using to_uapi_run [of sample_config zero_line_request crt_init] that
    by (auto simp: sample_config_num zero_request_lengths)
qed

text \<open>
  C1: The kernel request means what was configured.  When \<open>gpiod_line_config_to_uapi\<close> succeeds, then
  for every configured line the request holds its offset at its index, and reading the attributes as
  the ABI documents them (defaults overridden by the attribute of lowest index whose mask has the
  line) gives exactly the flags of that line's settings and the low 32 bits of its debounce period, or
  no debounce attribute where the period is zero.
\<close>

theorem to_uapi_meaning:
  assumes wf: "config_wf config"
    and run: "gpiod_line_config_to_uapi config zero_line_request c = (0, u, c')"
    and i: "i < cfg_num_configs config"
  shows "lr_offsets u ! i = fst (config_abs config ! i)
    \<and> effective_flags (lr_config u) i = make_kernel_flags (snd (config_abs config ! i))
    \<and> effective_debounce (lr_config u) i =
        (let period = ls_debounce_period_us (snd (config_abs config ! i))
         in if period = 0 then None else Some (ucast period))"
proof -
  note z = to_uapi_zero [OF wf run]
  have n: "cfg_num_configs config \<le> 64" using wf by (simp add: config_wf_def)
  have "lr_offsets u ! i = config_offsets config ! i" using i by (simp add: z(2) [symmetric])
  with effective_flags_encoded [OF z(1) n i] effective_debounce_encoded [OF z(1) n i] show ?thesis
    by (simp add: config_abs_nth [OF i] config_offsets_nth [OF wf i] flags_at_def debounce_at_def
        gpiod_line_settings_get_debounce_period_us_def Let_def)
qed

theorem to_uapi_meaning_witness:
  "\<exists>u. gpiod_line_config_to_uapi sample_config zero_line_request crt_init = (0, u, crt_init)
     \<and> lr_offsets u ! 2 = 9 \<and> effective_flags (lr_config u) 2 = make_kernel_flags input_settings
     \<and> effective_debounce (lr_config u) 2 = Some 1000"
proof -
  obtain u where u: "gpiod_line_config_to_uapi sample_config zero_line_request crt_init = (0, u, crt_init)"
    by (rule sample_config_encoded)
  with to_uapi_meaning [OF sample_config_wf u, of 2] show ?thesis
    by (simp add: sample_config_num sample_config_abs input_settings_def)
qed

text \<open>
  C8: Output values reach the kernel.  After a successful encoding every line configured as output
  has a value in the request: the global output value of its index if one is set, and the output
  value of its settings otherwise.  If no line is an output, the request carries no values at all.
\<close>

theorem to_uapi_output_values:
  assumes wf: "config_wf config"
    and run: "gpiod_line_config_to_uapi config zero_line_request c = (0, u, c')"
  shows "(\<forall>i < cfg_num_configs config.
      ls_direction (snd (config_abs config ! i)) = GPIOD_LINE_DIRECTION_OUTPUT \<longrightarrow>
      effective_value (lr_config u) i =
        Some ((if i < cfg_num_output_values config then cfg_output_values config ! i
               else ls_output_value (snd (config_abs config ! i))) = GPIOD_LINE_VALUE_ACTIVE))
    \<and> ((\<forall>i < cfg_num_configs config.
          ls_direction (snd (config_abs config ! i)) \<noteq> GPIOD_LINE_DIRECTION_OUTPUT) \<longrightarrow>
        effective_value (lr_config u) j = None)"
proof -
  note z = to_uapi_zero [OF wf run]
  have n: "cfg_num_configs config \<le> 64" "cfg_num_output_values config \<le> 64"
    using wf by (simp_all add: config_wf_def)
  note eff = effective_value_encoded [OF z(1) n]
  have out: "has_at_least_one_output_direction config \<longleftrightarrow> (\<exists>i < cfg_num_configs config.
      ls_direction (snd (config_abs config ! i)) = GPIOD_LINE_DIRECTION_OUTPUT)"
    by (auto simp: has_at_least_one_output_direction_def list_ex_iff config_abs_nth settings_getters)
  show ?thesis
    unfolding eff out by (auto simp: output_at_def config_abs_nth)
qed

theorem to_uapi_output_values_witness:
  "\<exists>u. gpiod_line_config_to_uapi sample_config zero_line_request crt_init = (0, u, crt_init)
     \<and> effective_value (lr_config u) 1 = Some True"
proof -
  obtain u where u: "gpiod_line_config_to_uapi sample_config zero_line_request crt_init = (0, u, crt_init)"
    by (rule sample_config_encoded)
  have "cfg_num_output_values sample_config = 0" by code_simp
  with to_uapi_output_values [OF sample_config_wf u] u show ?thesis
    by (auto simp: sample_config_num sample_config_abs output_settings_def)
qed

text \<open>
  C3: When the encoder succeeds.  The attributes needed are one for the output values if there is an
  output line, one per distinct non-zero debounce period, and one per distinct combination of flag
  settings but the first.  The encoding succeeds exactly if these are at most
  \<open>GPIO_V2_LINE_NUM_ATTRS_MAX\<close>; otherwise it fails with \<open>E2BIG\<close>.
\<close>

theorem to_uapi_succeeds_iff:
  assumes "config_wf config"
  shows "(if (if has_at_least_one_output_direction config then 1 else 0)
        + card (debounce_at config ` {..<cfg_num_configs config} - {0})
        + (card (flag_key config ` {..<cfg_num_configs config}) - 1) \<le> GPIO_V2_LINE_NUM_ATTRS_MAX
      then \<exists>u. gpiod_line_config_to_uapi config zero_line_request c = (0, u, c)
      else \<exists>u. gpiod_line_config_to_uapi config zero_line_request c = (-1, u, set_errno E2BIG c))"
proof -
  have n: "cfg_num_configs config \<le> 64" using assms by (simp add: config_wf_def)
  from to_uapi_run [OF n zero_request_lengths(1), of c] show ?thesis
    unfolding attrs_needed_eq by (auto simp: uapi_limits)
qed

theorem to_uapi_succeeds_iff_witness:
  "\<exists>u. gpiod_line_config_to_uapi sample_config zero_line_request crt_init = (0, u, crt_init)"
proof -
  have "(if has_at_least_one_output_direction sample_config then 1 else 0)
      + card (debounce_at sample_config ` {..<cfg_num_configs sample_config} - {0})
      + (card (flag_key sample_config ` {..<cfg_num_configs sample_config}) - 1) \<le> GPIO_V2_LINE_NUM_ATTRS_MAX"
    unfolding attrs_needed_eq [symmetric] by code_simp
  with to_uapi_succeeds_iff [OF sample_config_wf, of crt_init] show ?thesis by simp
qed

text \<open>
  C29: The debounce period survives the encoding exactly if it fits in 32 bits: the kernel structure
  holds a \<open>__u32\<close> and the encoder stores the \<open>unsigned long\<close> without a check.  A period of \<open>2 ^ 32\<close>
  microseconds becomes zero.
\<close>

theorem debounce_exact_iff_32_bits:
  assumes wf: "config_wf config"
    and run: "gpiod_line_config_to_uapi config zero_line_request c = (0, u, c')"
    and i: "i < cfg_num_configs config"
    and period: "ls_debounce_period_us (snd (config_abs config ! i)) = p" "p \<noteq> 0"
  shows "\<exists>d. effective_debounce (lr_config u) i = Some d \<and> unat d = unat p mod 2 ^ 32
    \<and> (unat d = unat p \<longleftrightarrow> unat p < 2 ^ 32)"
proof -
  note z = to_uapi_zero [OF wf run]
  have n: "cfg_num_configs config \<le> 64" using wf by (simp add: config_wf_def)
  have "debounce_at config i = p"
    using period(1) by (simp add: config_abs_nth [OF i] debounce_at_def settings_getters)
  with effective_debounce_encoded [OF z(1) n i] period(2)
  have "effective_debounce (lr_config u) i = Some (ucast p)" by simp
  moreover have "unat (ucast p :: u32) = unat p mod 2 ^ 32"
    by (simp add: unsigned_ucast_eq take_bit_eq_mod)
  moreover have "unat p mod 2 ^ 32 = unat p \<longleftrightarrow> unat p < 2 ^ 32"
    by (metis mod_less mod_less_divisor zero_less_numeral zero_less_power)
  ultimately show ?thesis by simp
qed

theorem debounce_exact_iff_32_bits_witness:
  "\<exists>u d. gpiod_line_config_to_uapi
      (fst (snd (gpiod_line_config_add_line_settings zero_config (Some [3])
        (Some (default_settings\<lparr>ls_debounce_period_us := 4294967296\<rparr>)) crt_init)))
      zero_line_request crt_init = (0, u, crt_init)
    \<and> effective_debounce (lr_config u) 0 = Some d \<and> unat d = 0"
proof -
  let ?cfg = "fst (snd (gpiod_line_config_add_line_settings zero_config (Some [3])
        (Some (default_settings\<lparr>ls_debounce_period_us := 4294967296\<rparr>)) crt_init))"
  have facts: "config_wf ?cfg" "cfg_num_configs ?cfg = 1" "attrs_needed ?cfg \<le> 10"
    "ls_debounce_period_us (snd (config_abs ?cfg ! 0)) = 4294967296"
    by code_simp+
  with to_uapi_run [of ?cfg zero_line_request crt_init] obtain u where
    u: "gpiod_line_config_to_uapi ?cfg zero_line_request crt_init = (0, u, crt_init)"
    by (auto simp: zero_request_lengths)
  from debounce_exact_iff_32_bits [OF facts(1) u _ facts(4)] facts(2) u show ?thesis by auto
qed

text \<open>The flag word as the union of the contributions of the six settings.\<close>

definition direction_bits :: "gpiod_line_direction \<Rightarrow> u64" where
  "direction_bits d = (case d of GPIOD_LINE_DIRECTION_INPUT \<Rightarrow> line_flag GPIO_V2_LINE_FLAG_INPUT
     | GPIOD_LINE_DIRECTION_OUTPUT \<Rightarrow> line_flag GPIO_V2_LINE_FLAG_OUTPUT | _ \<Rightarrow> 0)"

definition edge_bits :: "gpiod_line_edge \<Rightarrow> u64" where
  "edge_bits e = (case e of
       GPIOD_LINE_EDGE_FALLING \<Rightarrow> line_flag GPIO_V2_LINE_FLAG_EDGE_FALLING OR line_flag GPIO_V2_LINE_FLAG_INPUT
     | GPIOD_LINE_EDGE_RISING \<Rightarrow> line_flag GPIO_V2_LINE_FLAG_EDGE_RISING OR line_flag GPIO_V2_LINE_FLAG_INPUT
     | GPIOD_LINE_EDGE_BOTH \<Rightarrow> line_flag GPIO_V2_LINE_FLAG_EDGE_FALLING
         OR line_flag GPIO_V2_LINE_FLAG_EDGE_RISING OR line_flag GPIO_V2_LINE_FLAG_INPUT
     | _ \<Rightarrow> 0)"

definition drive_bits :: "gpiod_line_drive \<Rightarrow> u64" where
  "drive_bits d = (case d of GPIOD_LINE_DRIVE_OPEN_DRAIN \<Rightarrow> line_flag GPIO_V2_LINE_FLAG_OPEN_DRAIN
     | GPIOD_LINE_DRIVE_OPEN_SOURCE \<Rightarrow> line_flag GPIO_V2_LINE_FLAG_OPEN_SOURCE | _ \<Rightarrow> 0)"

definition bias_bits :: "gpiod_line_bias \<Rightarrow> u64" where
  "bias_bits b = (case b of GPIOD_LINE_BIAS_DISABLED \<Rightarrow> line_flag GPIO_V2_LINE_FLAG_BIAS_DISABLED
     | GPIOD_LINE_BIAS_PULL_UP \<Rightarrow> line_flag GPIO_V2_LINE_FLAG_BIAS_PULL_UP
     | GPIOD_LINE_BIAS_PULL_DOWN \<Rightarrow> line_flag GPIO_V2_LINE_FLAG_BIAS_PULL_DOWN | _ \<Rightarrow> 0)"

definition clock_bits :: "gpiod_line_clock \<Rightarrow> u64" where
  "clock_bits k = (case k of GPIOD_LINE_CLOCK_REALTIME \<Rightarrow> line_flag GPIO_V2_LINE_FLAG_EVENT_CLOCK_REALTIME
     | GPIOD_LINE_CLOCK_HTE \<Rightarrow> line_flag GPIO_V2_LINE_FLAG_EVENT_CLOCK_HTE | _ \<Rightarrow> 0)"

lemma case_or_bits:
  "(case d of GPIOD_LINE_DIRECTION_INPUT \<Rightarrow> w OR line_flag GPIO_V2_LINE_FLAG_INPUT
     | GPIOD_LINE_DIRECTION_OUTPUT \<Rightarrow> w OR line_flag GPIO_V2_LINE_FLAG_OUTPUT | _ \<Rightarrow> w)
   = w OR direction_bits d"
  "(case e of
       GPIOD_LINE_EDGE_FALLING \<Rightarrow> w OR (line_flag GPIO_V2_LINE_FLAG_EDGE_FALLING OR line_flag GPIO_V2_LINE_FLAG_INPUT)
     | GPIOD_LINE_EDGE_RISING \<Rightarrow> w OR (line_flag GPIO_V2_LINE_FLAG_EDGE_RISING OR line_flag GPIO_V2_LINE_FLAG_INPUT)
     | GPIOD_LINE_EDGE_BOTH \<Rightarrow> w OR (line_flag GPIO_V2_LINE_FLAG_EDGE_FALLING
         OR line_flag GPIO_V2_LINE_FLAG_EDGE_RISING OR line_flag GPIO_V2_LINE_FLAG_INPUT)
     | _ \<Rightarrow> w) = w OR edge_bits e"
  "(case r of GPIOD_LINE_DRIVE_OPEN_DRAIN \<Rightarrow> w OR line_flag GPIO_V2_LINE_FLAG_OPEN_DRAIN
     | GPIOD_LINE_DRIVE_OPEN_SOURCE \<Rightarrow> w OR line_flag GPIO_V2_LINE_FLAG_OPEN_SOURCE | _ \<Rightarrow> w)
   = w OR drive_bits r"
  "(case b of GPIOD_LINE_BIAS_DISABLED \<Rightarrow> w OR line_flag GPIO_V2_LINE_FLAG_BIAS_DISABLED
     | GPIOD_LINE_BIAS_PULL_UP \<Rightarrow> w OR line_flag GPIO_V2_LINE_FLAG_BIAS_PULL_UP
     | GPIOD_LINE_BIAS_PULL_DOWN \<Rightarrow> w OR line_flag GPIO_V2_LINE_FLAG_BIAS_PULL_DOWN | _ \<Rightarrow> w)
   = w OR bias_bits b"
  "(case k of GPIOD_LINE_CLOCK_REALTIME \<Rightarrow> w OR line_flag GPIO_V2_LINE_FLAG_EVENT_CLOCK_REALTIME
     | GPIOD_LINE_CLOCK_HTE \<Rightarrow> w OR line_flag GPIO_V2_LINE_FLAG_EVENT_CLOCK_HTE | _ \<Rightarrow> w)
   = w OR clock_bits k"
  "(if l then w OR x else w) = w OR (if l then x else 0)"
  by (simp_all add: direction_bits_def edge_bits_def drive_bits_def bias_bits_def clock_bits_def
      split: gpiod_line_direction.splits gpiod_line_edge.splits gpiod_line_drive.splits
        gpiod_line_bias.splits gpiod_line_clock.splits)

lemma make_kernel_flags_union:
  "make_kernel_flags s = direction_bits (ls_direction s) OR edge_bits (ls_edge_detection s)
     OR drive_bits (ls_drive s) OR bias_bits (ls_bias s)
     OR (if ls_active_low s then line_flag GPIO_V2_LINE_FLAG_ACTIVE_LOW else 0)
     OR clock_bits (ls_event_clock s)"
  unfolding make_kernel_flags_def settings_getters Let_def case_or_bits
  by (simp add: ac_simps)

lemma has_flag_bits:
  "has_flag (direction_bits d) f \<longleftrightarrow> (f = GPIO_V2_LINE_FLAG_INPUT \<and> d = GPIOD_LINE_DIRECTION_INPUT)
     \<or> (f = GPIO_V2_LINE_FLAG_OUTPUT \<and> d = GPIOD_LINE_DIRECTION_OUTPUT)"
  "has_flag (edge_bits e) f \<longleftrightarrow>
     (f = GPIO_V2_LINE_FLAG_INPUT \<and>
        e \<in> {GPIOD_LINE_EDGE_RISING, GPIOD_LINE_EDGE_FALLING, GPIOD_LINE_EDGE_BOTH})
     \<or> (f = GPIO_V2_LINE_FLAG_EDGE_RISING \<and> e \<in> {GPIOD_LINE_EDGE_RISING, GPIOD_LINE_EDGE_BOTH})
     \<or> (f = GPIO_V2_LINE_FLAG_EDGE_FALLING \<and> e \<in> {GPIOD_LINE_EDGE_FALLING, GPIOD_LINE_EDGE_BOTH})"
  "has_flag (drive_bits r) f \<longleftrightarrow> (f = GPIO_V2_LINE_FLAG_OPEN_DRAIN \<and> r = GPIOD_LINE_DRIVE_OPEN_DRAIN)
     \<or> (f = GPIO_V2_LINE_FLAG_OPEN_SOURCE \<and> r = GPIOD_LINE_DRIVE_OPEN_SOURCE)"
  "has_flag (bias_bits b) f \<longleftrightarrow> (f = GPIO_V2_LINE_FLAG_BIAS_DISABLED \<and> b = GPIOD_LINE_BIAS_DISABLED)
     \<or> (f = GPIO_V2_LINE_FLAG_BIAS_PULL_UP \<and> b = GPIOD_LINE_BIAS_PULL_UP)
     \<or> (f = GPIO_V2_LINE_FLAG_BIAS_PULL_DOWN \<and> b = GPIOD_LINE_BIAS_PULL_DOWN)"
  "has_flag (clock_bits k) f \<longleftrightarrow>
     (f = GPIO_V2_LINE_FLAG_EVENT_CLOCK_REALTIME \<and> k = GPIOD_LINE_CLOCK_REALTIME)
     \<or> (f = GPIO_V2_LINE_FLAG_EVENT_CLOCK_HTE \<and> k = GPIOD_LINE_CLOCK_HTE)"
  "has_flag (if l then line_flag g else 0) f \<longleftrightarrow> l \<and> f = g"
  by (auto simp: direction_bits_def edge_bits_def drive_bits_def bias_bits_def clock_bits_def
      split: gpiod_line_direction.splits gpiod_line_edge.splits gpiod_line_drive.splits
        gpiod_line_bias.splits gpiod_line_clock.splits)

lemma has_flag_make_kernel_flags:
  "has_flag (make_kernel_flags s) f \<longleftrightarrow>
     (case f of
        GPIO_V2_LINE_FLAG_USED \<Rightarrow> False
      | GPIO_V2_LINE_FLAG_ACTIVE_LOW \<Rightarrow> ls_active_low s
      | GPIO_V2_LINE_FLAG_INPUT \<Rightarrow> ls_direction s = GPIOD_LINE_DIRECTION_INPUT
          \<or> ls_edge_detection s \<in> {GPIOD_LINE_EDGE_RISING, GPIOD_LINE_EDGE_FALLING, GPIOD_LINE_EDGE_BOTH}
      | GPIO_V2_LINE_FLAG_OUTPUT \<Rightarrow> ls_direction s = GPIOD_LINE_DIRECTION_OUTPUT
      | GPIO_V2_LINE_FLAG_EDGE_RISING \<Rightarrow>
          ls_edge_detection s \<in> {GPIOD_LINE_EDGE_RISING, GPIOD_LINE_EDGE_BOTH}
      | GPIO_V2_LINE_FLAG_EDGE_FALLING \<Rightarrow>
          ls_edge_detection s \<in> {GPIOD_LINE_EDGE_FALLING, GPIOD_LINE_EDGE_BOTH}
      | GPIO_V2_LINE_FLAG_OPEN_DRAIN \<Rightarrow> ls_drive s = GPIOD_LINE_DRIVE_OPEN_DRAIN
      | GPIO_V2_LINE_FLAG_OPEN_SOURCE \<Rightarrow> ls_drive s = GPIOD_LINE_DRIVE_OPEN_SOURCE
      | GPIO_V2_LINE_FLAG_BIAS_PULL_UP \<Rightarrow> ls_bias s = GPIOD_LINE_BIAS_PULL_UP
      | GPIO_V2_LINE_FLAG_BIAS_PULL_DOWN \<Rightarrow> ls_bias s = GPIOD_LINE_BIAS_PULL_DOWN
      | GPIO_V2_LINE_FLAG_BIAS_DISABLED \<Rightarrow> ls_bias s = GPIOD_LINE_BIAS_DISABLED
      | GPIO_V2_LINE_FLAG_EVENT_CLOCK_REALTIME \<Rightarrow> ls_event_clock s = GPIOD_LINE_CLOCK_REALTIME
      | GPIO_V2_LINE_FLAG_EVENT_CLOCK_HTE \<Rightarrow> ls_event_clock s = GPIOD_LINE_CLOCK_HTE)"
  unfolding make_kernel_flags_union has_flag_or has_flag_bits by (cases f) simp_all

text \<open>
  C28: The flag word of a settings object: exactly the flags of its direction, edges, drive, bias,
  active-low setting and event clock are set; edge detection also sets \<open>INPUT\<close>.  As a consequence
  \<open>INPUT\<close> and \<open>OUTPUT\<close>, which the kernel refuses together, are both set exactly for an output line
  with edge detection.
\<close>

theorem kernel_flags_spec:
  "(has_flag (make_kernel_flags s) f \<longleftrightarrow>
     (case f of
        GPIO_V2_LINE_FLAG_USED \<Rightarrow> False
      | GPIO_V2_LINE_FLAG_ACTIVE_LOW \<Rightarrow> ls_active_low s
      | GPIO_V2_LINE_FLAG_INPUT \<Rightarrow> ls_direction s = GPIOD_LINE_DIRECTION_INPUT
          \<or> ls_edge_detection s \<in> {GPIOD_LINE_EDGE_RISING, GPIOD_LINE_EDGE_FALLING, GPIOD_LINE_EDGE_BOTH}
      | GPIO_V2_LINE_FLAG_OUTPUT \<Rightarrow> ls_direction s = GPIOD_LINE_DIRECTION_OUTPUT
      | GPIO_V2_LINE_FLAG_EDGE_RISING \<Rightarrow>
          ls_edge_detection s \<in> {GPIOD_LINE_EDGE_RISING, GPIOD_LINE_EDGE_BOTH}
      | GPIO_V2_LINE_FLAG_EDGE_FALLING \<Rightarrow>
          ls_edge_detection s \<in> {GPIOD_LINE_EDGE_FALLING, GPIOD_LINE_EDGE_BOTH}
      | GPIO_V2_LINE_FLAG_OPEN_DRAIN \<Rightarrow> ls_drive s = GPIOD_LINE_DRIVE_OPEN_DRAIN
      | GPIO_V2_LINE_FLAG_OPEN_SOURCE \<Rightarrow> ls_drive s = GPIOD_LINE_DRIVE_OPEN_SOURCE
      | GPIO_V2_LINE_FLAG_BIAS_PULL_UP \<Rightarrow> ls_bias s = GPIOD_LINE_BIAS_PULL_UP
      | GPIO_V2_LINE_FLAG_BIAS_PULL_DOWN \<Rightarrow> ls_bias s = GPIOD_LINE_BIAS_PULL_DOWN
      | GPIO_V2_LINE_FLAG_BIAS_DISABLED \<Rightarrow> ls_bias s = GPIOD_LINE_BIAS_DISABLED
      | GPIO_V2_LINE_FLAG_EVENT_CLOCK_REALTIME \<Rightarrow> ls_event_clock s = GPIOD_LINE_CLOCK_REALTIME
      | GPIO_V2_LINE_FLAG_EVENT_CLOCK_HTE \<Rightarrow> ls_event_clock s = GPIOD_LINE_CLOCK_HTE))
   \<and> (has_flag (make_kernel_flags s) GPIO_V2_LINE_FLAG_INPUT
        \<and> has_flag (make_kernel_flags s) GPIO_V2_LINE_FLAG_OUTPUT
      \<longleftrightarrow> ls_direction s = GPIOD_LINE_DIRECTION_OUTPUT
        \<and> ls_edge_detection s \<in> {GPIOD_LINE_EDGE_RISING, GPIOD_LINE_EDGE_FALLING, GPIOD_LINE_EDGE_BOTH})"
  by (intro conjI, rule has_flag_make_kernel_flags) (auto simp: has_flag_make_kernel_flags)

end
