(* ===== verification/Edge_Event.thy ===== *)
theory Edge_Event
  imports Gpiod_Internal
begin

text \<open>
  \<open>lib/edge-event.c\<close>: edge events and the buffer they are read into.  The buffer is three heap
  blocks: the object, the decoded events and the raw events.
\<close>

section \<open>Data\<close>

text \<open>\<open>GPIOD_EDGE_EVENT_UNSET\<close> is the zero an entry holds after \<open>memset\<close>; it is no enumerator.\<close>

datatype gpiod_edge_event_type =
    GPIOD_EDGE_EVENT_RISING_EDGE
  | GPIOD_EDGE_EVENT_FALLING_EDGE
  | GPIOD_EDGE_EVENT_UNSET

record gpiod_edge_event =
  ee_event_type :: gpiod_edge_event_type
  ee_timestamp :: u64
  ee_line_offset :: u32
  ee_global_seqno :: u64
  ee_line_seqno :: u64

record gpiod_edge_event_buffer =
  eb_capacity :: nat
  eb_num_events :: nat
  eb_events :: "gpiod_edge_event list obj"
  eb_event_data :: "gpio_v2_line_event list obj"

definition EVENT_BUFFER_MAX_CAPACITY :: nat where
  "EVENT_BUFFER_MAX_CAPACITY = GPIO_V2_LINES_MAX * 16"

definition zero_edge_event :: gpiod_edge_event where
  "zero_edge_event = \<lparr>ee_event_type = GPIOD_EDGE_EVENT_UNSET, ee_timestamp = 0, ee_line_offset = 0,
     ee_global_seqno = 0, ee_line_seqno = 0\<rparr>"

section \<open>Events\<close>

definition gpiod_edge_event_free :: "gpiod_edge_event obj \<Rightarrow> crt \<Rightarrow> crt" where
  "gpiod_edge_event_free event c = free_obj event c"

definition gpiod_edge_event_copy :: "gpiod_edge_event \<Rightarrow> crt \<Rightarrow> gpiod_edge_event obj option \<times> crt" where
  "gpiod_edge_event_copy event c = malloc_obj event c"

definition gpiod_edge_event_get_event_type :: "gpiod_edge_event \<Rightarrow> gpiod_edge_event_type" where
  "gpiod_edge_event_get_event_type event = ee_event_type event"

definition gpiod_edge_event_get_timestamp_ns :: "gpiod_edge_event \<Rightarrow> u64" where
  "gpiod_edge_event_get_timestamp_ns event = ee_timestamp event"

definition gpiod_edge_event_get_line_offset :: "gpiod_edge_event \<Rightarrow> u32" where
  "gpiod_edge_event_get_line_offset event = ee_line_offset event"

definition gpiod_edge_event_get_global_seqno :: "gpiod_edge_event \<Rightarrow> u64" where
  "gpiod_edge_event_get_global_seqno event = ee_global_seqno event"

definition gpiod_edge_event_get_line_seqno :: "gpiod_edge_event \<Rightarrow> u64" where
  "gpiod_edge_event_get_line_seqno event = ee_line_seqno event"

section \<open>Buffers\<close>

definition clamp_capacity :: "nat \<Rightarrow> nat" where
  "clamp_capacity capacity =
     (let capacity = (if capacity = 0 then 64 else capacity)
      in if capacity > EVENT_BUFFER_MAX_CAPACITY then EVENT_BUFFER_MAX_CAPACITY else capacity)"

definition gpiod_edge_event_buffer_new ::
    "nat \<Rightarrow> crt \<Rightarrow> gpiod_edge_event_buffer obj option \<times> crt" where
  "gpiod_edge_event_buffer_new capacity c =
     (let capacity = clamp_capacity capacity in
      case malloc c of
        (None, c) \<Rightarrow> (None, c)
      | (Some buf, c) \<Rightarrow>
          (case malloc_obj (replicate capacity zero_edge_event) c of
             (None, c) \<Rightarrow> (None, free buf c)
           | (Some events, c) \<Rightarrow>
               (case malloc_obj (replicate capacity zero_line_event) c of
                  (None, c) \<Rightarrow> (None, free buf (free_obj events c))
                | (Some event_data, c) \<Rightarrow>
                    (Some (buf, \<lparr>eb_capacity = capacity, eb_num_events = 0, eb_events = events,
                       eb_event_data = event_data\<rparr>), c))))"

definition gpiod_edge_event_buffer_get_capacity :: "gpiod_edge_event_buffer \<Rightarrow> nat" where
  "gpiod_edge_event_buffer_get_capacity buffer = eb_capacity buffer"

definition gpiod_edge_event_buffer_free :: "gpiod_edge_event_buffer obj option \<Rightarrow> crt \<Rightarrow> crt" where
  "gpiod_edge_event_buffer_free buffer c =
     (case buffer of
        None \<Rightarrow> c
      | Some b \<Rightarrow> free_obj b (free_obj (eb_event_data (snd b)) (free_obj (eb_events (snd b)) c)))"

definition gpiod_edge_event_buffer_get_event ::
    "gpiod_edge_event_buffer \<Rightarrow> nat \<Rightarrow> crt \<Rightarrow> gpiod_edge_event option \<times> crt" where
  "gpiod_edge_event_buffer_get_event buffer index c =
     (if index \<ge> eb_num_events buffer then (None, set_errno EINVAL c)
      else (Some (snd (eb_events buffer) ! index), c))"

definition gpiod_edge_event_buffer_get_num_events :: "gpiod_edge_event_buffer \<Rightarrow> nat" where
  "gpiod_edge_event_buffer_get_num_events buffer = eb_num_events buffer"

section \<open>Reading\<close>

definition edge_event_of_uapi :: "gpio_v2_line_event \<Rightarrow> gpiod_edge_event" where
  "edge_event_of_uapi ev =
     \<lparr>ee_event_type = (if le_id ev = GPIO_V2_LINE_EVENT_RISING_EDGE
        then GPIOD_EDGE_EVENT_RISING_EDGE else GPIOD_EDGE_EVENT_FALLING_EDGE),
      ee_timestamp = le_timestamp_ns ev, ee_line_offset = le_offset ev,
      ee_global_seqno = ucast (le_seqno ev), ee_line_seqno = ucast (le_line_seqno ev)\<rparr>"

text \<open>
  \<open>read\<close> stores a list of raw events at the start of \<open>event_data\<close> and returns the byte count.  The
  two \<open>memset\<close> calls come first, and \<open>num_events\<close> is written only after a successful read.
\<close>

definition gpiod_edge_event_buffer_read_fd ::
    "'k kernel \<Rightarrow> int \<Rightarrow> gpiod_edge_event_buffer option \<Rightarrow> nat \<Rightarrow> crt \<Rightarrow> 'k
      \<Rightarrow> int \<times> gpiod_edge_event_buffer option \<times> crt \<times> 'k" where
  "gpiod_edge_event_buffer_read_fd K fd buffer max_events c k =
     (case buffer of
        None \<Rightarrow> (-1, None, set_errno EINVAL c, k)
      | Some buffer \<Rightarrow>
          let buffer = buffer\<lparr>
                eb_event_data := (fst (eb_event_data buffer),
                  replicate (eb_capacity buffer) zero_line_event),
                eb_events := (fst (eb_events buffer),
                  replicate (eb_capacity buffer) zero_edge_event)\<rparr>;
              max_events = (if max_events > eb_capacity buffer then eb_capacity buffer else max_events)
          in
            (case k_read_events K fd (max_events * sizeof_line_event) k of
               (Inl e, k) \<Rightarrow> (-1, Some buffer, set_errno e c, k)
             | (Inr (rd, evs), k) \<Rightarrow>
                 let raw = evs @ drop (length evs) (snd (eb_event_data buffer));
                     buffer = buffer\<lparr>eb_event_data := (fst (eb_event_data buffer), raw)\<rparr>
                 in
                   if rd mod 2 ^ 32 < sizeof_line_event then (-1, Some buffer, set_errno EIO c, k)
                   else
                     let buffer = buffer\<lparr>eb_num_events := rd div sizeof_line_event\<rparr>;
                         events = fold (\<lambda>i es. es[i := edge_event_of_uapi (raw ! i)])
                           [0..<eb_num_events buffer] (snd (eb_events buffer))
                     in (int (eb_num_events buffer),
                         Some (buffer\<lparr>eb_events := (fst (eb_events buffer), events)\<rparr>), c, k)))"

section \<open>Invariant and kernel contract\<close>

definition buffer_ok :: "gpiod_edge_event_buffer \<Rightarrow> bool" where
  "buffer_ok b \<longleftrightarrow> 0 < eb_capacity b \<and> eb_capacity b \<le> EVENT_BUFFER_MAX_CAPACITY
     \<and> length (snd (eb_events b)) = eb_capacity b \<and> length (snd (eb_event_data b)) = eb_capacity b
     \<and> eb_num_events b \<le> eb_capacity b"

text \<open>
  The kernel returns whole events, as many bytes as it stored, and no more than were asked for.
\<close>

definition read_contract :: "'k kernel \<Rightarrow> bool" where
  "read_contract K \<longleftrightarrow> (\<forall>fd n k rd evs k'. k_read_events K fd n k = (Inr (rd, evs), k') \<longrightarrow>
     rd = length evs * sizeof_line_event \<and> rd \<le> n)"

definition buffer_blocks :: "gpiod_edge_event_buffer obj \<Rightarrow> nat set" where
  "buffer_blocks b = {fst b, fst (eb_events (snd b)), fst (eb_event_data (snd b))}"

definition buffer_inv :: "gpiod_edge_event_buffer obj \<Rightarrow> bool" where
  "buffer_inv b \<longleftrightarrow> buffer_ok (snd b)
     \<and> distinct [fst b, fst (eb_events (snd b)), fst (eb_event_data (snd b))]"

lemma clamp_capacity_bounds:
  "0 < clamp_capacity n" "clamp_capacity n \<le> EVENT_BUFFER_MAX_CAPACITY"
  by (auto simp: clamp_capacity_def EVENT_BUFFER_MAX_CAPACITY_def uapi_limits Let_def)

lemma read_fd_error:
  assumes "gpiod_edge_event_buffer_read_fd K fd (Some b) m c k = (-1, Some b', c', k')" "buffer_ok b"
  shows "eb_num_events b' = eb_num_events b
    \<and> snd (eb_events b') = replicate (eb_capacity b) zero_edge_event"
  using assms
  by (auto simp: gpiod_edge_event_buffer_read_fd_def Let_def split: sum.splits prod.splits if_splits)

text \<open>The same function with the clamped request size named, and the updates flattened.\<close>

lemma read_fd_unfold:
  "gpiod_edge_event_buffer_read_fd K fd (Some b) m c k =
     (let z = b\<lparr>eb_event_data := (fst (eb_event_data b), replicate (eb_capacity b) zero_line_event),
            eb_events := (fst (eb_events b), replicate (eb_capacity b) zero_edge_event)\<rparr>
      in case k_read_events K fd (min m (eb_capacity b) * sizeof_line_event) k of
        (Inl e, k) \<Rightarrow> (-1, Some z, set_errno e c, k)
      | (Inr (rd, evs), k) \<Rightarrow>
          let raw = evs @ drop (length evs) (replicate (eb_capacity b) zero_line_event);
              z = z\<lparr>eb_event_data := (fst (eb_event_data b), raw)\<rparr>
          in if rd mod 2 ^ 32 < sizeof_line_event then (-1, Some z, set_errno EIO c, k)
             else (int (rd div sizeof_line_event),
               Some (z\<lparr>eb_num_events := rd div sizeof_line_event, eb_events := (fst (eb_events b),
                 fold (\<lambda>i es. es[i := edge_event_of_uapi (raw ! i)]) [0..<rd div sizeof_line_event]
                   (replicate (eb_capacity b) zero_edge_event))\<rparr>), c, k))"
  by (cases "eb_capacity b < m")
    (simp_all add: gpiod_edge_event_buffer_read_fd_def Let_def min_def split: prod.splits sum.splits)

lemma read_fd_cases:
  assumes kc: "read_contract K" and ok: "buffer_ok b"
    and r: "k_read_events K fd (min m (eb_capacity b) * sizeof_line_event) k = (r, k')"
  obtains
    (failed) e b' where "r = Inl e" "buffer_ok b'" "eb_num_events b' = eb_num_events b"
      "gpiod_edge_event_buffer_read_fd K fd (Some b) m c k = (-1, Some b', set_errno e c, k')"
  | (nothing) rd b' where "r = Inr (rd, [])" "buffer_ok b'" "eb_num_events b' = eb_num_events b"
      "gpiod_edge_event_buffer_read_fd K fd (Some b) m c k = (-1, Some b', set_errno EIO c, k')"
  | (events) rd evs b' where "r = Inr (rd, evs)" "evs \<noteq> []" "buffer_ok b'"
      "length evs \<le> min m (eb_capacity b)" "eb_num_events b' = length evs"
      "take (eb_num_events b') (snd (eb_events b')) = map edge_event_of_uapi evs"
      "gpiod_edge_event_buffer_read_fd K fd (Some b) m c k = (int (length evs), Some b', c, k')"
proof (cases r)
  case (Inl e)
  with r ok show ?thesis
    by (intro that(1) [of e]) (simp_all add: read_fd_unfold Let_def buffer_ok_def)
next
  case (Inr re)
  let ?m = "min m (eb_capacity b)"
  obtain rd evs where re: "re = (rd, evs)" by fastforce
  with kc r Inr have rd: "rd = length evs * sizeof_line_event" "rd \<le> ?m * sizeof_line_event"
    unfolding read_contract_def by blast+
  then have len: "length evs \<le> ?m" by (simp add: sizeof_line_event_def)
  have cap: "eb_capacity b \<le> 1024"
    using ok by (simp add: buffer_ok_def EVENT_BUFFER_MAX_CAPACITY_def uapi_limits)
  have small: "rd mod 2 ^ 32 < sizeof_line_event \<longleftrightarrow> evs = []"
    using rd(1) len cap by (cases evs) (auto simp: sizeof_line_event_def)
  have nth: "map (\<lambda>i. edge_event_of_uapi ((evs @ ys) ! i)) [0..<length evs] = map edge_event_of_uapi evs" for ys
    by (rule nth_equalityI) (auto simp: nth_append)
  have n: "rd div sizeof_line_event = length evs" by (simp add: rd(1) sizeof_line_event_def)
  show ?thesis
  proof (cases "evs = []")
    case True
    with r Inr re small ok show ?thesis
      by (intro that(2) [of rd]) (simp_all add: read_fd_unfold Let_def buffer_ok_def)
  next
    case False
    with r Inr re small ok len n show ?thesis
      by (intro that(3) [of rd evs])
        (simp_all add: read_fd_unfold Let_def buffer_ok_def fold_update_prefix nth)
  qed
qed

interpretation buffer_heap: heap_object "gpiod_edge_event_buffer_new capacity"
    "\<lambda>b. gpiod_edge_event_buffer_free (Some b)" buffer_blocks buffer_inv for capacity
proof
  let ?cap = "clamp_capacity capacity"
  fix c :: crt
  let ?c1 = "c\<lparr>nalloc := Suc (nalloc c), live := insert (nalloc c) (live c)\<rparr>"
  let ?c2 = "c\<lparr>nalloc := Suc (Suc (nalloc c)), live := insert (Suc (nalloc c)) (insert (nalloc c) (live c))\<rparr>"
  note new = gpiod_edge_event_buffer_new_def Let_def
  {
    fix c' assume "gpiod_edge_event_buffer_new capacity c = (None, c')" "heap_ok c"
    then show "heap_ok c' \<and> live c' = live c"
      by (cases rule: malloc_cases [of c];
          cases rule: malloc_obj_cases [of "replicate ?cap zero_edge_event" ?c1];
          cases rule: malloc_obj_cases [of "replicate ?cap zero_line_event" ?c2])
        (auto simp: new heap_ok_def less_Suc_eq free_obj_def)
  next
    fix b c' assume "gpiod_edge_event_buffer_new capacity c = (Some b, c')" "heap_ok c"
    then show "heap_ok c' \<and> live c' = live c \<union> buffer_blocks b \<and> live c \<inter> buffer_blocks b = {}
        \<and> buffer_inv b"
      using clamp_capacity_bounds [of capacity]
      by (cases rule: malloc_cases [of c];
          cases rule: malloc_obj_cases [of "replicate ?cap zero_edge_event" ?c1];
          cases rule: malloc_obj_cases [of "replicate ?cap zero_line_event" ?c2])
        (auto simp: new heap_ok_def less_Suc_eq buffer_blocks_def buffer_inv_def buffer_ok_def)
  next
    fix b assume "heap_ok c" "buffer_inv b" "buffer_blocks b \<subseteq> live c"
    then show "heap_ok (gpiod_edge_event_buffer_free (Some b) c)
        \<and> live (gpiod_edge_event_buffer_free (Some b) c) = live c - buffer_blocks b"
      by (auto simp: gpiod_edge_event_buffer_free_def free_obj_def buffer_blocks_def buffer_inv_def
          intro!: heap_ok_free)
  }
qed

section \<open>Properties\<close>

text \<open>A kernel state that holds the raw events still to be read.\<close>

definition event_kernel :: "gpio_v2_line_event list kernel" where
  "event_kernel = null_kernel\<lparr>k_read_events := (\<lambda>_ n k. if k = [] then (Inl EIO, k)
     else (let evs = take (n div sizeof_line_event) k
           in (Inr (length evs * sizeof_line_event, evs), drop (n div sizeof_line_event) k)))\<rparr>"

lemma event_kernel_contract: "read_contract event_kernel"
  by (auto simp: read_contract_def event_kernel_def sizeof_line_event_def Let_def split: if_splits)

definition sample_buffer :: gpiod_edge_event_buffer where
  "sample_buffer = snd (the (fst (gpiod_edge_event_buffer_new 4 crt_init)))"

lemma sample_buffer_ok: "buffer_ok sample_buffer" "eb_capacity sample_buffer = 4" "eb_num_events sample_buffer = 0"
  by code_simp+

text \<open>
  C9: Reading edge events.  A successful \<open>gpiod_edge_event_buffer_read_fd\<close> returns how many events
  the kernel delivered, never more than asked for nor more than the buffer holds; afterwards
  \<open>get_num_events\<close> is that number and \<open>get_event\<close> of each smaller index is the decoded kernel event of
  that index.
\<close>

theorem read_events_delivered:
  assumes kc: "read_contract K" and ok: "buffer_ok b"
    and read: "k_read_events K fd (min m (eb_capacity b) * sizeof_line_event) k = (Inr (rd, evs), k')"
    and some: "evs \<noteq> []"
  shows "\<exists>b'. gpiod_edge_event_buffer_read_fd K fd (Some b) m c k = (int (length evs), Some b', c, k')
    \<and> buffer_ok b' \<and> length evs \<le> m \<and> length evs \<le> gpiod_edge_event_buffer_get_capacity b
    \<and> gpiod_edge_event_buffer_get_num_events b' = length evs
    \<and> (\<forall>i c. gpiod_edge_event_buffer_get_event b' i c =
          (if i < length evs then (Some (edge_event_of_uapi (evs ! i)), c)
           else (None, set_errno EINVAL c)))"
proof (cases rule: read_fd_cases [OF kc ok read, of c, case_names failed nothing events])
  case (events rd' evs' b')
  then have evs: "evs' = evs" by simp
  have "snd (eb_events b') ! i = edge_event_of_uapi (evs ! i)" if "i < length evs" for i
  proof -
    have "snd (eb_events b') ! i = take (eb_num_events b') (snd (eb_events b')) ! i"
      using that events(5) evs by simp
    with that events(6) evs show ?thesis by simp
  qed
  with events evs show ?thesis
    by (auto simp: gpiod_edge_event_buffer_get_capacity_def gpiod_edge_event_buffer_get_num_events_def
        gpiod_edge_event_buffer_get_event_def)
qed (use some in simp_all)

theorem read_events_delivered_witness:
  "\<exists>b'. gpiod_edge_event_buffer_read_fd event_kernel 5 (Some sample_buffer) 3 crt_init
       [zero_line_event\<lparr>le_id := 1, le_offset := 8\<rparr>, zero_line_event\<lparr>le_id := 2\<rparr>]
     = (2, Some b', crt_init, [])
   \<and> fst (gpiod_edge_event_buffer_get_event b' 0 crt_init)
     = Some (edge_event_of_uapi (zero_line_event\<lparr>le_id := 1, le_offset := 8\<rparr>))"
  using read_events_delivered [OF event_kernel_contract sample_buffer_ok(1), of 5 3
      "[zero_line_event\<lparr>le_id := 1, le_offset := 8\<rparr>, zero_line_event\<lparr>le_id := 2\<rparr>]" 96
      "[zero_line_event\<lparr>le_id := 1, le_offset := 8\<rparr>, zero_line_event\<lparr>le_id := 2\<rparr>]" "[]" crt_init]
  by (auto simp: event_kernel_def sample_buffer_ok sizeof_line_event_def)

text \<open>
  C32: A failed read does not empty the buffer.  The stored events are cleared before the read and
  the event count is only written after it, so that after a failure \<open>get_num_events\<close> is still the
  count of the previous read and \<open>get_event\<close> returns zeroed events whose type is no enumerator.
\<close>

theorem failed_read_keeps_count:
  assumes "buffer_ok b"
    and "gpiod_edge_event_buffer_read_fd K fd (Some b) m c k = (-1, Some b', c', k')"
  shows "gpiod_edge_event_buffer_get_num_events b' = gpiod_edge_event_buffer_get_num_events b
    \<and> (\<forall>i < gpiod_edge_event_buffer_get_num_events b.
         fst (gpiod_edge_event_buffer_get_event b' i c') = Some zero_edge_event)"
  using read_fd_error [OF assms(2,1)] assms(1)
  by (auto simp: gpiod_edge_event_buffer_get_num_events_def gpiod_edge_event_buffer_get_event_def
      buffer_ok_def)

theorem failed_read_keeps_count_witness:
  "\<exists>b'. gpiod_edge_event_buffer_read_fd event_kernel 5
       (Some (sample_buffer\<lparr>eb_num_events := 1\<rparr>)) 3 crt_init [] = (-1, Some b', set_errno EIO crt_init, [])
     \<and> fst (gpiod_edge_event_buffer_get_event b' 0 crt_init) = Some zero_edge_event"
proof -
  let ?b = "sample_buffer\<lparr>eb_num_events := 1\<rparr>"
  have ok: "buffer_ok ?b" using sample_buffer_ok by (simp add: buffer_ok_def)
  obtain b' where run: "gpiod_edge_event_buffer_read_fd event_kernel 5 (Some ?b) 3 crt_init []
      = (-1, Some b', set_errno EIO crt_init, [])"
    by (simp add: read_fd_unfold event_kernel_def Let_def)
  from failed_read_keeps_count [OF ok run] run show ?thesis
    by (simp add: gpiod_edge_event_buffer_get_num_events_def gpiod_edge_event_buffer_get_event_def
        split: if_splits)
qed

text \<open>
  Event buffers and memory.  \<open>gpiod_edge_event_buffer_new\<close> gives a buffer with a capacity of 1
  to 1024 events (64 if none is asked for) in three fresh blocks, or fails leaving the heap as it
  was; \<open>gpiod_edge_event_buffer_free\<close> releases exactly these blocks.
\<close>

theorem buffer_new_free:
  assumes "heap_ok c" "gpiod_edge_event_buffer_new capacity c = (r, c')"
  shows "case r of
      None \<Rightarrow> heap_ok c' \<and> live c' = live c
    | Some b \<Rightarrow> buffer_ok (snd b) \<and> heap_ok c' \<and> card (buffer_blocks b) = 3
        \<and> live c' = live c \<union> buffer_blocks b \<and> live c \<inter> buffer_blocks b = {}
        \<and> gpiod_edge_event_buffer_get_capacity (snd b)
            = (if capacity = 0 then 64 else min capacity 1024)
        \<and> heap_ok (gpiod_edge_event_buffer_free (Some b) c')
        \<and> live (gpiod_edge_event_buffer_free (Some b) c') = live c"
proof (cases r)
  case None
  with assms buffer_heap.new_fail show ?thesis by simp
next
  case (Some b)
  then have new: "gpiod_edge_event_buffer_new capacity c = (Some b, c')" using assms(2) by simp
  have "eb_capacity (snd b) = clamp_capacity capacity"
    using new by (auto simp: gpiod_edge_event_buffer_new_def Let_def split: option.splits prod.splits)
  moreover have "card (buffer_blocks b) = 3" if "buffer_inv b"
    using that by (auto simp: buffer_inv_def buffer_blocks_def card_insert_if)
  ultimately show ?thesis
    using Some buffer_heap.new_ok [OF new assms(1)] buffer_heap.new_then_release [OF assms(1) new]
    by (simp add: buffer_inv_def gpiod_edge_event_buffer_get_capacity_def clamp_capacity_def
        EVENT_BUFFER_MAX_CAPACITY_def uapi_limits Let_def min_def)
qed

theorem buffer_new_free_witness:
  "\<exists>b c'. gpiod_edge_event_buffer_new 5000 crt_init = (Some b, c')
     \<and> gpiod_edge_event_buffer_get_capacity (snd b) = 1024 \<and> live c' = buffer_blocks b"
proof -
  obtain r c' where new: "gpiod_edge_event_buffer_new 5000 crt_init = (r, c')" by (rule prod.exhaust)
  then have "r \<noteq> None"
    by (auto simp: gpiod_edge_event_buffer_new_def Let_def malloc_obj_def malloc_def crt_init_def)
  moreover have "live crt_init = {}" by (simp add: crt_init_def)
  ultimately show ?thesis using buffer_new_free [OF heap_ok_crt_init new] new by auto
qed

end
