(* ===== verification/Line_Request.thy ===== *)
theory Line_Request
  imports Line_Config_Uapi Edge_Event
begin

text \<open>
  \<open>lib/line-request.c\<close>: an open line request.  Reading and writing line values goes through two
  64-bit masks whose bit \<open>i\<close> stands for the \<open>i\<close>-th requested offset.

  The kernel's answers are parameters; \<open>values_contract\<close> is the documented behaviour of its
  value ioctls, under which a write is read back.
\<close>

section \<open>The object\<close>

record gpiod_line_request =
  req_chip_name :: "string obj"
  req_offsets :: "u32 list"
  req_num_lines :: nat
  req_fd :: int

text \<open>\<open>memcpy\<close> of the first \<open>n\<close> elements of an array.\<close>

definition memcpy :: "'a list \<Rightarrow> 'a list \<Rightarrow> nat \<Rightarrow> 'a list" where
  "memcpy dst src n = take n src @ drop n dst"

definition gpiod_line_request_from_uapi ::
    "gpio_v2_line_request \<Rightarrow> string \<Rightarrow> crt \<Rightarrow> gpiod_line_request obj option \<times> crt" where
  "gpiod_line_request_from_uapi uapi_req chip_name c =
     (case malloc c of
        (None, c) \<Rightarrow> (None, c)
      | (Some request, c) \<Rightarrow>
          (case strdup chip_name c of
             (None, c) \<Rightarrow> (None, free request c)
           | (Some name, c) \<Rightarrow>
               (Some (request, \<lparr>req_chip_name = name,
                  req_offsets = memcpy (replicate GPIO_V2_LINES_MAX 0) (lr_offsets uapi_req)
                    (unat (lr_num_lines uapi_req)),
                  req_num_lines = unat (lr_num_lines uapi_req), req_fd = lr_fd uapi_req\<rparr>), c)))"

definition gpiod_line_request_release ::
    "'k kernel \<Rightarrow> gpiod_line_request obj option \<Rightarrow> crt \<Rightarrow> 'k \<Rightarrow> crt \<times> 'k" where
  "gpiod_line_request_release K request c k =
     (case request of
        None \<Rightarrow> (c, k)
      | Some r \<Rightarrow> (free_obj r (free_obj (req_chip_name (snd r)) c), k_close K (req_fd (snd r)) k))"

definition gpiod_line_request_get_chip_name :: "gpiod_line_request \<Rightarrow> string" where
  "gpiod_line_request_get_chip_name request = snd (req_chip_name request)"

definition gpiod_line_request_get_num_requested_lines :: "gpiod_line_request \<Rightarrow> nat" where
  "gpiod_line_request_get_num_requested_lines request = req_num_lines request"

definition gpiod_line_request_get_requested_offsets ::
    "gpiod_line_request \<Rightarrow> u32 list option \<Rightarrow> nat \<Rightarrow> nat \<times> u32 list option" where
  "gpiod_line_request_get_requested_offsets request offsets max_offsets =
     (case offsets of
        None \<Rightarrow> (0, None)
      | Some buf \<Rightarrow>
          if max_offsets = 0 then (0, Some buf)
          else let num_offsets = min (req_num_lines request) max_offsets
               in (num_offsets, Some (memcpy buf (req_offsets request) num_offsets)))"

section \<open>Values\<close>

definition offset_to_bit :: "gpiod_line_request \<Rightarrow> u32 \<Rightarrow> int" where
  "offset_to_bit request offset =
     (case find (\<lambda>i. offset = req_offsets request ! i) [0..<req_num_lines request] of
        Some i \<Rightarrow> int i
      | None \<Rightarrow> -1)"

text \<open>The first loop of a read: the mask, or \<open>None\<close> where the function returns \<open>-1\<close>.\<close>

fun subset_mask :: "gpiod_line_request \<Rightarrow> u32 list \<Rightarrow> u64 \<Rightarrow> u64 option" where
  "subset_mask request [] m = Some m"
| "subset_mask request (offset # offsets) m =
     (let b = offset_to_bit request offset
      in if b < 0 then None else subset_mask request offsets (gpiod_line_mask_set_bit m (nat b)))"

text \<open>
  \<open>num_values\<close> is the length of the offset array.  The values array is given by its contents; the
  entries from \<open>num_values\<close> on stay.
\<close>

definition gpiod_line_request_get_values_subset ::
    "'k kernel \<Rightarrow> gpiod_line_request \<Rightarrow> u32 list option \<Rightarrow> gpiod_line_value list option \<Rightarrow> crt \<Rightarrow> 'k
      \<Rightarrow> int \<times> gpiod_line_value list option \<times> crt \<times> 'k" where
  "gpiod_line_request_get_values_subset K request offsets values c k =
     (case (offsets, values) of
        (Some offsets, Some values) \<Rightarrow>
          (case subset_mask request offsets 0 of
             None \<Rightarrow> (-1, Some values, set_errno EINVAL c, k)
           | Some m \<Rightarrow>
               (case k_get_values K (req_fd request) \<lparr>lv_bits = 0, lv_mask = m\<rparr> k of
                  (Inl e, k) \<Rightarrow> (-1, Some values, set_errno e c, k)
                | (Inr (ret, uapi_values), k) \<Rightarrow>
                    if ret \<noteq> 0 then (-1, Some values, c, k)
                    else
                      let bits = lv_bits uapi_values;
                          vs = map (\<lambda>offset.
                            if gpiod_line_mask_test_bit bits (nat (offset_to_bit request offset))
                            then GPIOD_LINE_VALUE_ACTIVE else GPIOD_LINE_VALUE_INACTIVE) offsets
                      in (0, Some (vs @ drop (length offsets) values), c, k)))
      | _ \<Rightarrow> (-1, values, set_errno EINVAL c, k))"

definition gpiod_line_request_get_value ::
    "'k kernel \<Rightarrow> gpiod_line_request \<Rightarrow> u32 \<Rightarrow> crt \<Rightarrow> 'k \<Rightarrow> gpiod_line_value \<times> crt \<times> 'k" where
  "gpiod_line_request_get_value K request offset c k =
     (case gpiod_line_request_get_values_subset K request (Some [offset])
             (Some [GPIOD_LINE_VALUE_INACTIVE]) c k of
        (ret, values, c, k) \<Rightarrow>
          if ret \<noteq> 0 then (GPIOD_LINE_VALUE_ERROR, c, k) else (hd (the values), c, k))"

definition gpiod_line_request_get_values ::
    "'k kernel \<Rightarrow> gpiod_line_request \<Rightarrow> gpiod_line_value list option \<Rightarrow> crt \<Rightarrow> 'k
      \<Rightarrow> int \<times> gpiod_line_value list option \<times> crt \<times> 'k" where
  "gpiod_line_request_get_values K request values c k =
     gpiod_line_request_get_values_subset K request
       (Some (take (req_num_lines request) (req_offsets request))) values c k"

text \<open>The loop of a write: mask and bits; a value is converted to \<open>bool\<close>.\<close>

fun subset_bits :: "gpiod_line_request \<Rightarrow> (u32 \<times> gpiod_line_value) list \<Rightarrow> u64 \<Rightarrow> u64
    \<Rightarrow> (u64 \<times> u64) option" where
  "subset_bits request [] m bits = Some (m, bits)"
| "subset_bits request ((offset, val) # rest) m bits =
     (let b = offset_to_bit request offset
      in if b < 0 then None
         else subset_bits request rest (gpiod_line_mask_set_bit m (nat b))
                (gpiod_line_mask_assign_bit bits (nat b) (line_value_bool val)))"

definition gpiod_line_request_set_values_subset ::
    "'k kernel \<Rightarrow> gpiod_line_request \<Rightarrow> u32 list option \<Rightarrow> gpiod_line_value list option \<Rightarrow> crt \<Rightarrow> 'k
      \<Rightarrow> int \<times> crt \<times> 'k" where
  "gpiod_line_request_set_values_subset K request offsets values c k =
     (case (offsets, values) of
        (Some offsets, Some values) \<Rightarrow>
          (case subset_bits request (zip offsets values) 0 0 of
             None \<Rightarrow> (-1, set_errno EINVAL c, k)
           | Some (m, bits) \<Rightarrow>
               (case k_set_values K (req_fd request) \<lparr>lv_bits = bits, lv_mask = m\<rparr> k of
                  (Inl e, k) \<Rightarrow> (-1, set_errno e c, k)
                | (Inr ret, k) \<Rightarrow> (int ret, c, k)))
      | _ \<Rightarrow> (-1, set_errno EINVAL c, k))"

definition gpiod_line_request_set_value ::
    "'k kernel \<Rightarrow> gpiod_line_request \<Rightarrow> u32 \<Rightarrow> gpiod_line_value \<Rightarrow> crt \<Rightarrow> 'k \<Rightarrow> int \<times> crt \<times> 'k" where
  "gpiod_line_request_set_value K request offset val c k =
     gpiod_line_request_set_values_subset K request (Some [offset]) (Some [val]) c k"

definition gpiod_line_request_set_values ::
    "'k kernel \<Rightarrow> gpiod_line_request \<Rightarrow> gpiod_line_value list option \<Rightarrow> crt \<Rightarrow> 'k \<Rightarrow> int \<times> crt \<times> 'k" where
  "gpiod_line_request_set_values K request values c k =
     gpiod_line_request_set_values_subset K request
       (Some (take (req_num_lines request) (req_offsets request))) values c k"

section \<open>Reconfiguration\<close>

definition offsets_equal :: "gpiod_line_request \<Rightarrow> gpio_v2_line_request \<Rightarrow> bool" where
  "offsets_equal request uapi_cfg =
     (if req_num_lines request \<noteq> unat (lr_num_lines uapi_cfg) then False
      else list_all (\<lambda>i. req_offsets request ! i = lr_offsets uapi_cfg ! i) [0..<req_num_lines request])"

definition gpiod_line_request_reconfigure_lines ::
    "'k kernel \<Rightarrow> gpiod_line_request \<Rightarrow> gpiod_line_config option \<Rightarrow> crt \<Rightarrow> 'k \<Rightarrow> int \<times> crt \<times> 'k" where
  "gpiod_line_request_reconfigure_lines K request config c k =
     (case config of
        None \<Rightarrow> (-1, set_errno EINVAL c, k)
      | Some config \<Rightarrow>
          (case gpiod_line_config_to_uapi config zero_line_request c of
             (ret, uapi_cfg, c) \<Rightarrow>
               if ret \<noteq> 0 then (ret, c, k)
               else if \<not> offsets_equal request uapi_cfg then (-1, set_errno EINVAL c, k)
               else
                 (case k_set_config K (req_fd request) (lr_config uapi_cfg) k of
                    (Inl e, k) \<Rightarrow> (-1, set_errno e c, k)
                  | (Inr ret, k) \<Rightarrow> if ret \<noteq> 0 then (int ret, c, k) else (0, c, k))))"

section \<open>Events\<close>

definition gpiod_line_request_get_fd :: "gpiod_line_request \<Rightarrow> int" where
  "gpiod_line_request_get_fd request = req_fd request"

definition gpiod_line_request_wait_edge_events ::
    "'k kernel \<Rightarrow> gpiod_line_request \<Rightarrow> int \<Rightarrow> crt \<Rightarrow> 'k \<Rightarrow> int \<times> crt \<times> 'k" where
  "gpiod_line_request_wait_edge_events K request timeout_ns c k =
     gpiod_poll_fd K (req_fd request) timeout_ns c k"

definition gpiod_line_request_read_edge_events ::
    "'k kernel \<Rightarrow> gpiod_line_request \<Rightarrow> gpiod_edge_event_buffer option \<Rightarrow> nat \<Rightarrow> crt \<Rightarrow> 'k
      \<Rightarrow> int \<times> gpiod_edge_event_buffer option \<times> crt \<times> 'k" where
  "gpiod_line_request_read_edge_events K request buffer max_events c k =
     gpiod_edge_event_buffer_read_fd K (req_fd request) buffer max_events c k"

section \<open>Invariant and kernel contract\<close>

definition request_ok :: "gpiod_line_request \<Rightarrow> bool" where
  "request_ok request \<longleftrightarrow> req_num_lines request \<le> GPIO_V2_LINES_MAX
     \<and> length (req_offsets request) = GPIO_V2_LINES_MAX
     \<and> distinct (take (req_num_lines request) (req_offsets request))"

definition requested :: "gpiod_line_request \<Rightarrow> u32 set" where
  "requested request = set (take (req_num_lines request) (req_offsets request))"

text \<open>
  The value ioctls as the ABI documents them, for a state in which \<open>lv k fd i\<close> is the value of the
  \<open>i\<close>-th line of a request: a write changes the lines in its mask to the given bits, a read returns
  the values of the lines in its mask and changes nothing.
\<close>

definition values_contract :: "'k kernel \<Rightarrow> ('k \<Rightarrow> int \<Rightarrow> nat \<Rightarrow> bool) \<Rightarrow> bool" where
  "values_contract K lv \<longleftrightarrow>
     (\<forall>fd v k r k'. k_set_values K fd v k = (Inr r, k') \<longrightarrow>
        (\<forall>i < 64. lv k' fd i = (if bit (lv_mask v) i then bit (lv_bits v) i else lv k fd i)))
     \<and> (\<forall>fd v k r v' k'. k_get_values K fd v k = (Inr (r, v'), k') \<longrightarrow>
        lv k' = lv k \<and> (\<forall>i < 64. bit (lv_mask v) i \<longrightarrow> bit (lv_bits v') i = lv k fd i))"

section \<open>Lemmas\<close>

lemma offset_to_bit_cases:
  assumes "request_ok request"
  obtains (hit) i where "i < req_num_lines request" "i < 64" "req_offsets request ! i = offset"
      "offset_to_bit request offset = int i" "offset \<in> requested request"
  | (miss) "offset \<notin> requested request" "offset_to_bit request offset = -1"
proof (cases "find (\<lambda>i. offset = req_offsets request ! i) [0..<req_num_lines request]")
  case None
  then have "offset \<notin> requested request" using assms
    by (auto simp: find_upt_None requested_def request_ok_def in_set_conv_nth)
  with None show ?thesis by (intro that(2)) (auto simp: offset_to_bit_def)
next
  case (Some i)
  then have i: "i < req_num_lines request" "req_offsets request ! i = offset"
    by (auto simp: find_upt_Some)
  then have "offset \<in> requested request" using assms
    by (auto simp: requested_def request_ok_def uapi_limits in_set_conv_nth intro!: exI [of _ i])
  with Some i assms show ?thesis
    by (intro that(1) [of i]) (auto simp: offset_to_bit_def request_ok_def uapi_limits)
qed

lemma offset_to_bit_nonneg:
  assumes "request_ok request"
  shows "0 \<le> offset_to_bit request offset \<longleftrightarrow> offset \<in> requested request"
    and "nat (offset_to_bit request offset) < 64"
  using assms by (cases rule: offset_to_bit_cases [of request offset]; simp)+

text \<open>Different requested offsets have different bits.\<close>

lemma offset_to_bit_inj:
  assumes "request_ok request" "o1 \<in> requested request" "o2 \<in> requested request"
    and "offset_to_bit request o1 = offset_to_bit request o2"
  shows "o1 = o2"
  using assms
  by (cases rule: offset_to_bit_cases [of request o1]; cases rule: offset_to_bit_cases [of request o2]) auto

lemma subset_mask_run:
  assumes "request_ok request"
  shows "subset_mask request offsets m =
    (if set offsets \<subseteq> requested request
     then Some (fold (\<lambda>i m. gpiod_line_mask_set_bit m i)
            (map (\<lambda>off. nat (offset_to_bit request off)) offsets) m)
     else None)"
  by (induction offsets arbitrary: m)
    (auto simp: Let_def offset_to_bit_nonneg(1) [OF assms, symmetric] not_less)

lemma subset_bits_run:
  assumes "request_ok request"
  shows "subset_bits request ovs m bits =
    (if fst ` set ovs \<subseteq> requested request
     then Some (fold (\<lambda>i m. gpiod_line_mask_set_bit m i)
                  (map (\<lambda>ov. nat (offset_to_bit request (fst ov))) ovs) m,
                fold (\<lambda>(i, v) m. gpiod_line_mask_assign_bit m i v)
                  (map (\<lambda>ov. (nat (offset_to_bit request (fst ov)), line_value_bool (snd ov))) ovs) bits)
     else None)"
proof (induction ovs arbitrary: m bits)
  case (Cons ov ovs)
  then show ?case
    by (cases ov) (auto simp: Let_def offset_to_bit_nonneg(1) [OF assms, symmetric] not_less)
qed simp

lemma subset_mask_bit:
  assumes "request_ok request" "subset_mask request offsets 0 = Some m" "off \<in> set offsets"
  shows "bit m (nat (offset_to_bit request off))"
proof -
  have "gpiod_line_mask_test_bit m (nat (offset_to_bit request off))"
    using assms mask.test_fold_set_all [of "map (\<lambda>off. nat (offset_to_bit request off)) offsets" 0]
    by (auto simp: subset_mask_run offset_to_bit_nonneg(2) split: if_splits)
  then show ?thesis by (simp add: mask_test_bit_eq)
qed

definition value_of_bool :: "bool \<Rightarrow> gpiod_line_value" where
  "value_of_bool b = (if b then GPIOD_LINE_VALUE_ACTIVE else GPIOD_LINE_VALUE_INACTIVE)"

text \<open>What a read returns, in terms of the line values the contract speaks of.\<close>

lemma get_values_subset_run:
  assumes ok: "request_ok request" and kc: "values_contract K lv"
    and sub: "set offsets \<subseteq> requested request" and m: "subset_mask request offsets 0 = Some m"
    and get: "k_get_values K (req_fd request) \<lparr>lv_bits = 0, lv_mask = m\<rparr> k = (Inr (0, uv), k')"
  shows "gpiod_line_request_get_values_subset K request (Some offsets) (Some values) c k =
    (0, Some (map (\<lambda>off. value_of_bool (lv k (req_fd request) (nat (offset_to_bit request off)))) offsets
       @ drop (length offsets) values), c, k')"
proof -
  have "gpiod_line_mask_test_bit (lv_bits uv) (nat (offset_to_bit request off))
      = lv k (req_fd request) (nat (offset_to_bit request off))" if "off \<in> set offsets" for off
  proof -
    have "bit m (nat (offset_to_bit request off))" by (rule subset_mask_bit [OF ok m that])
    with kc get show ?thesis
      using offset_to_bit_nonneg(2) [OF ok, of off]
      by (simp add: values_contract_def mask_test_bit_eq)
  qed
  with m get show ?thesis
    by (simp add: gpiod_line_request_get_values_subset_def Let_def value_of_bool_def)
qed

lemma map_of_map_inj:
  assumes "inj_on f (insert k (fst ` set xs))"
  shows "map_of (map (\<lambda>x. (f (fst x), g (snd x))) xs) (f k) = map_option g (map_of xs k)"
  using assms
proof (induction xs)
  case (Cons x xs)
  then show ?case by (cases x) (auto simp: inj_on_def)
qed simp

text \<open>What a successful write leaves behind: the last value written to an offset.\<close>

lemma set_values_effect:
  assumes ok: "request_ok request" and kc: "values_contract K lv"
    and sub: "set offsets \<subseteq> requested request" and len: "length values = length offsets"
    and bits: "subset_bits request (zip offsets values) 0 0 = Some (m, bits)"
    and set: "k_set_values K (req_fd request) \<lparr>lv_bits = bits, lv_mask = m\<rparr> k = (Inr r, k')"
    and off: "off \<in> requested request"
  shows "lv k' (req_fd request) (nat (offset_to_bit request off)) =
    (case map_of (rev (zip offsets values)) off of
       Some v \<Rightarrow> line_value_bool v
     | None \<Rightarrow> lv k (req_fd request) (nat (offset_to_bit request off)))"
proof -
  let ?nr = "\<lambda>off. nat (offset_to_bit request off)"
  let ?ovs = "zip offsets values"
  have fsts: "fst ` set ?ovs \<subseteq> requested request" using sub by (auto dest: set_zip_leftD)
  have nr64: "?nr x < 64" for x by (rule offset_to_bit_nonneg(2) [OF ok])
  have inj: "inj_on ?nr (requested request)"
  proof (rule inj_onI)
    fix x y assume xy: "x \<in> requested request" "y \<in> requested request" "?nr x = ?nr y"
    then have "offset_to_bit request x = offset_to_bit request y"
      using offset_to_bit_nonneg(1) [OF ok] by (metis eq_nat_nat_iff)
    with xy show "x = y" using offset_to_bit_inj [OF ok] by blast
  qed
  have parts: "m = fold (\<lambda>i m. gpiod_line_mask_set_bit m i) (map (\<lambda>ov. ?nr (fst ov)) ?ovs) 0"
    "bits = fold (\<lambda>(i, v) m. gpiod_line_mask_assign_bit m i v)
       (map (\<lambda>ov. (?nr (fst ov), line_value_bool (snd ov))) ?ovs) 0"
    using bits fsts by (simp_all add: subset_bits_run [OF ok])
  have m_bit: "bit m (?nr off) \<longleftrightarrow> off \<in> fst ` set ?ovs"
  proof -
    have "gpiod_line_mask_test_bit m (?nr off) \<longleftrightarrow> ?nr off \<in> set (map (\<lambda>ov. ?nr (fst ov)) ?ovs)"
      unfolding parts(1) using nr64 by (subst mask.test_fold_set_all) (auto simp: mask_test_bit_eq)
    also have "set (map (\<lambda>ov. ?nr (fst ov)) ?ovs) = ?nr ` fst ` set ?ovs"
      by (simp add: image_image)
    also have "?nr off \<in> ?nr ` fst ` set ?ovs \<longleftrightarrow> off \<in> fst ` set ?ovs"
      by (rule inj_on_image_mem_iff [OF inj off fsts])
    finally show ?thesis by (simp add: mask_test_bit_eq)
  qed
  have bits_bit: "bit bits (?nr off) =
      (case map_of (rev ?ovs) off of Some v \<Rightarrow> line_value_bool v | None \<Rightarrow> False)"
  proof -
    have "gpiod_line_mask_test_bit bits (?nr off) =
        (case map_of (map (\<lambda>ov. (?nr (fst ov), line_value_bool (snd ov))) (rev ?ovs)) (?nr off) of
           Some v \<Rightarrow> v | None \<Rightarrow> False)"
      unfolding parts(2) using nr64
      by (subst mask.test_fold_assign) (auto simp: mask_test_bit_eq rev_map split: option.splits)
    also have "map_of (map (\<lambda>ov. (?nr (fst ov), line_value_bool (snd ov))) (rev ?ovs)) (?nr off)
        = map_option line_value_bool (map_of (rev ?ovs) off)"
      by (rule map_of_map_inj, rule inj_on_subset [OF inj]) (use fsts off in auto)
    finally show ?thesis by (simp add: mask_test_bit_eq split: option.splits)
  qed
  have "map_of (rev ?ovs) off = None \<longleftrightarrow> off \<notin> fst ` set ?ovs"
    by (simp add: map_of_eq_None_iff)
  moreover have "lv k' (req_fd request) (?nr off) =
      (if bit m (?nr off) then bit bits (?nr off) else lv k (req_fd request) (?nr off))"
    using conjunct1 [OF kc [unfolded values_contract_def], rule_format, OF set nr64] by simp
  ultimately show ?thesis
    by (auto simp: m_bit bits_bit split: option.splits)
qed

lemma offsets_equal_iff:
  assumes "request_ok request" "length (lr_offsets u) = 64"
  shows "offsets_equal request u \<longleftrightarrow>
    take (req_num_lines request) (req_offsets request)
      = take (unat (lr_num_lines u)) (lr_offsets u) \<and> req_num_lines request = unat (lr_num_lines u)"
  using assms
  by (auto simp: offsets_equal_def list_all_iff request_ok_def uapi_limits list_eq_iff_nth_eq)

section \<open>Properties\<close>

text \<open>From here on the two loops are used through their closed forms.\<close>

declare subset_mask.simps [simp del] subset_bits.simps [simp del]

lemma get_values_subset_error:
  "fst (gpiod_line_request_get_values_subset K request (Some offsets) (Some values) c k) \<in> {0, -1}"
  by (auto simp: gpiod_line_request_get_values_subset_def Let_def split: option.splits sum.splits prod.splits)

lemma get_value_run:
  assumes ok: "request_ok request" and kc: "values_contract K lv" and off: "off \<in> requested request"
    and get: "gpiod_line_request_get_value K request off c k = (v, c', k')" "v \<noteq> GPIOD_LINE_VALUE_ERROR"
  shows "v = value_of_bool (lv k (req_fd request) (nat (offset_to_bit request off)))"
proof -
  obtain m where m: "subset_mask request [off] 0 = Some m"
    using off by (simp add: subset_mask_run [OF ok])
  obtain x k1 where io: "k_get_values K (req_fd request) \<lparr>lv_bits = 0, lv_mask = m\<rparr> k = (x, k1)" by fastforce
  note unf = gpiod_line_request_get_value_def gpiod_line_request_get_values_subset_def m io
  obtain uv where x: "x = Inr (0, uv)"
  proof (cases x)
    case (Inl e)
    with get show ?thesis by (simp add: unf)
  next
    case (Inr ru)
    with get that [of "snd ru"] show ?thesis by (cases ru; cases "fst ru = 0") (simp_all add: unf)
  qed
  have "set [off] \<subseteq> requested request" using off by simp
  from get_values_subset_run [OF ok kc this m io [unfolded x], of "[GPIOD_LINE_VALUE_INACTIVE]" c] get
  show ?thesis by (simp add: gpiod_line_request_get_value_def)
qed

text \<open>A read of all values asks for one bit for each requested line, in their order, and returns these bits.\<close>

lemma offset_to_bit_nth:
  assumes ok: "request_ok request" and j: "j < req_num_lines request"
  shows "offset_to_bit request (req_offsets request ! j) = int j"
proof (cases rule: offset_to_bit_cases [OF ok, of "req_offsets request ! j"])
  case (1 i)
  let ?offs = "take (req_num_lines request) (req_offsets request)"
  have "?offs ! i = ?offs ! j" "i < length ?offs" "j < length ?offs" "distinct ?offs"
    using 1 j ok by (simp_all add: request_ok_def uapi_limits)
  then have "i = j" using nth_eq_iff_index_eq by blast
  with 1 show ?thesis by simp
next
  case 2
  have "req_offsets request ! j \<in> requested request"
    using ok j unfolding requested_def by (intro in_set_conv_nth [THEN iffD2] exI [of _ j])
      (simp add: request_ok_def uapi_limits)
  with 2 show ?thesis by simp
qed

lemma all_lines_mask:
  assumes ok: "request_ok request"
  shows "subset_mask request (take (req_num_lines request) (req_offsets request)) 0 = Some (mask (req_num_lines request))"
proof -
  let ?n = "req_num_lines request" and ?offs = "take (req_num_lines request) (req_offsets request)"
  have n: "?n \<le> 64" "length ?offs = ?n" using ok by (simp_all add: request_ok_def uapi_limits)
  have bits: "map (\<lambda>off. nat (offset_to_bit request off)) ?offs = [0..<?n]"
    using n by (intro nth_equalityI) (simp_all add: offset_to_bit_nth [OF ok])
  have "fold (\<lambda>i m. gpiod_line_mask_set_bit m i) [0..<?n] 0 = (mask ?n :: u64)"
  proof (rule bit_eqI)
    fix i
    assume "possible_bit TYPE(64 word) i"
    then have i: "i < 64" by simp
    have "gpiod_line_mask_test_bit (fold (\<lambda>i m. gpiod_line_mask_set_bit m i) [0..<?n] 0) i
        \<longleftrightarrow> gpiod_line_mask_test_bit 0 i \<or> i \<in> set [0..<?n]"
      by (rule mask.test_fold_set_all) (use n in auto)
    with i show "bit (fold (\<lambda>i m. gpiod_line_mask_set_bit m i) [0..<?n] 0) i = bit (mask ?n :: u64) i"
      by (simp add: mask_test_bit_eq bit_mask_iff)
  qed
  with bits show ?thesis unfolding subset_mask_run [OF ok] by (simp add: requested_def)
qed

lemma get_values_answer:
  assumes ok: "request_ok request" and n: "req_num_lines request = n"
    and run: "gpiod_line_request_get_values K request (Some vals) c k = (0, vals', c', k')"
  shows "\<exists>ans. k_get_values K (req_fd request) \<lparr>lv_bits = 0, lv_mask = mask n\<rparr> k = (Inr (0, ans), k')
    \<and> vals' = Some (map (\<lambda>j. value_of_bool (bit (lv_bits ans) j)) [0..<n] @ drop n vals)"
proof -
  let ?offs = "take (req_num_lines request) (req_offsets request)"
  obtain x k1 where io: "k_get_values K (req_fd request) \<lparr>lv_bits = 0, lv_mask = mask n\<rparr> k = (x, k1)" by fastforce
  note unf = gpiod_line_request_get_values_def gpiod_line_request_get_values_subset_def
    all_lines_mask [OF ok, unfolded n] n io
  from run obtain ret ans where x: "x = Inr (ret, ans)" by (cases x) (auto simp: unf)
  with run have ret: "ret = 0" by (cases "ret = 0") (simp_all add: unf)
  have len: "length ?offs = n" using ok n by (simp add: request_ok_def uapi_limits)
  have "map (\<lambda>off. if gpiod_line_mask_test_bit (lv_bits ans) (nat (offset_to_bit request off))
      then GPIOD_LINE_VALUE_ACTIVE else GPIOD_LINE_VALUE_INACTIVE) ?offs
    = map (\<lambda>j. value_of_bool (bit (lv_bits ans) j)) [0..<n]"
  proof (rule nth_equalityI)
    fix j
    assume "j < length (map (\<lambda>off. if gpiod_line_mask_test_bit (lv_bits ans) (nat (offset_to_bit request off))
      then GPIOD_LINE_VALUE_ACTIVE else GPIOD_LINE_VALUE_INACTIVE) ?offs)"
    then have j: "j < n" unfolding length_map len .
    then have "offset_to_bit request (?offs ! j) = int j" using offset_to_bit_nth [OF ok] n by simp
    moreover have "j < 64" using j n ok by (simp add: request_ok_def uapi_limits)
    ultimately show "map (\<lambda>off. if gpiod_line_mask_test_bit (lv_bits ans) (nat (offset_to_bit request off))
      then GPIOD_LINE_VALUE_ACTIVE else GPIOD_LINE_VALUE_INACTIVE) ?offs ! j
      = map (\<lambda>j. value_of_bool (bit (lv_bits ans) j)) [0..<n] ! j"
      using j len by (simp add: mask_test_bit_eq value_of_bool_def)
  qed (use len in simp)
  with run x ret len show ?thesis by (auto simp: unf)
qed

text \<open>A kernel that keeps the values of the lines of each descriptor.\<close>

definition value_kernel :: "(int \<Rightarrow> nat \<Rightarrow> bool) kernel" where
  "value_kernel = null_kernel\<lparr>
     k_set_values := (\<lambda>fd v k. (Inr 0, k(fd := \<lambda>i. if bit (lv_mask v) i then bit (lv_bits v) i else k fd i))),
     k_get_values := (\<lambda>fd v k. (Inr (0, v\<lparr>lv_bits := horner_sum of_bool 2 (map (k fd) [0..<64])\<rparr>), k))\<rparr>"

lemma value_kernel_contract: "values_contract value_kernel (\<lambda>k. k)"
  by (auto simp: values_contract_def value_kernel_def bit_horner_sum_bit_iff)

definition sample_request :: gpiod_line_request where
  "sample_request = \<lparr>req_chip_name = (1, ''gpiochip0''), req_offsets = [4, 7, 9] @ replicate 61 0,
     req_num_lines = 3, req_fd = 6\<rparr>"

lemma sample_request_ok: "request_ok sample_request" "requested sample_request = {4, 7, 9}"
  by (simp_all add: request_ok_def requested_def sample_request_def uapi_limits)

lemma set_values_lv:
  assumes ok: "request_ok request" and kc: "values_contract K lv"
    and len: "length values = length offsets"
    and set: "gpiod_line_request_set_values_subset K request (Some offsets) (Some values) c k = (ret, c1, k1)"
      "0 \<le> ret"
    and off: "off \<in> requested request"
  shows "lv k1 (req_fd request) (nat (offset_to_bit request off)) =
      (case map_of (rev (zip offsets values)) off of Some v \<Rightarrow> line_value_bool v
       | None \<Rightarrow> lv k (req_fd request) (nat (offset_to_bit request off)))"
proof -
  note unf = gpiod_line_request_set_values_subset_def
  obtain m bits where mb: "subset_bits request (zip offsets values) 0 0 = Some (m, bits)"
    using set by (cases "subset_bits request (zip offsets values) 0 0") (auto simp: unf)
  then have "fst ` set (zip offsets values) \<subseteq> requested request"
    by (simp add: subset_bits_run [OF ok] split: if_splits)
  moreover have "fst ` set (zip offsets values) = set offsets"
    using len by (metis list.set_map map_fst_zip)
  ultimately have sub: "set offsets \<subseteq> requested request" by simp
  obtain x k' where io: "k_set_values K (req_fd request) \<lparr>lv_bits = bits, lv_mask = m\<rparr> k = (x, k')" by fastforce
  then obtain r where x: "x = Inr r" and k': "k' = k1"
    using set by (cases x) (auto simp: unf mb)
  show ?thesis
    by (rule set_values_effect [OF ok kc sub len mb _ off]) (use io x k' in simp)
qed

text \<open>
  C5: Written values are read back.  After a successful \<open>gpiod_line_request_set_values_subset\<close>, under
  a kernel that stores the lines in the mask and reports what is stored, \<open>gpiod_line_request_get_value\<close>
  returns for each written offset the value written last (any non-zero value reads as active) and
  for every other line of the request its old value.
\<close>

theorem set_then_get_value:
  assumes ok: "request_ok request" and kc: "values_contract K lv"
    and len: "length values = length offsets"
    and set: "gpiod_line_request_set_values_subset K request (Some offsets) (Some values) c k = (ret, c1, k1)"
      "0 \<le> ret"
    and off: "off \<in> requested request"
    and get: "gpiod_line_request_get_value K request off c2 k1 = (v, c3, k2)" "v \<noteq> GPIOD_LINE_VALUE_ERROR"
  shows "v = (case map_of (rev (zip offsets values)) off of
      Some x \<Rightarrow> value_of_bool (line_value_bool x)
    | None \<Rightarrow> value_of_bool (lv k (req_fd request) (nat (offset_to_bit request off))))"
  using set_values_lv [OF ok kc len set off] get_value_run [OF ok kc off get] by (simp split: option.splits)

theorem set_then_get_value_witness:
  "\<exists>k1 c3 k2. gpiod_line_request_set_values_subset value_kernel sample_request (Some [9, 4])
       (Some [GPIOD_LINE_VALUE_ACTIVE, GPIOD_LINE_VALUE_INACTIVE]) crt_init (\<lambda>_ _. False) = (0, crt_init, k1)
     \<and> gpiod_line_request_get_value value_kernel sample_request 9 crt_init k1
         = (GPIOD_LINE_VALUE_ACTIVE, c3, k2)"
proof -
  let ?set = "gpiod_line_request_set_values_subset value_kernel sample_request (Some [9, 4])
       (Some [GPIOD_LINE_VALUE_ACTIVE, GPIOD_LINE_VALUE_INACTIVE]) crt_init (\<lambda>_ _. False)"
  obtain m bits where mb: "subset_bits sample_request
      (zip [9, 4] [GPIOD_LINE_VALUE_ACTIVE, GPIOD_LINE_VALUE_INACTIVE]) 0 0 = Some (m, bits)"
    by (simp add: subset_bits_run [OF sample_request_ok(1)] sample_request_ok(2))
  then obtain k1 where set: "?set = (0, crt_init, k1)"
    by (simp add: gpiod_line_request_set_values_subset_def value_kernel_def)
  obtain m' where m': "subset_mask sample_request [9] 0 = Some m'"
    by (simp add: subset_mask_run [OF sample_request_ok(1)] sample_request_ok(2))
  obtain v c3 k2 where get: "gpiod_line_request_get_value value_kernel sample_request 9 crt_init k1 = (v, c3, k2)"
    by (rule prod_cases3)
  then have "v \<noteq> GPIOD_LINE_VALUE_ERROR"
    by (auto simp: gpiod_line_request_get_value_def gpiod_line_request_get_values_subset_def m'
        value_kernel_def Let_def split: if_splits)
  from set_then_get_value [OF sample_request_ok(1) value_kernel_contract _ set _ _ get this] set get show ?thesis
    by (simp add: sample_request_ok(2) value_of_bool_def line_value_bool_def)
qed

text \<open>
  Offsets outside the request.  Reading or writing a list of lines of which one was not
  requested fails with \<open>EINVAL\<close> before the kernel is asked: no line changes, and no value is stored
  for the caller.
\<close>

theorem foreign_offset_rejected:
  assumes "request_ok request" "\<not> set offsets \<subseteq> requested request" "length values = length offsets"
  shows "gpiod_line_request_set_values_subset K request (Some offsets) (Some values) c k
      = (-1, set_errno EINVAL c, k)
    \<and> gpiod_line_request_get_values_subset K request (Some offsets) (Some values) c k
      = (-1, Some values, set_errno EINVAL c, k)"
proof -
  have "fst ` set (zip offsets values) = set offsets"
    using assms(3) by (metis list.set_map map_fst_zip)
  with assms show ?thesis
    by (simp add: gpiod_line_request_set_values_subset_def gpiod_line_request_get_values_subset_def
        subset_bits_run subset_mask_run)
qed

theorem foreign_offset_rejected_witness:
  "gpiod_line_request_set_values_subset value_kernel sample_request (Some [4, 5])
     (Some [GPIOD_LINE_VALUE_ACTIVE, GPIOD_LINE_VALUE_ACTIVE]) crt_init (\<lambda>_ _. False)
   = (-1, set_errno EINVAL crt_init, \<lambda>_ _. False)"
  using foreign_offset_rejected [OF sample_request_ok(1), of "[4, 5]"
      "[GPIOD_LINE_VALUE_ACTIVE, GPIOD_LINE_VALUE_ACTIVE]" value_kernel crt_init "\<lambda>_ _. False"]
  by (simp add: sample_request_ok(2))

text \<open>
  Values are not validated when they are written.  \<open>gpiod_line_request_set_value\<close> with
  \<open>GPIOD_LINE_VALUE_ERROR\<close>, or with any integer other than 0, sends the kernel the same request as
  with \<open>GPIOD_LINE_VALUE_ACTIVE\<close>.
\<close>

theorem set_value_not_validated:
  assumes "line_value_int v \<noteq> 0"
  shows "gpiod_line_request_set_value K request off v c k
    = gpiod_line_request_set_value K request off GPIOD_LINE_VALUE_ACTIVE c k"
proof -
  have "line_value_bool v = line_value_bool GPIOD_LINE_VALUE_ACTIVE"
    using assms by (simp add: line_value_bool_def)
  then show ?thesis
    by (simp add: gpiod_line_request_set_value_def gpiod_line_request_set_values_subset_def
        subset_bits.simps Let_def)
qed

theorem set_value_not_validated_witness:
  "gpiod_line_request_set_value value_kernel sample_request 4 GPIOD_LINE_VALUE_ERROR crt_init (\<lambda>_ _. False)
     = gpiod_line_request_set_value value_kernel sample_request 4 GPIOD_LINE_VALUE_ACTIVE crt_init (\<lambda>_ _. False)"
  by (rule set_value_not_validated) simp

text \<open>
  C23: Reconfiguring a request.  The kernel is asked only for a configuration of exactly the requested
  offsets in their order that fits the ABI, and then with the encoded configuration; in every other
  case the call fails, with \<open>E2BIG\<close> or \<open>EINVAL\<close>, and the kernel state is unchanged.
\<close>

theorem reconfigure_only_same_lines:
  assumes ok: "request_ok request" and wf: "config_wf config"
  shows "if attrs_needed config > 10
      then gpiod_line_request_reconfigure_lines K request (Some config) c k = (-1, set_errno E2BIG c, k)
      else if config_offsets config \<noteq> take (req_num_lines request) (req_offsets request)
      then gpiod_line_request_reconfigure_lines K request (Some config) c k = (-1, set_errno EINVAL c, k)
      else \<exists>lc. encodes config lc \<and>
        gpiod_line_request_reconfigure_lines K request (Some config) c k =
          (case k_set_config K (req_fd request) lc k of
             (Inl e, k') \<Rightarrow> (-1, set_errno e c, k') | (Inr r, k') \<Rightarrow> (int r, c, k'))"
proof -
  from wf have n: "cfg_num_configs config \<le> 64" "length (cfg_line_configs config) = 64"
    by (simp_all add: config_wf_def)
  note main = to_uapi_run [OF n(1) zero_request_lengths(1), of c]
  note offs = set_offsets_offsets [OF n(1) zero_request_lengths(2) n(2)]
  show ?thesis
  proof (cases "attrs_needed config \<le> 10")
    case False
    with main show ?thesis by (auto simp: gpiod_line_request_reconfigure_lines_def)
  next
    case True
    with main obtain lc where enc: "gpiod_line_config_to_uapi config zero_line_request c
        = (0, (set_offsets config zero_line_request)\<lparr>lr_config := lc\<rparr>, c)" "encodes config lc" by auto
    let ?u = "(set_offsets config zero_line_request)\<lparr>lr_config := lc\<rparr>"
    have len: "length (config_offsets config) = cfg_num_configs config"
      "length (take (req_num_lines request) (req_offsets request)) = req_num_lines request"
      using wf ok by (simp_all add: length_config_offsets request_ok_def)
    have eq: "offsets_equal request ?u \<longleftrightarrow>
        config_offsets config = take (req_num_lines request) (req_offsets request)"
      using offsets_equal_iff [OF ok, of ?u] offs len by auto
    show ?thesis
    proof (cases "offsets_equal request ?u")
      case no: False
      then show ?thesis
        using True eq enc(1) by (simp add: gpiod_line_request_reconfigure_lines_def)
    next
      case yes: True
      have "gpiod_line_request_reconfigure_lines K request (Some config) c k =
          (case k_set_config K (req_fd request) lc k of
             (Inl e, k') \<Rightarrow> (-1, set_errno e c, k') | (Inr r, k') \<Rightarrow> (int r, c, k'))"
        using yes enc(1)
        by (auto simp: gpiod_line_request_reconfigure_lines_def split: prod.splits sum.splits)
      with True yes eq enc(2) show ?thesis by auto
    qed
  qed
qed

theorem reconfigure_only_same_lines_witness:
  "gpiod_line_request_reconfigure_lines value_kernel (sample_request\<lparr>req_num_lines := 2\<rparr>)
     (Some sample_config) crt_init (\<lambda>_ _. False) = (-1, set_errno EINVAL crt_init, \<lambda>_ _. False)"
proof -
  have ok: "request_ok (sample_request\<lparr>req_num_lines := 2\<rparr>)"
    by (simp add: request_ok_def sample_request_def uapi_limits)
  have "\<not> attrs_needed sample_config > 10" "config_offsets sample_config = [4, 7, 9]" by code_simp+
  with reconfigure_only_same_lines [OF ok sample_config_wf, of value_kernel crt_init "\<lambda>_ _. False"]
  show ?thesis by (simp add: sample_request_def)
qed

section \<open>Writing several lines\<close>

text \<open>One \<open>gpiod_line_request_set_value\<close> after the other, up to the first that fails.\<close>

fun set_value_sequence :: "'k kernel \<Rightarrow> gpiod_line_request \<Rightarrow> (u32 \<times> gpiod_line_value) list \<Rightarrow> crt \<Rightarrow> 'k
    \<Rightarrow> int \<times> crt \<times> 'k" where
  "set_value_sequence K request [] c k = (0, c, k)"
| "set_value_sequence K request ((offset, v) # rest) c k =
     (case gpiod_line_request_set_value K request offset v c k of
        (ret, c, k) \<Rightarrow> if ret < 0 then (ret, c, k) else set_value_sequence K request rest c k)"

lemma set_value_sequence_lv:
  assumes ok: "request_ok request" and kc: "values_contract K lv" and off: "off \<in> requested request"
    and run: "set_value_sequence K request ovs c k = (ret, c', k')" "0 \<le> ret"
  shows "lv k' (req_fd request) (nat (offset_to_bit request off)) =
      (case map_of (rev ovs) off of Some v \<Rightarrow> line_value_bool v
       | None \<Rightarrow> lv k (req_fd request) (nat (offset_to_bit request off)))"
  using run
proof (induction ovs arbitrary: c k)
  case (Cons ov ovs)
  obtain o1 v1 where ov: "ov = (o1, v1)" by (cases ov)
  obtain r1 c1 k1 where one: "gpiod_line_request_set_value K request o1 v1 c k = (r1, c1, k1)"
    by (rule prod_cases3)
  with Cons.prems ov have r1: "0 \<le> r1" and rest: "set_value_sequence K request ovs c1 k1 = (ret, c', k')"
    by (auto split: if_splits)
  have "lv k1 (req_fd request) (nat (offset_to_bit request off)) =
      (case map_of (rev (zip [o1] [v1])) off of Some v \<Rightarrow> line_value_bool v
       | None \<Rightarrow> lv k (req_fd request) (nat (offset_to_bit request off)))"
    by (rule set_values_lv [OF ok kc _ one [unfolded gpiod_line_request_set_value_def] r1 off]) simp
  with Cons.IH [OF rest Cons.prems(2)] show ?case
    by (auto simp: ov map_add_def split: option.splits if_splits)
qed simp

text \<open>
  C15: Writing in bulk.  A successful \<open>gpiod_line_request_set_values_subset\<close>, which packs the values
  into one mask and one word for a single kernel call, leaves every line of the request at the same
  level as writing the values one by one in the same order, also when an offset is given twice.
\<close>

theorem bulk_write_is_sequence:
  assumes ok: "request_ok request" and kc: "values_contract K lv" and len: "length vs = length offsets"
    and bulk: "gpiod_line_request_set_values_subset K request (Some offsets) (Some vs) c k = (r1, c1, k1)" "0 \<le> r1"
    and steps: "set_value_sequence K request (zip offsets vs) c k = (r2, c2, k2)" "0 \<le> r2"
    and off: "off \<in> requested request"
  shows "lv k1 (req_fd request) (nat (offset_to_bit request off))
    = lv k2 (req_fd request) (nat (offset_to_bit request off))"
  using set_values_lv [OF ok kc len bulk off] set_value_sequence_lv [OF ok kc off steps] by simp

theorem bulk_write_is_sequence_witness:
  "case (gpiod_line_request_set_values_subset value_kernel sample_request (Some [9, 4, 9])
      (Some [GPIOD_LINE_VALUE_ACTIVE, GPIOD_LINE_VALUE_ACTIVE, GPIOD_LINE_VALUE_INACTIVE]) crt_init (\<lambda>_ _. False),
    set_value_sequence value_kernel sample_request
      [(9, GPIOD_LINE_VALUE_ACTIVE), (4, GPIOD_LINE_VALUE_ACTIVE), (9, GPIOD_LINE_VALUE_INACTIVE)] crt_init
      (\<lambda>_ _. False)) of
     ((r1, _, k1), (r2, _, k2)) \<Rightarrow> r1 = 0 \<and> r2 = 0 \<and> k1 6 2 = k2 6 2 \<and> k1 6 0 = k2 6 0 \<and> \<not> k1 6 2 \<and> k1 6 0"
proof -
  let ?os = "[9, 4, 9]" and ?vs = "[GPIOD_LINE_VALUE_ACTIVE, GPIOD_LINE_VALUE_ACTIVE, GPIOD_LINE_VALUE_INACTIVE]"
  let ?b = "gpiod_line_request_set_values_subset value_kernel sample_request (Some ?os) (Some ?vs) crt_init
      (\<lambda>_ _. False)"
  let ?s = "set_value_sequence value_kernel sample_request (zip ?os ?vs) crt_init (\<lambda>_ _. False)"
  have nr: "nat (offset_to_bit sample_request 9) = 2" "nat (offset_to_bit sample_request 4) = 0" by code_simp+
  have "case ?b of (r, _, k1) \<Rightarrow> r = 0 \<and> \<not> k1 6 2 \<and> k1 6 0" by code_simp
  then obtain c1 k1 where b: "?b = (0, c1, k1)" and lv: "\<not> k1 6 2" "k1 6 0" by (auto split: prod.splits)
  have "case ?s of (r, _, k2) \<Rightarrow> r = 0" by code_simp
  then obtain c2 k2 where s: "?s = (0, c2, k2)" by (auto split: prod.splits)
  have fd: "req_fd sample_request = 6" by (simp add: sample_request_def)
  have "k1 6 (nat (offset_to_bit sample_request off)) = k2 6 (nat (offset_to_bit sample_request off))"
    if "off \<in> requested sample_request" for off
    using bulk_write_is_sequence [OF sample_request_ok(1) value_kernel_contract _ b _ s _ that] by (simp add: fd)
  from this [of 9] this [of 4] have "k1 6 2 = k2 6 2 \<and> k1 6 0 = k2 6 0"
    by (simp add: nr sample_request_ok(2))
  with lv b s show ?thesis by simp
qed

end
