(* ===== verification/Line_Info.thy ===== *)
theory Line_Info
  imports Line_Settings
begin

text \<open>
  \<open>lib/line-info.c\<close>, \<open>lib/chip-info.c\<close> and \<open>lib/info-event.c\<close>: decoding what the kernel reports about
  a chip, a line, and a change of a line's state.
\<close>

section \<open>Line information\<close>

record gpiod_line_info =
  info_offset :: u32
  info_name :: "char list"
  info_used :: bool
  info_consumer :: "char list"
  info_direction :: gpiod_line_direction
  info_active_low :: bool
  info_bias :: gpiod_line_bias
  info_drive :: gpiod_line_drive
  info_edge :: gpiod_line_edge
  info_event_clock :: gpiod_line_clock
  info_debounced :: bool
  info_debounce_period_us :: u64

definition gpiod_line_info_free :: "gpiod_line_info obj \<Rightarrow> crt \<Rightarrow> crt" where
  "gpiod_line_info_free info c = free_obj info c"

definition gpiod_line_info_copy :: "gpiod_line_info \<Rightarrow> crt \<Rightarrow> gpiod_line_info obj option \<times> crt" where
  "gpiod_line_info_copy info c = malloc_obj info c"

definition gpiod_line_info_get_offset :: "gpiod_line_info \<Rightarrow> u32" where
  "gpiod_line_info_get_offset info = info_offset info"

definition gpiod_line_info_get_name :: "gpiod_line_info \<Rightarrow> char list option" where
  "gpiod_line_info_get_name info = (if info_name info ! 0 = NUL then None else Some (info_name info))"

definition gpiod_line_info_is_used :: "gpiod_line_info \<Rightarrow> bool" where
  "gpiod_line_info_is_used info = info_used info"

definition gpiod_line_info_get_consumer :: "gpiod_line_info \<Rightarrow> char list option" where
  "gpiod_line_info_get_consumer info =
     (if info_consumer info ! 0 = NUL then None else Some (info_consumer info))"

definition gpiod_line_info_get_direction :: "gpiod_line_info \<Rightarrow> gpiod_line_direction" where
  "gpiod_line_info_get_direction info = info_direction info"

definition gpiod_line_info_is_active_low :: "gpiod_line_info \<Rightarrow> bool" where
  "gpiod_line_info_is_active_low info = info_active_low info"

definition gpiod_line_info_get_bias :: "gpiod_line_info \<Rightarrow> gpiod_line_bias" where
  "gpiod_line_info_get_bias info = info_bias info"

definition gpiod_line_info_get_drive :: "gpiod_line_info \<Rightarrow> gpiod_line_drive" where
  "gpiod_line_info_get_drive info = info_drive info"

definition gpiod_line_info_get_edge_detection :: "gpiod_line_info \<Rightarrow> gpiod_line_edge" where
  "gpiod_line_info_get_edge_detection info = info_edge info"

definition gpiod_line_info_get_event_clock :: "gpiod_line_info \<Rightarrow> gpiod_line_clock" where
  "gpiod_line_info_get_event_clock info = info_event_clock info"

definition gpiod_line_info_is_debounced :: "gpiod_line_info \<Rightarrow> bool" where
  "gpiod_line_info_is_debounced info = info_debounced info"

definition gpiod_line_info_get_debounce_period_us :: "gpiod_line_info \<Rightarrow> u64" where
  "gpiod_line_info_get_debounce_period_us info = info_debounce_period_us info"

lemmas info_getters = gpiod_line_info_get_direction_def gpiod_line_info_is_active_low_def
  gpiod_line_info_get_bias_def gpiod_line_info_get_drive_def gpiod_line_info_get_edge_detection_def
  gpiod_line_info_get_event_clock_def gpiod_line_info_is_debounced_def
  gpiod_line_info_get_debounce_period_us_def gpiod_line_info_is_used_def
  gpiod_line_info_get_offset_def

text \<open>
  The object after \<open>memset\<close>.  Every enumeration field is written before the object is returned; a
  zeroed enumeration is no enumerator.
\<close>

definition zero_info :: gpiod_line_info where
  "zero_info = \<lparr>info_offset = 0, info_name = replicate GPIO_MAX_NAME_SIZE NUL, info_used = False,
     info_consumer = replicate GPIO_MAX_NAME_SIZE NUL,
     info_direction = GPIOD_LINE_DIRECTION_OTHER 0, info_active_low = False,
     info_bias = GPIOD_LINE_BIAS_OTHER 0, info_drive = GPIOD_LINE_DRIVE_OTHER 0,
     info_edge = GPIOD_LINE_EDGE_OTHER 0, info_event_clock = GPIOD_LINE_CLOCK_OTHER 0,
     info_debounced = False, info_debounce_period_us = 0\<rparr>"

text \<open>The body of the loop over the attributes.\<close>

definition apply_info_attr :: "gpio_v2_line_attribute \<Rightarrow> gpiod_line_info \<Rightarrow> gpiod_line_info" where
  "apply_info_attr attr info =
     (if la_id attr = GPIO_V2_LINE_ATTR_ID_DEBOUNCE
      then info\<lparr>info_debounced := True, info_debounce_period_us := ucast (la_debounce_period_us attr)\<rparr>
      else info)"

definition line_info_of_uapi :: "gpio_v2_line_info \<Rightarrow> gpiod_line_info" where
  "line_info_of_uapi uapi_info =
     (let flags = li_flags uapi_info;
          info = zero_info\<lparr>
            info_offset := li_offset uapi_info,
            info_name := strncpy (info_name zero_info) (li_name uapi_info) GPIO_MAX_NAME_SIZE,
            info_used := has_flag flags GPIO_V2_LINE_FLAG_USED,
            info_consumer :=
              strncpy (info_consumer zero_info) (li_consumer uapi_info) GPIO_MAX_NAME_SIZE,
            info_direction :=
              (if has_flag flags GPIO_V2_LINE_FLAG_OUTPUT then GPIOD_LINE_DIRECTION_OUTPUT
               else GPIOD_LINE_DIRECTION_INPUT)\<rparr>;
          info = (if has_flag flags GPIO_V2_LINE_FLAG_ACTIVE_LOW
                  then info\<lparr>info_active_low := True\<rparr> else info);
          info = info\<lparr>
            info_bias :=
              (if has_flag flags GPIO_V2_LINE_FLAG_BIAS_PULL_UP then GPIOD_LINE_BIAS_PULL_UP
               else if has_flag flags GPIO_V2_LINE_FLAG_BIAS_PULL_DOWN then GPIOD_LINE_BIAS_PULL_DOWN
               else if has_flag flags GPIO_V2_LINE_FLAG_BIAS_DISABLED then GPIOD_LINE_BIAS_DISABLED
               else GPIOD_LINE_BIAS_UNKNOWN),
            info_drive :=
              (if has_flag flags GPIO_V2_LINE_FLAG_OPEN_DRAIN then GPIOD_LINE_DRIVE_OPEN_DRAIN
               else if has_flag flags GPIO_V2_LINE_FLAG_OPEN_SOURCE
               then GPIOD_LINE_DRIVE_OPEN_SOURCE
               else GPIOD_LINE_DRIVE_PUSH_PULL),
            info_edge :=
              (if has_flag flags GPIO_V2_LINE_FLAG_EDGE_RISING
                  \<and> has_flag flags GPIO_V2_LINE_FLAG_EDGE_FALLING then GPIOD_LINE_EDGE_BOTH
               else if has_flag flags GPIO_V2_LINE_FLAG_EDGE_RISING then GPIOD_LINE_EDGE_RISING
               else if has_flag flags GPIO_V2_LINE_FLAG_EDGE_FALLING then GPIOD_LINE_EDGE_FALLING
               else GPIOD_LINE_EDGE_NONE),
            info_event_clock :=
              (if has_flag flags GPIO_V2_LINE_FLAG_EVENT_CLOCK_REALTIME
               then GPIOD_LINE_CLOCK_REALTIME
               else if has_flag flags GPIO_V2_LINE_FLAG_EVENT_CLOCK_HTE then GPIOD_LINE_CLOCK_HTE
               else GPIOD_LINE_CLOCK_MONOTONIC)\<rparr>
      in fold (\<lambda>i. apply_info_attr (li_attrs uapi_info ! i)) [0..<unat (li_num_attrs uapi_info)] info)"

definition gpiod_line_info_from_uapi ::
    "gpio_v2_line_info \<Rightarrow> crt \<Rightarrow> gpiod_line_info obj option \<times> crt" where
  "gpiod_line_info_from_uapi uapi_info c = malloc_obj (line_info_of_uapi uapi_info) c"

section \<open>Chip information\<close>

record gpiod_chip_info =
  cinfo_num_lines :: nat
  cinfo_name :: "char list"
  cinfo_label :: "char list"

definition gpiod_chip_info_free :: "gpiod_chip_info obj \<Rightarrow> crt \<Rightarrow> crt" where
  "gpiod_chip_info_free info c = free_obj info c"

definition gpiod_chip_info_get_name :: "gpiod_chip_info \<Rightarrow> char list" where
  "gpiod_chip_info_get_name info = cinfo_name info"

definition gpiod_chip_info_get_label :: "gpiod_chip_info \<Rightarrow> char list" where
  "gpiod_chip_info_get_label info = cinfo_label info"

definition gpiod_chip_info_get_num_lines :: "gpiod_chip_info \<Rightarrow> nat" where
  "gpiod_chip_info_get_num_lines info = cinfo_num_lines info"

definition chip_info_of_uapi :: "gpiochip_info \<Rightarrow> gpiod_chip_info" where
  "chip_info_of_uapi uapi_info =
     \<lparr>cinfo_num_lines = unat (ci_lines uapi_info),
      cinfo_name = strncpy (replicate 32 NUL) (ci_name uapi_info) 32,
      cinfo_label =
        (if ci_label uapi_info ! 0 = NUL then strncpy (replicate 32 NUL) ''unknown'' 32
         else strncpy (replicate 32 NUL) (ci_label uapi_info) 32)\<rparr>"

definition gpiod_chip_info_from_uapi ::
    "gpiochip_info \<Rightarrow> crt \<Rightarrow> gpiod_chip_info obj option \<times> crt" where
  "gpiod_chip_info_from_uapi uapi_info c = malloc_obj (chip_info_of_uapi uapi_info) c"

section \<open>Info events\<close>

datatype gpiod_info_event_type =
    GPIOD_INFO_EVENT_LINE_REQUESTED
  | GPIOD_INFO_EVENT_LINE_RELEASED
  | GPIOD_INFO_EVENT_LINE_CONFIG_CHANGED

record gpiod_info_event =
  ie_event_type :: gpiod_info_event_type
  ie_timestamp :: u64
  ie_info :: "gpiod_line_info obj"

text \<open>The switch over the event type of the kernel; \<open>None\<close> is its default branch.\<close>

definition info_event_type :: "u32 \<Rightarrow> gpiod_info_event_type option" where
  "info_event_type t =
     (if t = GPIOLINE_CHANGED_REQUESTED then Some GPIOD_INFO_EVENT_LINE_REQUESTED
      else if t = GPIOLINE_CHANGED_RELEASED then Some GPIOD_INFO_EVENT_LINE_RELEASED
      else if t = GPIOLINE_CHANGED_CONFIG then Some GPIOD_INFO_EVENT_LINE_CONFIG_CHANGED
      else None)"

definition gpiod_info_event_from_uapi ::
    "gpio_v2_line_info_changed \<Rightarrow> crt \<Rightarrow> gpiod_info_event obj option \<times> crt" where
  "gpiod_info_event_from_uapi uapi_evt c =
     (case malloc c of
        (None, c) \<Rightarrow> (None, c)
      | (Some event, c) \<Rightarrow>
          (case info_event_type (lic_event_type uapi_evt) of
             None \<Rightarrow> (None, free event (set_errno ENOMSG c))
           | Some t \<Rightarrow>
               (case gpiod_line_info_from_uapi (lic_info uapi_evt) c of
                  (None, c) \<Rightarrow> (None, free event c)
                | (Some info, c) \<Rightarrow>
                    (Some (event, \<lparr>ie_event_type = t, ie_timestamp = lic_timestamp_ns uapi_evt,
                       ie_info = info\<rparr>), c))))"

definition gpiod_info_event_free :: "gpiod_info_event obj option \<Rightarrow> crt \<Rightarrow> crt" where
  "gpiod_info_event_free event c =
     (case event of
        None \<Rightarrow> c
      | Some e \<Rightarrow> free_obj e (gpiod_line_info_free (ie_info (snd e)) c))"

definition gpiod_info_event_get_event_type :: "gpiod_info_event \<Rightarrow> gpiod_info_event_type" where
  "gpiod_info_event_get_event_type event = ie_event_type event"

definition gpiod_info_event_get_timestamp_ns :: "gpiod_info_event \<Rightarrow> u64" where
  "gpiod_info_event_get_timestamp_ns event = ie_timestamp event"

definition gpiod_info_event_get_line_info :: "gpiod_info_event \<Rightarrow> gpiod_line_info" where
  "gpiod_info_event_get_line_info event = snd (ie_info event)"

text \<open>The number of bytes read is compared after a conversion to \<open>unsigned int\<close>.\<close>

definition gpiod_info_event_read_fd ::
    "'k kernel \<Rightarrow> int \<Rightarrow> crt \<Rightarrow> 'k \<Rightarrow> gpiod_info_event obj option \<times> crt \<times> 'k" where
  "gpiod_info_event_read_fd K fd c k =
     (case k_read_info_event K fd sizeof_line_info_changed k of
        (Inl e, k) \<Rightarrow> (None, set_errno e c, k)
      | (Inr (rd, uapi_evt), k) \<Rightarrow>
          if rd mod 2 ^ 32 < sizeof_line_info_changed then (None, set_errno EIO c, k)
          else (case gpiod_info_event_from_uapi uapi_evt c of (r, c) \<Rightarrow> (r, c, k)))"

section \<open>Lemmas\<close>

lemma apply_info_attrs_frame:
  fixes as :: "nat \<Rightarrow> gpio_v2_line_attribute"
  defines "f \<equiv> fold (\<lambda>i. apply_info_attr (as i))"
  shows "info_direction (f is info) = info_direction info" "info_bias (f is info) = info_bias info"
    "info_drive (f is info) = info_drive info" "info_edge (f is info) = info_edge info"
    "info_event_clock (f is info) = info_event_clock info"
    "info_active_low (f is info) = info_active_low info" "info_used (f is info) = info_used info"
    "info_offset (f is info) = info_offset info" "info_name (f is info) = info_name info"
    "info_consumer (f is info) = info_consumer info"
  unfolding f_def by (induction "is" arbitrary: info) (simp_all add: apply_info_attr_def)

lemma apply_info_attrs_debounce:
  fixes as :: "nat \<Rightarrow> gpio_v2_line_attribute"
  assumes "\<not> info_debounced info" "info_debounce_period_us info = 0"
  shows "(info_debounced (fold (\<lambda>i. apply_info_attr (as i)) is info),
      info_debounce_period_us (fold (\<lambda>i. apply_info_attr (as i)) is info))
    = (case find (\<lambda>i. la_id (as i) = GPIO_V2_LINE_ATTR_ID_DEBOUNCE) (rev is) of
         None \<Rightarrow> (False, 0) | Some i \<Rightarrow> (True, ucast (la_debounce_period_us (as i))))"
  using assms by (induction "is" rule: rev_induct) (auto simp: apply_info_attr_def split: option.splits)

lemma line_info_fields:
  "info_direction (line_info_of_uapi u) =
     (if has_flag (li_flags u) GPIO_V2_LINE_FLAG_OUTPUT then GPIOD_LINE_DIRECTION_OUTPUT
      else GPIOD_LINE_DIRECTION_INPUT)"
  "info_active_low (line_info_of_uapi u) = has_flag (li_flags u) GPIO_V2_LINE_FLAG_ACTIVE_LOW"
  "info_used (line_info_of_uapi u) = has_flag (li_flags u) GPIO_V2_LINE_FLAG_USED"
  "info_offset (line_info_of_uapi u) = li_offset u"
  "info_bias (line_info_of_uapi u) =
     (if has_flag (li_flags u) GPIO_V2_LINE_FLAG_BIAS_PULL_UP then GPIOD_LINE_BIAS_PULL_UP
      else if has_flag (li_flags u) GPIO_V2_LINE_FLAG_BIAS_PULL_DOWN then GPIOD_LINE_BIAS_PULL_DOWN
      else if has_flag (li_flags u) GPIO_V2_LINE_FLAG_BIAS_DISABLED then GPIOD_LINE_BIAS_DISABLED
      else GPIOD_LINE_BIAS_UNKNOWN)"
  "info_drive (line_info_of_uapi u) =
     (if has_flag (li_flags u) GPIO_V2_LINE_FLAG_OPEN_DRAIN then GPIOD_LINE_DRIVE_OPEN_DRAIN
      else if has_flag (li_flags u) GPIO_V2_LINE_FLAG_OPEN_SOURCE then GPIOD_LINE_DRIVE_OPEN_SOURCE
      else GPIOD_LINE_DRIVE_PUSH_PULL)"
  "info_edge (line_info_of_uapi u) =
     (if has_flag (li_flags u) GPIO_V2_LINE_FLAG_EDGE_RISING
         \<and> has_flag (li_flags u) GPIO_V2_LINE_FLAG_EDGE_FALLING then GPIOD_LINE_EDGE_BOTH
      else if has_flag (li_flags u) GPIO_V2_LINE_FLAG_EDGE_RISING then GPIOD_LINE_EDGE_RISING
      else if has_flag (li_flags u) GPIO_V2_LINE_FLAG_EDGE_FALLING then GPIOD_LINE_EDGE_FALLING
      else GPIOD_LINE_EDGE_NONE)"
  "info_event_clock (line_info_of_uapi u) =
     (if has_flag (li_flags u) GPIO_V2_LINE_FLAG_EVENT_CLOCK_REALTIME then GPIOD_LINE_CLOCK_REALTIME
      else if has_flag (li_flags u) GPIO_V2_LINE_FLAG_EVENT_CLOCK_HTE then GPIOD_LINE_CLOCK_HTE
      else GPIOD_LINE_CLOCK_MONOTONIC)"
  unfolding line_info_of_uapi_def Let_def apply_info_attrs_frame
  by (simp_all add: zero_info_def)

lemma line_info_debounce:
  "(info_debounced (line_info_of_uapi u), info_debounce_period_us (line_info_of_uapi u))
    = (case find (\<lambda>i. la_id (li_attrs u ! i) = GPIO_V2_LINE_ATTR_ID_DEBOUNCE)
             (rev [0..<unat (li_num_attrs u)]) of
         None \<Rightarrow> (False, 0) | Some i \<Rightarrow> (True, ucast (la_debounce_period_us (li_attrs u ! i))))"
  unfolding line_info_of_uapi_def Let_def
  by (rule apply_info_attrs_debounce) (simp_all add: zero_info_def)

definition info_event_blocks :: "gpiod_info_event obj \<Rightarrow> nat set" where
  "info_event_blocks e = {fst e, fst (ie_info (snd e))}"

interpretation info_event_heap: heap_object "gpiod_info_event_from_uapi u"
    "\<lambda>e. gpiod_info_event_free (Some e)" info_event_blocks "\<lambda>e. fst e \<noteq> fst (ie_info (snd e))" for u
proof
  fix c c' :: crt
  assume "gpiod_info_event_from_uapi u c = (None, c')" "heap_ok c"
  then show "heap_ok c' \<and> live c' = live c"
    using heap_ok_fresh [of c]
    by (cases rule: malloc_cases [of c]; cases "info_event_type (lic_event_type u)";
        cases rule: malloc_obj_cases [of "line_info_of_uapi (lic_info u)" "c\<lparr>nalloc := Suc (nalloc c),
          live := insert (nalloc c) (live c)\<rparr>"])
      (auto simp: gpiod_info_event_from_uapi_def gpiod_line_info_from_uapi_def heap_ok_def less_Suc_eq)
next
  fix c c' :: crt and e
  assume "gpiod_info_event_from_uapi u c = (Some e, c')" "heap_ok c"
  then show "heap_ok c' \<and> live c' = live c \<union> info_event_blocks e \<and> live c \<inter> info_event_blocks e = {}
      \<and> fst e \<noteq> fst (ie_info (snd e))"
    by (cases rule: malloc_cases [of c]; cases "info_event_type (lic_event_type u)";
        cases rule: malloc_obj_cases [of "line_info_of_uapi (lic_info u)" "c\<lparr>nalloc := Suc (nalloc c),
          live := insert (nalloc c) (live c)\<rparr>"])
      (auto simp: gpiod_info_event_from_uapi_def gpiod_line_info_from_uapi_def heap_ok_def less_Suc_eq
        info_event_blocks_def)
next
  fix c :: crt and e :: "gpiod_info_event obj"
  assume "heap_ok c" "fst e \<noteq> fst (ie_info (snd e))" "info_event_blocks e \<subseteq> live c"
  then show "heap_ok (gpiod_info_event_free (Some e) c)
      \<and> live (gpiod_info_event_free (Some e) c) = live c - info_event_blocks e"
    by (auto simp: gpiod_info_event_free_def gpiod_line_info_free_def free_obj_def info_event_blocks_def
        intro!: heap_ok_free)
qed

section \<open>Properties\<close>

lemma strncpy_32_nth0: "length src = 32 \<Longrightarrow> strncpy dst src 32 ! 0 = NUL \<longleftrightarrow> c_str src = []"
  by (cases src) (auto simp: strncpy_def Let_def c_str_def nth_append)

lemma line_info_names:
  "info_name (line_info_of_uapi u) = strncpy (info_name zero_info) (li_name u) GPIO_MAX_NAME_SIZE"
  "info_consumer (line_info_of_uapi u) = strncpy (info_consumer zero_info) (li_consumer u) GPIO_MAX_NAME_SIZE"
  unfolding line_info_of_uapi_def Let_def apply_info_attrs_frame by (simp_all add: zero_info_def)

text \<open>
  The strings of a line information.  For names the kernel terminates inside their 32 bytes,
  \<open>gpiod_line_info_get_name\<close> and \<open>gpiod_line_info_get_consumer\<close> return the same strings, and \<open>NULL\<close>
  exactly for the empty ones.
\<close>

theorem line_info_strings:
  assumes "length (li_name u) = 32" "NUL \<in> set (li_name u)"
    and "length (li_consumer u) = 32" "NUL \<in> set (li_consumer u)"
  shows "map_option c_str (gpiod_line_info_get_name (line_info_of_uapi u))
      = (if c_str (li_name u) = [] then None else Some (c_str (li_name u)))
    \<and> map_option c_str (gpiod_line_info_get_consumer (line_info_of_uapi u))
      = (if c_str (li_consumer u) = [] then None else Some (c_str (li_consumer u)))"
  using assms length_c_str_less [OF assms(2)] length_c_str_less [OF assms(4)]
  by (simp add: gpiod_line_info_get_name_def gpiod_line_info_get_consumer_def line_info_names
      uapi_limits strncpy_32_nth0 c_str_strncpy)

theorem line_info_strings_witness:
  "map_option c_str (gpiod_line_info_get_name (line_info_of_uapi
     (zero_line_info\<lparr>li_name := ''LED0'' @ replicate 28 NUL\<rparr>))) = Some ''LED0''"
  using line_info_strings [of "zero_line_info\<lparr>li_name := ''LED0'' @ replicate 28 NUL\<rparr>"]
  by (simp add: zero_line_info_def uapi_limits c_str_def)

text \<open>
  C31: Decoding an info event.  The kernel numbers its events 1 (line requested), 2 (line released) and 3
  (line reconfigured).  \<open>gpiod_info_event_from_uapi\<close> returns an event exactly if the number is one of these
  and neither of the two allocations it makes fails; the event then has the type of that number, the timestamp
  and the decoded line information of the kernel event, in two blocks that \<open>gpiod_info_event_free\<close> gives back.
  Otherwise no block is left behind, and \<open>errno\<close> is \<open>ENOMSG\<close> for any other number once the first allocation is
  made, and \<open>ENOMEM\<close> when an allocation fails.
\<close>

theorem info_event_decoding:
  assumes "heap_ok c" "gpiod_info_event_from_uapi u c = (r, c')"
  shows "(r \<noteq> None \<longleftrightarrow> lic_event_type u \<in> {1, 2, 3} \<and> \<not> oom c (nalloc c) \<and> \<not> oom c (Suc (nalloc c)))
    \<and> (case r of
         None \<Rightarrow> heap_ok c' \<and> live c' = live c
           \<and> crt_errno c' = (if \<not> oom c (nalloc c) \<and> lic_event_type u \<notin> {1, 2, 3} then ENOMSG else ENOMEM)
       | Some e \<Rightarrow>
           (lic_event_type u, gpiod_info_event_get_event_type (snd e)) \<in>
             {(1, GPIOD_INFO_EVENT_LINE_REQUESTED), (2, GPIOD_INFO_EVENT_LINE_RELEASED),
              (3, GPIOD_INFO_EVENT_LINE_CONFIG_CHANGED)}
           \<and> gpiod_info_event_get_timestamp_ns (snd e) = lic_timestamp_ns u
           \<and> gpiod_info_event_get_line_info (snd e) = line_info_of_uapi (lic_info u)
           \<and> live c' = live c \<union> info_event_blocks e \<and> live c \<inter> info_event_blocks e = {}
           \<and> heap_ok (gpiod_info_event_free (Some e) c')
           \<and> live (gpiod_info_event_free (Some e) c') = live c)"
proof -
  have ty: "info_event_type t = None \<longleftrightarrow> t \<notin> {1, 2, 3}"
    "info_event_type t = Some ty \<Longrightarrow> (t, ty) \<in> {(1, GPIOD_INFO_EVENT_LINE_REQUESTED),
       (2, GPIOD_INFO_EVENT_LINE_RELEASED), (3, GPIOD_INFO_EVENT_LINE_CONFIG_CHANGED)}" for t ty
    by (auto simp: info_event_type_def changed_ids split: if_splits)
  note run = assms(2) [unfolded gpiod_info_event_from_uapi_def gpiod_line_info_from_uapi_def malloc_obj_def malloc_def Let_def]
  have iff: "r \<noteq> None \<longleftrightarrow> lic_event_type u \<in> {1, 2, 3} \<and> \<not> oom c (nalloc c) \<and> \<not> oom c (Suc (nalloc c))"
    using run ty(1) [of "lic_event_type u"] by (auto split: option.splits if_splits)
  show ?thesis
  proof (cases r)
    case None
    have "crt_errno c' = (if \<not> oom c (nalloc c) \<and> lic_event_type u \<notin> {1, 2, 3} then ENOMSG else ENOMEM)"
      using run None ty(1) [of "lic_event_type u"] by (auto split: option.splits if_splits)
    with None iff assms info_event_heap.new_fail show ?thesis by simp
  next
    case (Some e)
    then have new: "gpiod_info_event_from_uapi u c = (Some e, c')" using assms(2) by simp
    have "info_event_type (lic_event_type u) = Some (ie_event_type (snd e))
        \<and> ie_timestamp (snd e) = lic_timestamp_ns u \<and> snd (ie_info (snd e)) = line_info_of_uapi (lic_info u)"
      using run Some by (auto split: option.splits if_splits)
    with Some iff ty(2) info_event_heap.new_ok [OF new assms(1)] info_event_heap.new_then_release [OF assms(1) new]
    show ?thesis
      by (simp add: gpiod_info_event_get_event_type_def gpiod_info_event_get_timestamp_ns_def
          gpiod_info_event_get_line_info_def)
  qed
qed

theorem info_event_decoding_witness:
  "(\<exists>e c'. gpiod_info_event_from_uapi (zero_line_info_changed\<lparr>lic_event_type := 2\<rparr>) crt_init = (Some e, c')
     \<and> gpiod_info_event_get_event_type (snd e) = GPIOD_INFO_EVENT_LINE_RELEASED
     \<and> live (gpiod_info_event_free (Some e) c') = {})
   \<and> fst (gpiod_info_event_from_uapi zero_line_info_changed crt_init) = None
   \<and> crt_errno (snd (gpiod_info_event_from_uapi zero_line_info_changed crt_init)) = ENOMSG"
proof
  let ?u = "zero_line_info_changed\<lparr>lic_event_type := 2\<rparr>"
  obtain r c' where new: "gpiod_info_event_from_uapi ?u crt_init = (r, c')" by (rule prod.exhaust)
  from info_event_decoding [OF heap_ok_crt_init new] obtain e where "r = Some e"
    "gpiod_info_event_get_event_type (snd e) = GPIOD_INFO_EVENT_LINE_RELEASED"
    "live (gpiod_info_event_free (Some e) c') = {}"
    by (auto simp: crt_init_def)
  with new show "\<exists>e c'. gpiod_info_event_from_uapi ?u crt_init = (Some e, c')
     \<and> gpiod_info_event_get_event_type (snd e) = GPIOD_INFO_EVENT_LINE_RELEASED
     \<and> live (gpiod_info_event_free (Some e) c') = {}" by blast
next
  obtain r c' where new: "gpiod_info_event_from_uapi zero_line_info_changed crt_init = (r, c')" by (rule prod.exhaust)
  from info_event_decoding [OF heap_ok_crt_init new]
  have "r = None" "crt_errno c' = ENOMSG" by (auto simp: crt_init_def zero_line_info_changed_def split: option.splits)
  with new show "fst (gpiod_info_event_from_uapi zero_line_info_changed crt_init) = None
   \<and> crt_errno (snd (gpiod_info_event_from_uapi zero_line_info_changed crt_init)) = ENOMSG" by simp
qed

end
