(* ===== verification/Request_Config.thy ===== *)
theory Request_Config
  imports Gpiod_Internal
begin

text \<open>
  \<open>lib/request-config.c\<close>: the consumer name and the event buffer size of a line request.  The name
  lives in a fixed array that is always terminated; longer names are cut.
\<close>

section \<open>The object and its operations\<close>

record gpiod_request_config =
  rc_consumer :: "char list"
  rc_event_buffer_size :: nat

definition gpiod_request_config_new :: "crt \<Rightarrow> gpiod_request_config obj option \<times> crt" where
  "gpiod_request_config_new c =
     malloc_obj \<lparr>rc_consumer = replicate GPIO_MAX_NAME_SIZE NUL, rc_event_buffer_size = 0\<rparr> c"

definition gpiod_request_config_free :: "gpiod_request_config obj \<Rightarrow> crt \<Rightarrow> crt" where
  "gpiod_request_config_free config c = free_obj config c"

definition gpiod_request_config_set_consumer ::
    "gpiod_request_config \<Rightarrow> string option \<Rightarrow> gpiod_request_config" where
  "gpiod_request_config_set_consumer config consumer =
     (case consumer of
        None \<Rightarrow> config\<lparr>rc_consumer := (rc_consumer config)[0 := NUL]\<rparr>
      | Some consumer \<Rightarrow>
          config\<lparr>rc_consumer :=
            (strncpy (rc_consumer config) consumer (GPIO_MAX_NAME_SIZE - 1))
              [GPIO_MAX_NAME_SIZE - 1 := NUL]\<rparr>)"

definition gpiod_request_config_get_consumer :: "gpiod_request_config \<Rightarrow> string option" where
  "gpiod_request_config_get_consumer config =
     (if rc_consumer config ! 0 = NUL then None else Some (c_str (rc_consumer config)))"

definition gpiod_request_config_set_event_buffer_size ::
    "gpiod_request_config \<Rightarrow> nat \<Rightarrow> gpiod_request_config" where
  "gpiod_request_config_set_event_buffer_size config size' = config\<lparr>rc_event_buffer_size := size'\<rparr>"

definition gpiod_request_config_get_event_buffer_size :: "gpiod_request_config \<Rightarrow> nat" where
  "gpiod_request_config_get_event_buffer_size config = rc_event_buffer_size config"

text \<open>The \<open>size_t\<close> buffer size is stored in a \<open>__u32\<close>.\<close>

definition gpiod_request_config_to_uapi ::
    "gpiod_request_config \<Rightarrow> gpio_v2_line_request \<Rightarrow> gpio_v2_line_request" where
  "gpiod_request_config_to_uapi config uapi_req =
     uapi_req\<lparr>lr_consumer := strcpy (lr_consumer uapi_req) (rc_consumer config),
       lr_event_buffer_size := of_nat (rc_event_buffer_size config)\<rparr>"

section \<open>Invariant\<close>

definition request_config_ok :: "gpiod_request_config \<Rightarrow> bool" where
  "request_config_ok config \<longleftrightarrow> length (rc_consumer config) = GPIO_MAX_NAME_SIZE
     \<and> rc_consumer config ! (GPIO_MAX_NAME_SIZE - 1) = NUL"

lemma set_consumer_ok:
  assumes "request_config_ok config"
  shows "request_config_ok (gpiod_request_config_set_consumer config consumer)"
  using assms
  by (auto simp: request_config_ok_def gpiod_request_config_set_consumer_def uapi_limits
      length_strncpy nth_list_update split: option.splits)

lemma consumer_terminated:
  assumes "request_config_ok config"
  shows "NUL \<in> set (rc_consumer config)"
  using assms nth_mem [of 31 "rc_consumer config"] by (simp add: request_config_ok_def uapi_limits)

lemma consumer_fits:
  "request_config_ok config \<Longrightarrow> length (c_str (rc_consumer config)) < GPIO_MAX_NAME_SIZE"
  using length_c_str_less [OF consumer_terminated, of config] by (simp add: request_config_ok_def)

lemma set_consumer_str:
  assumes ok: "request_config_ok config" and s: "c_string s"
  shows "c_str (rc_consumer (gpiod_request_config_set_consumer config (Some s))) = take 31 s"
proof -
  let ?t = "take 31 s"
  have t: "c_string ?t" "length ?t \<le> 31" using s by (simp_all add: c_string_take)
  have "drop 31 (rc_consumer config) = [rc_consumer config ! 31]"
    using ok by (simp add: request_config_ok_def uapi_limits Cons_nth_drop_Suc [symmetric])
  then have "strncpy (rc_consumer config) s 31
      = (?t @ replicate (31 - length ?t) NUL) @ [rc_consumer config ! 31]"
    using s by (simp add: strncpy_def Let_def c_str_of_string)
  moreover have "length (?t @ replicate (31 - length ?t) NUL) = 31" using t by simp
  ultimately have "(strncpy (rc_consumer config) s 31)[31 := NUL]
      = (?t @ replicate (31 - length ?t) NUL) @ [NUL]"
    by (metis length_list_update list_update_length)
  also have "\<dots> = ?t @ NUL # replicate (31 - length ?t) NUL"
    by (simp add: replicate_append_same)
  finally show ?thesis
    using t by (simp add: gpiod_request_config_set_consumer_def uapi_limits c_str_append_NUL)
qed

lemma to_uapi_frame [simp]:
  "lr_config (gpiod_request_config_to_uapi rc u) = lr_config u"
  "lr_offsets (gpiod_request_config_to_uapi rc u) = lr_offsets u"
  by (simp_all add: gpiod_request_config_to_uapi_def)

interpretation request_config_heap: heap_object gpiod_request_config_new gpiod_request_config_free
    "\<lambda>p. {fst p}" "\<lambda>_. True"
  unfolding gpiod_request_config_new_def [abs_def] gpiod_request_config_free_def [abs_def]
  by (rule one_block.heap_object_axioms)

section \<open>Properties\<close>

lemma c_str_hd_NUL: "a \<noteq> [] \<Longrightarrow> a ! 0 = NUL \<longleftrightarrow> c_str a = []"
  by (cases a) (auto simp: c_str_def)

lemma set_none_str: "request_config_ok config \<Longrightarrow>
    c_str (rc_consumer (gpiod_request_config_set_consumer config None)) = []"
  by (cases "rc_consumer config")
    (auto simp: gpiod_request_config_set_consumer_def request_config_ok_def uapi_limits c_str_def)

text \<open>The calls on a request configuration.\<close>

datatype request_config_call = SetConsumer "string option" | SetEventBufferSize nat

fun run_request_config_call :: "request_config_call \<Rightarrow> gpiod_request_config \<Rightarrow> gpiod_request_config" where
  "run_request_config_call (SetConsumer consumer) config = gpiod_request_config_set_consumer config consumer"
| "run_request_config_call (SetEventBufferSize n) config = gpiod_request_config_set_event_buffer_size config n"

lemma new_request_config_ok:
  "gpiod_request_config_new c = (Some p, c') \<Longrightarrow> request_config_ok (snd p)"
  using malloc_obj_SomeD(1) [of "\<lparr>rc_consumer = replicate GPIO_MAX_NAME_SIZE NUL, rc_event_buffer_size = 0\<rparr>" c p c']
  by (simp add: gpiod_request_config_new_def request_config_ok_def uapi_limits)

lemma run_request_config_calls_ok:
  "request_config_ok config \<Longrightarrow> request_config_ok (fold run_request_config_call calls config)"
proof (induction calls arbitrary: config)
  case (Cons call calls)
  have "request_config_ok (run_request_config_call call config)"
    using Cons.prems set_consumer_ok [of config]
    by (cases call) (simp_all add: gpiod_request_config_set_event_buffer_size_def request_config_ok_def)
  with Cons.IH show ?case by simp
qed simp

text \<open>
  The consumer name of a request configuration never leaves its array.  After any calls on a
  fresh object the name is terminated inside the 32 bytes, so the unbounded \<open>strcpy\<close> of
  \<open>gpiod_request_config_to_uapi\<close> writes inside the 32 bytes of the kernel structure and copies the
  name unchanged.
\<close>

theorem consumer_copy_in_bounds:
  assumes "gpiod_request_config_new c = (Some p, c')" "length (lr_consumer u) = GPIO_MAX_NAME_SIZE"
  shows "let config = fold run_request_config_call calls (snd p);
             u' = gpiod_request_config_to_uapi config u
         in length (c_str (rc_consumer config)) < GPIO_MAX_NAME_SIZE
            \<and> length (lr_consumer u') = GPIO_MAX_NAME_SIZE
            \<and> c_str (lr_consumer u') = c_str (rc_consumer config)"
proof -
  let ?config = "fold run_request_config_call calls (snd p)"
  have ok: "request_config_ok ?config"
    by (rule run_request_config_calls_ok) (rule new_request_config_ok [OF assms(1)])
  then have "length (lr_consumer (gpiod_request_config_to_uapi ?config u)) = GPIO_MAX_NAME_SIZE"
    using consumer_fits [OF ok] length_strcpy [of "rc_consumer ?config" "lr_consumer u"] assms(2)
    by (simp add: gpiod_request_config_to_uapi_def)
  then show ?thesis
    using consumer_fits [OF ok] by (simp add: Let_def gpiod_request_config_to_uapi_def c_str_strcpy)
qed

theorem consumer_copy_in_bounds_witness:
  "c_str (lr_consumer (gpiod_request_config_to_uapi
      (fold run_request_config_call [SetConsumer (Some ''gpiomon''), SetEventBufferSize 16]
        \<lparr>rc_consumer = replicate 32 NUL, rc_event_buffer_size = 0\<rparr>) zero_line_request)) = ''gpiomon''"
proof -
  let ?new = "\<lparr>rc_consumer = replicate 32 NUL, rc_event_buffer_size = 0\<rparr>"
  have new: "gpiod_request_config_new crt_init = (Some (0, ?new), crt_init\<lparr>nalloc := 1, live := {0}\<rparr>)"
    by (simp add: gpiod_request_config_new_def malloc_obj_def malloc_def crt_init_def uapi_limits)
  have "c_str (rc_consumer (fold run_request_config_call
      [SetConsumer (Some ''gpiomon''), SetEventBufferSize 16] ?new)) = ''gpiomon''" by code_simp
  with consumer_copy_in_bounds [OF new, of zero_line_request
      "[SetConsumer (Some ''gpiomon''), SetEventBufferSize 16]"] show ?thesis
    by (simp add: Let_def zero_line_request_def)
qed

text \<open>
  C30: The consumer name round trip.  What \<open>set_consumer\<close> stores, \<open>get_consumer\<close> returns cut to 31
  characters, with the empty name read as no name; \<open>NULL\<close> clears the name.
\<close>

theorem consumer_round_trip:
  assumes "request_config_ok config" "c_string s"
  shows "gpiod_request_config_get_consumer (gpiod_request_config_set_consumer config (Some s))
      = (if s = [] then None else Some (take 31 s))
    \<and> gpiod_request_config_get_consumer (gpiod_request_config_set_consumer config None) = None"
proof -
  have ne: "rc_consumer (gpiod_request_config_set_consumer config x) \<noteq> []" for x
    using set_consumer_ok [OF assms(1), of x] by (auto simp: request_config_ok_def uapi_limits)
  show ?thesis
    using set_consumer_str [OF assms] set_none_str [OF assms(1)]
    by (simp add: gpiod_request_config_get_consumer_def c_str_hd_NUL [OF ne])
qed

theorem consumer_round_trip_witness:
  "gpiod_request_config_get_consumer (gpiod_request_config_set_consumer
     \<lparr>rc_consumer = replicate 32 NUL, rc_event_buffer_size = 0\<rparr>
     (Some ''a consumer name of more than 31 characters'')) = Some ''a consumer name of more than 31''"
  using consumer_round_trip [of "\<lparr>rc_consumer = replicate 32 NUL, rc_event_buffer_size = 0\<rparr>"
      "''a consumer name of more than 31 characters''"]
  by (simp add: request_config_ok_def uapi_limits c_string_def)

end
