(* ===== verification/Chip.thy ===== *)
theory Chip
  imports Line_Request Line_Info Request_Config
begin

text \<open>
  \<open>lib/chip.c\<close> and \<open>lib/misc.c\<close>: opening a GPIO chip, reading chip and line information, looking a line
  up by name, and requesting lines.  A chip owns a file descriptor and two heap blocks; a line
  request owns the descriptor the kernel returned and two heap blocks.

  \<open>fd_contract\<close> is the documented behaviour of the calls that open and close descriptors.
\<close>

section \<open>The object\<close>

record gpiod_chip =
  chip_fd :: int
  chip_path :: "string obj"

definition gpiod_is_gpiochip_device :: "'k kernel \<Rightarrow> string option \<Rightarrow> crt \<Rightarrow> 'k \<Rightarrow> bool \<times> crt \<times> 'k" where
  "gpiod_is_gpiochip_device K path c k = gpiod_check_gpiochip_device K path False c k"

definition gpiod_chip_open ::
    "'k kernel \<Rightarrow> string option \<Rightarrow> crt \<Rightarrow> 'k \<Rightarrow> gpiod_chip obj option \<times> crt \<times> 'k" where
  "gpiod_chip_open K path c k =
     (case path of
        None \<Rightarrow> (None, set_errno EINVAL c, k)
      | Some p \<Rightarrow>
          (case gpiod_check_gpiochip_device K path True c k of
             (isdev, c, k) \<Rightarrow>
               if \<not> isdev then (None, c, k)
               else
                 (case k_open K p k of
                    (Inl e, k) \<Rightarrow> (None, set_errno e c, k)
                  | (Inr fd, k) \<Rightarrow>
                      (case malloc c of
                         (None, c) \<Rightarrow> (None, c, k_close K (int fd) k)
                       | (Some chip, c) \<Rightarrow>
                           (case strdup p c of
                              (None, c) \<Rightarrow> (None, free chip c, k_close K (int fd) k)
                            | (Some path, c) \<Rightarrow>
                                (Some (chip, \<lparr>chip_fd = int fd, chip_path = path\<rparr>), c, k))))))"

definition gpiod_chip_close :: "'k kernel \<Rightarrow> gpiod_chip obj option \<Rightarrow> crt \<Rightarrow> 'k \<Rightarrow> crt \<times> 'k" where
  "gpiod_chip_close K chip c k =
     (case chip of
        None \<Rightarrow> (c, k)
      | Some p \<Rightarrow> (free_obj p (free_obj (chip_path (snd p)) c), k_close K (chip_fd (snd p)) k))"

definition gpiod_chip_get_path :: "gpiod_chip \<Rightarrow> string" where
  "gpiod_chip_get_path chip = snd (chip_path chip)"

definition gpiod_chip_get_fd :: "gpiod_chip \<Rightarrow> int" where
  "gpiod_chip_get_fd chip = chip_fd chip"

section \<open>Information\<close>

definition read_chip_info :: "'k kernel \<Rightarrow> int \<Rightarrow> crt \<Rightarrow> 'k \<Rightarrow> int \<times> gpiochip_info \<times> crt \<times> 'k" where
  "read_chip_info K fd c k =
     (case k_chipinfo K fd zero_chip_info k of
        (Inl e, k) \<Rightarrow> (-1, zero_chip_info, set_errno e c, k)
      | (Inr (ret, info), k) \<Rightarrow> if ret \<noteq> 0 then (-1, info, c, k) else (0, info, c, k))"

definition gpiod_chip_get_info ::
    "'k kernel \<Rightarrow> gpiod_chip \<Rightarrow> crt \<Rightarrow> 'k \<Rightarrow> gpiod_chip_info obj option \<times> crt \<times> 'k" where
  "gpiod_chip_get_info K chip c k =
     (case read_chip_info K (chip_fd chip) c k of
        (ret, info, c, k) \<Rightarrow>
          if ret < 0 then (None, c, k)
          else (case gpiod_chip_info_from_uapi info c of (r, c) \<Rightarrow> (r, c, k)))"

definition chip_read_line_info ::
    "'k kernel \<Rightarrow> int \<Rightarrow> u32 \<Rightarrow> bool \<Rightarrow> crt \<Rightarrow> 'k \<Rightarrow> int \<times> gpio_v2_line_info \<times> crt \<times> 'k" where
  "chip_read_line_info K fd offset watch c k =
     (let info = zero_line_info\<lparr>li_offset := offset\<rparr>;
          cmd = (if watch then k_lineinfo_watch K else k_lineinfo K)
      in case cmd fd info k of
           (Inl e, k) \<Rightarrow> (-1, info, set_errno e c, k)
         | (Inr (ret, info), k) \<Rightarrow> if ret \<noteq> 0 then (-1, info, c, k) else (0, info, c, k))"

definition chip_get_line_info ::
    "'k kernel \<Rightarrow> gpiod_chip \<Rightarrow> u32 \<Rightarrow> bool \<Rightarrow> crt \<Rightarrow> 'k \<Rightarrow> gpiod_line_info obj option \<times> crt \<times> 'k" where
  "chip_get_line_info K chip offset watch c k =
     (case chip_read_line_info K (chip_fd chip) offset watch c k of
        (ret, info, c, k) \<Rightarrow>
          if ret \<noteq> 0 then (None, c, k)
          else (case gpiod_line_info_from_uapi info c of (r, c) \<Rightarrow> (r, c, k)))"

definition gpiod_chip_get_line_info ::
    "'k kernel \<Rightarrow> gpiod_chip \<Rightarrow> u32 \<Rightarrow> crt \<Rightarrow> 'k \<Rightarrow> gpiod_line_info obj option \<times> crt \<times> 'k" where
  "gpiod_chip_get_line_info K chip offset c k = chip_get_line_info K chip offset False c k"

definition gpiod_chip_watch_line_info ::
    "'k kernel \<Rightarrow> gpiod_chip \<Rightarrow> u32 \<Rightarrow> crt \<Rightarrow> 'k \<Rightarrow> gpiod_line_info obj option \<times> crt \<times> 'k" where
  "gpiod_chip_watch_line_info K chip offset c k = chip_get_line_info K chip offset True c k"

definition gpiod_chip_unwatch_line_info ::
    "'k kernel \<Rightarrow> gpiod_chip \<Rightarrow> u32 \<Rightarrow> crt \<Rightarrow> 'k \<Rightarrow> int \<times> crt \<times> 'k" where
  "gpiod_chip_unwatch_line_info K chip offset c k =
     (case k_lineinfo_unwatch K (chip_fd chip) offset k of
        (Inl e, k) \<Rightarrow> (-1, set_errno e c, k)
      | (Inr ret, k) \<Rightarrow> (int ret, c, k))"

definition gpiod_chip_wait_info_event ::
    "'k kernel \<Rightarrow> gpiod_chip \<Rightarrow> int \<Rightarrow> crt \<Rightarrow> 'k \<Rightarrow> int \<times> crt \<times> 'k" where
  "gpiod_chip_wait_info_event K chip timeout_ns c k = gpiod_poll_fd K (chip_fd chip) timeout_ns c k"

definition gpiod_chip_read_info_event ::
    "'k kernel \<Rightarrow> gpiod_chip \<Rightarrow> crt \<Rightarrow> 'k \<Rightarrow> gpiod_info_event obj option \<times> crt \<times> 'k" where
  "gpiod_chip_read_info_event K chip c k = gpiod_info_event_read_fd K (chip_fd chip) c k"

section \<open>Looking up a line by name\<close>

text \<open>The loop over the offsets; the \<open>unsigned int\<close> offset is returned as an \<open>int\<close>.\<close>

fun offset_from_name_loop ::
    "'k kernel \<Rightarrow> int \<Rightarrow> string \<Rightarrow> nat list \<Rightarrow> crt \<Rightarrow> 'k \<Rightarrow> int \<times> crt \<times> 'k" where
  "offset_from_name_loop K fd name [] c k = (-1, set_errno ENOENT c, k)"
| "offset_from_name_loop K fd name (i # is) c k =
     (case chip_read_line_info K fd (of_nat i) False c k of
        (ret, linfo, c, k) \<Rightarrow>
          if ret \<noteq> 0 then (-1, c, k)
          else if strcmp_eq name (li_name linfo) then (sint (of_nat i :: u32), c, k)
          else offset_from_name_loop K fd name is c k)"


section \<open>Requesting lines\<close>

definition gpiod_chip_request_lines ::
    "'k kernel \<Rightarrow> gpiod_chip \<Rightarrow> gpiod_request_config option \<Rightarrow> gpiod_line_config option \<Rightarrow> crt \<Rightarrow> 'k
      \<Rightarrow> gpiod_line_request obj option \<times> crt \<times> 'k" where
  "gpiod_chip_request_lines K chip req_cfg line_cfg c k =
     (case line_cfg of
        None \<Rightarrow> (None, set_errno EINVAL c, k)
      | Some line_cfg \<Rightarrow>
          let uapi_req = zero_line_request;
              uapi_req = (case req_cfg of
                 None \<Rightarrow> uapi_req
               | Some req_cfg \<Rightarrow> gpiod_request_config_to_uapi req_cfg uapi_req)
          in
            (case gpiod_line_config_to_uapi line_cfg uapi_req c of
               (ret, uapi_req, c) \<Rightarrow>
                 if ret \<noteq> 0 then (None, c, k)
                 else
                   (case read_chip_info K (chip_fd chip) c k of
                      (ret, info, c, k) \<Rightarrow>
                        if ret < 0 then (None, c, k)
                        else
                          (case k_get_line K (chip_fd chip) uapi_req k of
                             (Inl e, k) \<Rightarrow> (None, set_errno e c, k)
                           | (Inr (_, uapi_req), k) \<Rightarrow>
                               (case gpiod_line_request_from_uapi uapi_req (c_str (ci_name info)) c of
                                  (None, c) \<Rightarrow> (None, c, k_close K (lr_fd uapi_req) k)
                                | (Some request, c) \<Rightarrow> (Some request, c, k))))))"

section \<open>Contracts of the kernel\<close>

text \<open>
  Descriptors: \<open>fds k\<close> are the open ones.  A successful \<open>open\<close> or line request returns a descriptor
  that was not open, \<open>close\<close> closes its argument, and nothing else changes the set.
\<close>

definition fd_contract :: "'k kernel \<Rightarrow> ('k \<Rightarrow> int set) \<Rightarrow> bool" where
  "fd_contract K fds \<longleftrightarrow>
     (\<forall>p k. case k_open K p k of (Inl e, k') \<Rightarrow> fds k' = fds k
        | (Inr fd, k') \<Rightarrow> int fd \<notin> fds k \<and> fds k' = insert (int fd) (fds k))
     \<and> (\<forall>fd u k. case k_get_line K fd u k of (Inl e, k') \<Rightarrow> fds k' = fds k
        | (Inr (r, u'), k') \<Rightarrow> lr_fd u' \<notin> fds k \<and> fds k' = insert (lr_fd u') (fds k))
     \<and> (\<forall>fd k. fds (k_close K fd k) = fds k - {fd})
     \<and> (\<forall>p k. fds (snd (k_lstat K p k)) = fds k) \<and> (\<forall>p k. fds (snd (k_stat K p k)) = fds k)
     \<and> (\<forall>p k. fds (snd (k_realpath K p k)) = fds k)
     \<and> (\<forall>fd i k. fds (snd (k_chipinfo K fd i k)) = fds k)"

text \<open>The line request ioctl writes back the descriptor and leaves the request as it was.\<close>

definition get_line_contract :: "'k kernel \<Rightarrow> bool" where
  "get_line_contract K \<longleftrightarrow> (\<forall>fd u k r u' k'. k_get_line K fd u k = (Inr (r, u'), k') \<longrightarrow>
     u' = u\<lparr>lr_fd := lr_fd u'\<rparr>)"

text \<open>The line information ioctl reports the name of the line it is asked for.\<close>

definition names_contract :: "'k kernel \<Rightarrow> (u32 \<Rightarrow> char list) \<Rightarrow> bool" where
  "names_contract K names \<longleftrightarrow> (\<forall>fd info k info' k'. k_lineinfo K fd info k = (Inr (0, info'), k') \<longrightarrow>
     li_name info' = names (li_offset info))"

lemma fd_contract_open:
  assumes "fd_contract K fds"
  shows "case k_open K p k of (Inl e, k') \<Rightarrow> fds k' = fds k
    | (Inr fd, k') \<Rightarrow> int fd \<notin> fds k \<and> fds k' = insert (int fd) (fds k)"
  using conjunct1 [OF assms [unfolded fd_contract_def]] by (elim allE)

lemma fd_contract_get_line:
  assumes "fd_contract K fds"
  shows "case k_get_line K fd u k of (Inl e, k') \<Rightarrow> fds k' = fds k
    | (Inr (r, u'), k') \<Rightarrow> lr_fd u' \<notin> fds k \<and> fds k' = insert (lr_fd u') (fds k)"
  using conjunct1 [OF conjunct2 [OF assms [unfolded fd_contract_def]]] by (elim allE)

lemma fd_contract_close: "fd_contract K fds \<Longrightarrow> fds (k_close K fd k) = fds k - {fd}"
  by (simp add: fd_contract_def)

section \<open>Memory and descriptors of the device check\<close>

lemma check_realname_heap:
  assumes heap: "heap_ok c" and b: "fst rn \<in> live c"
    and run: "check_realname K rn c k = (r, c', k')"
  shows "heap_ok c' \<and> live c' = live c - {fst rn}"
proof -
  obtain x k1 where st: "k_stat K (snd rn) k = (x, k1)" by fastforce
  show ?thesis
  proof (cases x)
    case (Inl e)
    with st run heap b show ?thesis by (auto simp: check_realname_def heap_ok_free)
  next
    case (Inr sb)
    show ?thesis
    proof (cases "st_is_chr sb")
      case False
      with Inr st run heap b show ?thesis by (auto simp: check_realname_def heap_ok_free)
    next
      case True
      obtain q c1 k2 where rp: "realpath K (devpath sb) c k1 = (q, c1, k2)" by (rule prod_cases3)
      note h = realpath_heap [OF heap rp]
      show ?thesis
      proof (cases q)
        case None
        have "c' = free (fst rn) c1"
          using run by (simp add: check_realname_def st Inr True rp None)
        with h None b show ?thesis by (simp add: heap_ok_free)
      next
        case (Some p)
        obtain pb s where p: "p = (pb, s)" by (cases p)
        have "heap_ok (free pb c1)" using h Some p by (intro heap_ok_free) simp_all
        then have "heap_ok (free (fst rn) (free pb c1))"
          using h Some p b by (intro heap_ok_free) auto
        moreover obtain e where "c' = free (fst rn) (free pb (set_errno e c1))"
        proof (cases "s = ''/sys/bus/gpio''")
          case eq: True
          show ?thesis
            by (rule that [of ENONE])
              (use run in \<open>simp add: check_realname_def st Inr True rp Some p eq\<close>)
        next
          case ne: False
          show ?thesis
            by (rule that [of ENODEV])
              (use run in \<open>simp add: check_realname_def st Inr True rp Some p ne set_errno_def\<close>)
        qed
        ultimately show ?thesis
          using h Some p b by (auto simp: heap_ok_def)
      qed
    qed
  qed
qed

lemma check_path_heap:
  assumes heap: "heap_ok c" and run: "check_path K path c k = (r, c', k')"
  shows "heap_ok c' \<and> live c' = live c"
proof (cases path)
  case None
  with run heap show ?thesis by (auto simp: check_path_def)
next
  case (Some p)
  obtain x k1 where st: "k_lstat K p k = (x, k1)" by fastforce
  show ?thesis
  proof (cases x)
    case (Inl e)
    with Some st run heap show ?thesis by (auto simp: check_path_def)
  next
    case (Inr sb)
    obtain q c1 k2 where nm: "(if st_is_lnk sb then realpath K p c k1
        else (case strdup p c of (r, c) \<Rightarrow> (r, c, k1))) = (q, c1, k2)" by (rule prod_cases3)
    have h: "heap_ok c1 \<and> (case q of None \<Rightarrow> live c1 = live c
        | Some (b, s) \<Rightarrow> live c1 = insert b (live c) \<and> b \<notin> live c)"
    proof (cases "st_is_lnk sb")
      case True
      with nm realpath_heap [OF heap] show ?thesis by simp
    next
      case False
      with nm strdup_heap [OF heap, of p q c1] show ?thesis
        by (auto split: prod.splits option.splits)
    qed
    show ?thesis
    proof (cases q)
      case None
      have "c' = c1" using run by (simp add: check_path_def Some st Inr nm None)
      with h None show ?thesis by simp
    next
      case q: (Some rn)
      then have "check_realname K rn c1 k2 = (r, c', k')"
        using run by (simp add: check_path_def Some st Inr nm)
      with h q show ?thesis
        using check_realname_heap [of c1 rn K k2 r c' k'] by (auto split: prod.splits)
    qed
  qed
qed

lemma check_device_heap:
  assumes "heap_ok c" "gpiod_check_gpiochip_device K path se c k = (r, c', k')"
  shows "heap_ok c' \<and> live c' = live c"
proof -
  obtain r1 c1 k1 where cp: "check_path K path c k = (r1, c1, k1)" by (rule prod_cases3)
  have "c' = (if se then c1 else set_errno ENONE c1)"
    using assms(2) by (simp add: gpiod_check_gpiochip_device_def cp)
  with check_path_heap [OF assms(1) cp] show ?thesis by simp
qed

lemma realpath_fds:
  assumes "fd_contract K fds"
  shows "fds (snd (snd (realpath K p c k))) = fds k"
proof -
  obtain x k1 where rp: "k_realpath K p k = (x, k1)" by fastforce
  have "fds (snd (k_realpath K p k)) = fds k" using assms by (simp add: fd_contract_def)
  then have k1: "fds k1 = fds k" by (simp add: rp)
  show ?thesis
  proof (cases x)
    case (Inl e)
    with k1 show ?thesis by (simp add: realpath_def rp)
  next
    case (Inr s)
    with k1 show ?thesis by (cases "malloc_obj s c") (simp add: realpath_def rp)
  qed
qed

lemma check_realname_fds:
  assumes kc: "fd_contract K fds"
  shows "fds (snd (snd (check_realname K rn c k))) = fds k"
proof -
  obtain x k1 where st: "k_stat K (snd rn) k = (x, k1)" by fastforce
  have "fds (snd (k_stat K (snd rn) k)) = fds k" using kc by (simp add: fd_contract_def)
  with st have k1: "fds k1 = fds k" by simp
  show ?thesis
  proof (cases x)
    case (Inl e)
    with st k1 show ?thesis by (simp add: check_realname_def)
  next
    case (Inr sb)
    obtain q c2 k2 where rp: "realpath K (devpath sb) c k1 = (q, c2, k2)" by (rule prod_cases3)
    with realpath_fds [OF kc, of "devpath sb" c k1] k1 have "fds k2 = fds k" by simp
    with k1 show ?thesis
      by (cases q; cases "st_is_chr sb") (simp_all add: check_realname_def st Inr rp Let_def)
  qed
qed

lemma check_device_fds:
  assumes kc: "fd_contract K fds" and run: "gpiod_check_gpiochip_device K path se c k = (r, c', k')"
  shows "fds k' = fds k"
proof -
  have ls: "fds (snd (k_lstat K p k)) = fds k" for p using kc by (simp add: fd_contract_def)
  have nm: "fds (snd (snd (if st_is_lnk sb then realpath K p c k1
      else (case strdup p c of (r, c) \<Rightarrow> (r, c, k1))))) = fds k1" for sb p k1
    using realpath_fds [OF kc, of p c k1] by (cases "strdup p c") simp
  have "fds (snd (snd (check_path K path c k))) = fds k"
  proof (cases path)
    case None
    then show ?thesis by (simp add: check_path_def)
  next
    case (Some p)
    obtain x k1 where st: "k_lstat K p k = (x, k1)" by fastforce
    with ls [of p] have k1: "fds k1 = fds k" by simp
    show ?thesis
    proof (cases x)
      case (Inl e)
      with Some st k1 show ?thesis by (simp add: check_path_def)
    next
      case (Inr sb)
      obtain q c1 k2 where q: "(if st_is_lnk sb then realpath K p c k1
          else (case strdup p c of (r, c) \<Rightarrow> (r, c, k1))) = (q, c1, k2)" by (rule prod_cases3)
      have k2: "fds k2 = fds k" using nm [of sb p k1] k1 unfolding q by simp
      show ?thesis
        using k2 check_realname_fds [OF kc]
        by (cases q) (simp_all add: check_path_def Some st Inr q)
    qed
  qed
  with run show ?thesis by (cases "check_path K path c k") (simp add: gpiod_check_gpiochip_device_def)
qed

section \<open>Opening and closing\<close>

definition chip_blocks :: "gpiod_chip obj \<Rightarrow> nat set" where
  "chip_blocks p = {fst p, fst (chip_path (snd p))}"

lemma chip_open_cases [consumes 3]:
  assumes heap: "heap_ok c" and kc: "fd_contract K fds"
    and run: "gpiod_chip_open K path c k = (r, c', k')"
  obtains (failed) "r = None" "heap_ok c'" "live c' = live c" "fds k' = fds k"
  | (opened) p where "r = Some p" "heap_ok c'" "live c' = live c \<union> chip_blocks p"
      "live c \<inter> chip_blocks p = {}" "fst p \<noteq> fst (chip_path (snd p))"
      "chip_fd (snd p) \<notin> fds k" "fds k' = insert (chip_fd (snd p)) (fds k)"
      "path = Some (gpiod_chip_get_path (snd p))"
proof (cases path)
  case None
  with run heap show ?thesis by (intro that(1)) (auto simp: gpiod_chip_open_def)
next
  case (Some p)
  obtain d c1 k1 where dev: "gpiod_check_gpiochip_device K (Some p) True c k = (d, c1, k1)"
    by (rule prod_cases3)
  note h1 = check_device_heap [OF heap dev] and f1 = check_device_fds [OF kc dev]
  obtain x k2 where op: "k_open K p k1 = (x, k2)" by fastforce
  have "case k_open K p k1 of (Inl e, k') \<Rightarrow> fds k' = fds k1
      | (Inr fd, k') \<Rightarrow> int fd \<notin> fds k1 \<and> fds k' = insert (int fd) (fds k1)"
    by (rule fd_contract_open [OF kc])
  with op have f2: "case x of Inl e \<Rightarrow> fds k2 = fds k1
      | Inr fd \<Rightarrow> int fd \<notin> fds k1 \<and> fds k2 = insert (int fd) (fds k1)" by simp
  have cl: "fds (k_close K fd k2) = fds k2 - {fd}" for fd by (rule fd_contract_close [OF kc])
  show ?thesis
  proof (cases "\<not> d \<or> (\<exists>e. x = Inl e)")
    case True
    then have "r = None \<and> live c' = live c1 \<and> heap_ok c' = heap_ok c1 \<and> fds k' = fds k1"
      using run f2 by (cases d; cases x) (simp_all add: gpiod_chip_open_def Some dev op, auto)
    with h1 f1 show ?thesis by (intro that(1)) simp_all
  next
    case False
    then obtain fd where d: "d" and x: "x = Inr fd" by (cases x) auto
    have run1: "(case malloc c1 of
        (None, c) \<Rightarrow> (None, c, k_close K (int fd) k2)
      | (Some chip, c) \<Rightarrow>
          (case strdup p c of
             (None, c) \<Rightarrow> (None, free chip c, k_close K (int fd) k2)
           | (Some path, c) \<Rightarrow> (Some (chip, \<lparr>chip_fd = int fd, chip_path = path\<rparr>), c, k2))) = (r, c', k')"
      using run d by (simp add: gpiod_chip_open_def Some dev op x)
    have closed: "fds (k_close K (int fd) k2) = fds k" using cl f1 f2 x by simp
    let ?c2 = "c1\<lparr>nalloc := Suc (nalloc c1), live := insert (nalloc c1) (live c1)\<rparr>"
    show ?thesis
    proof (cases rule: malloc_cases [of c1])
      case fail
      then have res: "r = None" "c' = set_errno ENOMEM (c1\<lparr>nalloc := Suc (nalloc c1)\<rparr>)"
        "k' = k_close K (int fd) k2" using run1 by simp_all
      show ?thesis
        by (rule that(1)) (use res closed h1 in \<open>auto simp: heap_ok_def less_Suc_eq\<close>)
    next
      case ok
      show ?thesis
      proof (cases rule: malloc_obj_cases [of p ?c2])
        case fail
        then have res: "r = None" "c' = free (nalloc c1) (set_errno ENOMEM (?c2\<lparr>nalloc := Suc (Suc (nalloc c1))\<rparr>))"
          "k' = k_close K (int fd) k2" using ok run1 by (simp_all add: strdup_def)
        show ?thesis
          by (rule that(1)) (use res closed h1 in \<open>auto simp: heap_ok_def less_Suc_eq\<close>)
      next
        case ok2: ok
        with ok run1 have res: "r = Some (nalloc c1, \<lparr>chip_fd = int fd, chip_path = (Suc (nalloc c1), p)\<rparr>)"
          "c' = ?c2\<lparr>nalloc := Suc (Suc (nalloc c1)), live := insert (Suc (nalloc c1)) (insert (nalloc c1) (live c1))\<rparr>"
          "k' = k2" by (simp_all add: strdup_def)
        have "heap_ok c'" using h1 by (auto simp: res heap_ok_def less_Suc_eq)
        with h1 f1 f2 show ?thesis
          by (intro that(2) [OF res(1)])
            (auto simp: res x Some heap_ok_def chip_blocks_def gpiod_chip_get_path_def)
      qed
    qed
  qed
qed

section \<open>Search by name\<close>

lemma read_line_info_name:
  assumes "names_contract K names" "chip_read_line_info K fd off False c k = (0, linfo, c', k')"
  shows "li_name linfo = names off \<and> c' = c"
  using assms
  by (fastforce simp: chip_read_line_info_def Let_def names_contract_def
      split: prod.splits sum.splits if_splits)

lemma read_line_info_ret:
  "chip_read_line_info K fd off w c k = (ret, linfo, c', k') \<Longrightarrow> ret = 0 \<or> ret = -1"
  by (auto simp: chip_read_line_info_def Let_def split: prod.splits sum.splits if_splits)

text \<open>The loop stops at the first failing ioctl or the first name that matches.\<close>

lemma offset_from_name_loop_run:
  assumes kc: "names_contract K names"
    and run: "offset_from_name_loop K fd name [i..<n] c k = (ret, c', k')" and n: "n \<le> 2 ^ 31" "i \<le> n"
  shows "(0 \<le> ret \<longrightarrow> i \<le> nat ret \<and> nat ret < n \<and> strcmp_eq name (names (of_nat (nat ret)))
       \<and> (\<forall>j. i \<le> j \<and> j < nat ret \<longrightarrow> \<not> strcmp_eq name (names (of_nat j))) \<and> c' = c)
     \<and> (ret < 0 \<longrightarrow> ret = -1)"
  using run n
proof (induction "n - i" arbitrary: i c k)
  case 0
  then show ?case by auto
next
  case (Suc m)
  have i: "i < n" "m = n - Suc i" using Suc.hyps(2) by auto
  obtain r linfo c1 k1 where rd: "chip_read_line_info K fd (of_nat i) False c k = (r, linfo, c1, k1)"
    by (rule prod_cases4)
  note step = Suc.prems(1) [unfolded upt_conv_Cons [OF i(1)] offset_from_name_loop.simps rd prod.case]
  show ?case
  proof (cases "r = 0")
    case False
    with step show ?thesis by auto
  next
    case True
    note nm = read_line_info_name [OF kc rd [unfolded True]]
    show ?thesis
    proof (cases "strcmp_eq name (names (of_nat i))")
      case match: True
      have "sint (of_nat i :: u32) = int i"
        using i n by (intro sint_u32_of_nat) simp
      with step True nm match i show ?thesis by auto
    next
      case no: False
      with step True nm have "offset_from_name_loop K fd name [Suc i..<n] c k1 = (ret, c', k')" by simp
      note IH = Suc.hyps(1) [OF i(2) this n(1) Suc_leI [OF i(1)]]
      have "i \<le> j \<longleftrightarrow> j = i \<or> Suc i \<le> j" for j by auto
      with IH no show ?thesis by auto
    qed
  qed
qed

text \<open>When every line can be read, the result is the first line with that name.\<close>

definition lineinfo_answers :: "'k kernel \<Rightarrow> bool" where
  "lineinfo_answers K \<longleftrightarrow> (\<forall>fd info k. \<exists>info' k'. k_lineinfo K fd info k = (Inr (0, info'), k'))"


section \<open>Memory of a line request\<close>

definition request_blocks :: "gpiod_line_request obj \<Rightarrow> nat set" where
  "request_blocks r = {fst r, fst (req_chip_name (snd r))}"

definition request_of_uapi :: "gpio_v2_line_request \<Rightarrow> string obj \<Rightarrow> gpiod_line_request" where
  "request_of_uapi u name = \<lparr>req_chip_name = name,
     req_offsets = memcpy (replicate GPIO_V2_LINES_MAX 0) (lr_offsets u) (unat (lr_num_lines u)),
     req_num_lines = unat (lr_num_lines u), req_fd = lr_fd u\<rparr>"

lemma request_from_uapi_cases [consumes 2]:
  assumes heap: "heap_ok c" and run: "gpiod_line_request_from_uapi u name c = (r, c')"
  obtains (failed) "r = None" "heap_ok c'" "live c' = live c" "crt_errno c' = ENOMEM"
  | (made) b nb where "r = Some (b, request_of_uapi u (nb, name))" "heap_ok c'"
      "live c' = insert b (insert nb (live c))" "b \<notin> live c" "nb \<notin> live c" "b \<noteq> nb"
proof (cases rule: malloc_cases [of c])
  case fail
  then have "r = None" "c' = set_errno ENOMEM (c\<lparr>nalloc := Suc (nalloc c)\<rparr>)"
    using run by (simp_all add: gpiod_line_request_from_uapi_def)
  with heap show ?thesis by (intro that(1)) (auto simp: heap_ok_def less_Suc_eq)
next
  case ok
  let ?c1 = "c\<lparr>nalloc := Suc (nalloc c), live := insert (nalloc c) (live c)\<rparr>"
  show ?thesis
  proof (cases rule: malloc_obj_cases [of name ?c1])
    case fail
    with ok have "r = None"
      "c' = free (nalloc c) (set_errno ENOMEM (?c1\<lparr>nalloc := Suc (Suc (nalloc c))\<rparr>))"
      using run by (simp_all add: gpiod_line_request_from_uapi_def strdup_def)
    with heap show ?thesis by (intro that(1)) (auto simp: heap_ok_def less_Suc_eq)
  next
    case ok2: ok
    with ok have res: "r = Some (nalloc c, request_of_uapi u (Suc (nalloc c), name))"
      "c' = ?c1\<lparr>nalloc := Suc (Suc (nalloc c)), live := insert (Suc (nalloc c)) (insert (nalloc c) (live c))\<rparr>"
      using run by (simp_all add: gpiod_line_request_from_uapi_def strdup_def request_of_uapi_def)
    with heap show ?thesis by (intro that(2) [OF res(1)]) (auto simp: heap_ok_def less_Suc_eq)
  qed
qed

interpretation request_heap: heap_object "gpiod_line_request_from_uapi u name"
    "\<lambda>r c. fst (gpiod_line_request_release K (Some r) c k)" request_blocks
    "\<lambda>r. fst r \<noteq> fst (req_chip_name (snd r))" for u name K k
proof
  fix c c' :: crt
  assume new: "gpiod_line_request_from_uapi u name c = (None, c')" and heap: "heap_ok c"
  from heap new show "heap_ok c' \<and> live c' = live c"
    by (cases rule: request_from_uapi_cases) simp_all
next
  fix c c' :: crt and r
  assume new: "gpiod_line_request_from_uapi u name c = (Some r, c')" and heap: "heap_ok c"
  from heap new show "heap_ok c' \<and> live c' = live c \<union> request_blocks r \<and> live c \<inter> request_blocks r = {}
      \<and> fst r \<noteq> fst (req_chip_name (snd r))"
    by (cases rule: request_from_uapi_cases) (auto simp: request_blocks_def request_of_uapi_def)
next
  fix c :: crt and r :: "gpiod_line_request obj"
  assume "heap_ok c" "fst r \<noteq> fst (req_chip_name (snd r))" "request_blocks r \<subseteq> live c"
  then show "heap_ok (fst (gpiod_line_request_release K (Some r) c k))
      \<and> live (fst (gpiod_line_request_release K (Some r) c k)) = live c - request_blocks r"
    by (auto simp: gpiod_line_request_release_def free_obj_def request_blocks_def heap_ok_free)
qed

section \<open>The outcomes of requesting lines\<close>

definition uapi_start :: "gpiod_request_config option \<Rightarrow> gpio_v2_line_request" where
  "uapi_start rc = (case rc of None \<Rightarrow> zero_line_request
     | Some rc \<Rightarrow> gpiod_request_config_to_uapi rc zero_line_request)"

lemma uapi_start_lengths:
  "length (lc_attrs (lr_config (uapi_start rc))) = 10" "length (lr_offsets (uapi_start rc)) = 64"
  by (simp_all add: uapi_start_def zero_line_request_def zero_line_config_def uapi_limits split: option.splits)

lemma set_offsets_frame [simp]:
  "lr_consumer (set_offsets config u) = lr_consumer u"
  "lr_event_buffer_size (set_offsets config u) = lr_event_buffer_size u"
proof -
  have "lr_consumer (fold (\<lambda>i u. u\<lparr>lr_offsets := (lr_offsets u)[i := f i]\<rparr>) is u) = lr_consumer u
      \<and> lr_event_buffer_size (fold (\<lambda>i u. u\<lparr>lr_offsets := (lr_offsets u)[i := f i]\<rparr>) is u)
        = lr_event_buffer_size u" for f "is" and u :: gpio_v2_line_request
    by (induction "is" arbitrary: u) simp_all
  then show "lr_consumer (set_offsets config u) = lr_consumer u"
    "lr_event_buffer_size (set_offsets config u) = lr_event_buffer_size u"
    by (simp_all add: set_offsets_def Let_def)
qed

text \<open>What the kernel is asked for: the request the encoder built.\<close>

definition asks_for :: "gpiod_line_config \<Rightarrow> gpiod_request_config option \<Rightarrow> gpio_v2_line_request \<Rightarrow> bool" where
  "asks_for config rc u \<longleftrightarrow> encodes config (lr_config u)
     \<and> unat (lr_num_lines u) = cfg_num_configs config \<and> length (lr_offsets u) = 64
     \<and> take (cfg_num_configs config) (lr_offsets u) = config_offsets config
     \<and> lr_consumer u = lr_consumer (uapi_start rc)
     \<and> lr_event_buffer_size u = lr_event_buffer_size (uapi_start rc)"

lemma to_uapi_asks_for:
  assumes "config_wf config" "gpiod_line_config_to_uapi config (uapi_start rc) c = (ret, u, c')"
  shows "if attrs_needed config \<le> 10 then ret = 0 \<and> asks_for config rc u \<and> c' = c
    else ret = -1 \<and> c' = set_errno E2BIG c"
proof -
  from assms(1) have n: "cfg_num_configs config \<le> 64" "length (cfg_line_configs config) = 64"
    by (simp_all add: config_wf_def)
  note run = to_uapi_run [OF n(1) uapi_start_lengths(1), of rc c]
  note offs = set_offsets_offsets [OF n(1) uapi_start_lengths(2) n(2), of rc]
  show ?thesis
  proof (cases "attrs_needed config \<le> 10")
    case True
    with run obtain lc where "gpiod_line_config_to_uapi config (uapi_start rc) c
        = (0, (set_offsets config (uapi_start rc))\<lparr>lr_config := lc\<rparr>, c)" "encodes config lc" by auto
    with assms(2) offs True show ?thesis by (auto simp: asks_for_def)
  next
    case False
    with run obtain u' where "gpiod_line_config_to_uapi config (uapi_start rc) c
        = (-1, u', set_errno E2BIG c)" by auto
    with assms(2) False show ?thesis by simp
  qed
qed

lemma chip_close_heap:
  assumes kc: "fd_contract K fds" and c: "heap_ok c" "live c = L \<union> chip_blocks p" "L \<inter> chip_blocks p = {}"
    and p: "fst p \<noteq> fst (chip_path (snd p))"
    and k: "fds k = insert (chip_fd (snd p)) F" "chip_fd (snd p) \<notin> F"
    and run: "gpiod_chip_close K (Some p) c k = (c', k')"
  shows "heap_ok c' \<and> live c' = L \<and> fds k' = F"
proof -
  have "fst (chip_path (snd p)) \<in> live c" "fst p \<in> live (free (fst (chip_path (snd p))) c)"
    using c p by (auto simp: chip_blocks_def)
  then have "heap_ok (free (fst p) (free (fst (chip_path (snd p))) c))" using c(1) by (intro heap_ok_free)
  moreover have "live (free (fst p) (free (fst (chip_path (snd p))) c)) = L"
    using c(2,3) p by (auto simp: chip_blocks_def)
  moreover have "fds (k_close K (chip_fd (snd p)) k) = F" using k fd_contract_close [OF kc] by simp
  ultimately show ?thesis using run by (auto simp: gpiod_chip_close_def free_obj_def)
qed

lemma read_chip_info_cases:
  assumes "fd_contract K fds" "read_chip_info K fd c k = (ret, info, c', k')"
  shows "fds k' = fds k \<and> live c' = live c \<and> heap_ok c' = heap_ok c \<and> (ret = 0 \<or> ret = -1)"
proof -
  obtain x k1 where io: "k_chipinfo K fd zero_chip_info k = (x, k1)" by fastforce
  have "fds (snd (k_chipinfo K fd zero_chip_info k)) = fds k" using assms(1) by (simp add: fd_contract_def)
  then have k1: "fds k1 = fds k" by (simp add: io)
  show ?thesis
  proof (cases x)
    case (Inl e)
    then have "ret = -1" "c' = set_errno e c" "k' = k1" using assms(2) by (simp_all add: read_chip_info_def io)
    with k1 show ?thesis by simp
  next
    case (Inr y)
    then have "(ret = 0 \<or> ret = -1) \<and> c' = c \<and> k' = k1"
      using assms(2) by (cases y; cases "fst y = 0") (simp_all add: read_chip_info_def io)
    with k1 show ?thesis by simp
  qed
qed

lemma request_lines_cases [consumes 4]:
  assumes heap: "heap_ok c" and kc: "fd_contract K fds" and wf: "config_wf config"
    and run: "gpiod_chip_request_lines K chip rc (Some config) c k = (r, c', k')"
  obtains (too_many) "10 < attrs_needed config" "r = None" "c' = set_errno E2BIG c" "k' = k"
  | (failed) "attrs_needed config \<le> 10" "r = None" "heap_ok c'" "live c' = live c" "fds k' = fds k"
  | (granted) b nb name u u' ret k1 where "attrs_needed config \<le> 10"
      "r = Some (b, request_of_uapi u' (nb, name))" "asks_for config rc u"
      "k_get_line K (chip_fd chip) u k1 = (Inr (ret, u'), k')" "heap_ok c'"
      "live c' = insert b (insert nb (live c))" "b \<notin> live c" "nb \<notin> live c" "b \<noteq> nb"
      "lr_fd u' \<notin> fds k" "fds k' = insert (lr_fd u') (fds k)"
proof -
  obtain ret u c1 where enc: "gpiod_line_config_to_uapi config (uapi_start rc) c = (ret, u, c1)"
    by (rule prod_cases3)
  note asks = to_uapi_asks_for [OF wf enc]
  show ?thesis
  proof (cases "attrs_needed config \<le> 10")
    case False
    with asks run enc show ?thesis
      by (intro that(1)) (simp_all add: gpiod_chip_request_lines_def uapi_start_def [symmetric] Let_def)
  next
    case fits: True
    with asks have enc0: "gpiod_line_config_to_uapi config (uapi_start rc) c = (0, u, c)"
      and ask: "asks_for config rc u" using enc by simp_all
    obtain ret2 info c2 k2 where ci: "read_chip_info K (chip_fd chip) c k = (ret2, info, c2, k2)"
      by (rule prod_cases4)
    note cis = read_chip_info_cases [OF kc ci]
    note unf = gpiod_chip_request_lines_def uapi_start_def [symmetric] Let_def enc0 ci
    show ?thesis
    proof (cases "ret2 < 0")
      case True
      then have "r = None" "c' = c2" "k' = k2" using run by (simp_all add: unf)
      with cis heap fits show ?thesis by (intro that(2)) simp_all
    next
      case ok: False
      obtain x k3 where gl: "k_get_line K (chip_fd chip) u k2 = (x, k3)" by fastforce
      note fdl = fd_contract_get_line [OF kc, where fd = "chip_fd chip" and u = u and k = k2, unfolded gl]
      show ?thesis
      proof (cases x)
        case (Inl e)
        then have "r = None" "c' = set_errno e c2" "k' = k3" using run ok by (simp_all add: unf gl)
        with cis heap fits fdl Inl show ?thesis by (intro that(2)) simp_all
      next
        case (Inr ru)
        obtain ret3 u' where ru: "ru = (ret3, u')" by fastforce
        obtain q c3 where fu: "gpiod_line_request_from_uapi u' (c_str (ci_name info)) c2 = (q, c3)"
          by fastforce
        have "heap_ok c2" using cis heap by simp
        from this fu show ?thesis
        proof (cases rule: request_from_uapi_cases)
          case failed
          then have "r = None" "c' = c3" "k' = k_close K (lr_fd u') k3"
            using run ok by (simp_all add: unf gl Inr ru fu)
          with failed cis fits fdl Inr ru fd_contract_close [OF kc] show ?thesis
            by (intro that(2)) simp_all
        next
          case (made b nb)
          then have res: "r = Some (b, request_of_uapi u' (nb, c_str (ci_name info)))" "c' = c3" "k' = k3"
            using run ok by (simp_all add: unf gl Inr ru fu)
          show ?thesis
            by (rule that(3) [OF fits res(1) ask, of k2 ret3])
              (use made cis fdl Inr ru res gl in simp_all)
        qed
      qed
    qed
  qed
qed

text \<open>The offsets of a granted request are the configured ones.\<close>

lemma request_lines_offsets:
  assumes kc: "get_line_contract K" and wf: "config_wf config"
    and run: "gpiod_chip_request_lines K chip rc (Some config) c k = (Some request, c', k')"
  shows "take (req_num_lines (snd request)) (req_offsets (snd request)) = config_offsets config
    \<and> request_ok (snd request)"
proof -
  obtain ret u c1 where enc: "gpiod_line_config_to_uapi config (uapi_start rc) c = (ret, u, c1)" by (rule prod_cases3)
  obtain ret2 info c2 k2 where ci: "read_chip_info K (chip_fd chip) c1 k = (ret2, info, c2, k2)" by (rule prod_cases4)
  obtain x k3 where gl: "k_get_line K (chip_fd chip) u k2 = (x, k3)" by fastforce
  note unf = gpiod_chip_request_lines_def uapi_start_def [symmetric] Let_def enc ci gl
  from run have ok: "ret = 0" "\<not> ret2 < 0" by (auto simp: unf split: if_splits)
  with run obtain r u' where x: "x = Inr (r, u')" by (cases x) (auto simp: unf)
  obtain q c3 where fu: "gpiod_line_request_from_uapi u' (c_str (ci_name info)) c2 = (q, c3)" by fastforce
  with run ok x have q: "q = Some request" by (cases q) (simp_all add: unf)
  have u': "lr_num_lines u' = lr_num_lines u" "lr_offsets u' = lr_offsets u"
  proof -
    have eq: "u' = u\<lparr>lr_fd := lr_fd u'\<rparr>" using kc gl x unfolding get_line_contract_def by blast
    show "lr_num_lines u' = lr_num_lines u" "lr_offsets u' = lr_offsets u" by (subst eq, simp)+
  qed
  have a: "asks_for config rc u" using to_uapi_asks_for [OF wf enc] ok by (auto split: if_splits)
  from fu q have req: "req_offsets (snd request) = memcpy (replicate GPIO_V2_LINES_MAX 0) (lr_offsets u) (unat (lr_num_lines u))"
    "req_num_lines (snd request) = unat (lr_num_lines u)"
    by (auto simp: gpiod_line_request_from_uapi_def u' split: prod.splits option.splits)
  have n: "cfg_num_configs config \<le> 64" "distinct (config_offsets config)" using wf by (simp_all add: config_wf_def)
  have offs: "take (cfg_num_configs config) (req_offsets (snd request)) = config_offsets config"
    using a n by (simp add: asks_for_def req memcpy_def length_config_offsets [OF wf])
  with a n show ?thesis
    by (simp add: asks_for_def request_ok_def req memcpy_def uapi_limits length_config_offsets [OF wf])
qed

section \<open>A sample system\<close>

text \<open>
  A system with one chip of 8 lines.  Its state is the list of open descriptors; a new descriptor is
  larger than all of them.
\<close>

definition fresh_fd :: "nat list \<Rightarrow> nat" where
  "fresh_fd k = Suc (foldr max k 0)"

definition sample_name :: "u32 \<Rightarrow> char list" where
  "sample_name off = (if off = 5 then ''LED0'' @ replicate 28 NUL else replicate 32 NUL)"

definition chip_kernel :: "nat list kernel" where
  "chip_kernel = null_kernel\<lparr>
     k_lstat := (\<lambda>_ k. (Inr \<lparr>st_is_lnk = False, st_is_chr = True, st_major = 254, st_minor = 0\<rparr>, k)),
     k_stat := (\<lambda>_ k. (Inr \<lparr>st_is_lnk = False, st_is_chr = True, st_major = 254, st_minor = 0\<rparr>, k)),
     k_realpath := (\<lambda>_ k. (Inr ''/sys/bus/gpio'', k)),
     k_open := (\<lambda>_ k. (Inr (fresh_fd k), fresh_fd k # k)),
     k_close := (\<lambda>fd k. filter (\<lambda>n. int n \<noteq> fd) k),
     k_chipinfo := (\<lambda>_ info k. (Inr (0, info\<lparr>ci_name := ''gpiochip0'' @ replicate 23 NUL, ci_lines := 8\<rparr>), k)),
     k_lineinfo := (\<lambda>_ info k. (Inr (0, info\<lparr>li_name := sample_name (li_offset info)\<rparr>), k)),
     k_get_line := (\<lambda>_ u k. (Inr (0, u\<lparr>lr_fd := int (fresh_fd k)\<rparr>), fresh_fd k # k))\<rparr>"

definition chip_fds :: "nat list \<Rightarrow> int set" where
  "chip_fds k = int ` set k"

lemma foldr_max_ge: "n \<in> set k \<Longrightarrow> n \<le> foldr max k (0 :: nat)"
  by (induction k) (auto simp: max_def)

lemma fresh_fd_fresh: "int (fresh_fd k) \<notin> int ` set k"
  using foldr_max_ge [of _ k] by (fastforce simp: fresh_fd_def)

lemma chip_kernel_contracts:
  "fd_contract chip_kernel chip_fds" "get_line_contract chip_kernel"
  "names_contract chip_kernel sample_name" "lineinfo_answers chip_kernel"
  using fresh_fd_fresh
  by (auto simp: fd_contract_def get_line_contract_def names_contract_def lineinfo_answers_def
      chip_kernel_def null_kernel_def chip_fds_def)

section \<open>Properties\<close>

text \<open>
  C20: Opening and closing a chip.  If \<open>gpiod_chip_open\<close> fails at any step (the device check, the
  \<open>open\<close>, either allocation) no block and no descriptor stays behind.  If it succeeds the chip owns
  one new descriptor and two new blocks, and \<open>gpiod_chip_close\<close> releases exactly these.
\<close>

theorem chip_open_close:
  assumes "heap_ok c" "fd_contract K fds" "gpiod_chip_open K path c k = (r, c', k')"
  shows "case r of
      None \<Rightarrow> heap_ok c' \<and> live c' = live c \<and> fds k' = fds k
    | Some p \<Rightarrow> path = Some (gpiod_chip_get_path (snd p))
        \<and> fds k' = insert (gpiod_chip_get_fd (snd p)) (fds k) \<and> gpiod_chip_get_fd (snd p) \<notin> fds k
        \<and> live c' = live c \<union> chip_blocks p \<and> live c \<inter> chip_blocks p = {}
        \<and> (case gpiod_chip_close K (Some p) c' k' of
             (c2, k2) \<Rightarrow> heap_ok c2 \<and> live c2 = live c \<and> fds k2 = fds k)"
  using assms
proof (cases rule: chip_open_cases)
  case failed
  then show ?thesis by simp
next
  case (opened p)
  obtain c2 k2 where cl: "gpiod_chip_close K (Some p) c' k' = (c2, k2)" by fastforce
  have "heap_ok c2 \<and> live c2 = live c \<and> fds k2 = fds k" by (rule chip_close_heap [OF assms(2) _ _ _ _ _ _ cl]) (use opened in auto)
  with opened cl show ?thesis by (simp add: gpiod_chip_get_fd_def)
qed

theorem chip_open_close_witness:
  "case gpiod_chip_open chip_kernel (Some ''/dev/gpiochip0'') crt_init [0, 1, 2] of (r, c', k') \<Rightarrow>
     r \<noteq> None \<and> chip_fds (snd (gpiod_chip_close chip_kernel r c' k')) = {0, 1, 2}"
proof -
  obtain r c' k' where op: "gpiod_chip_open chip_kernel (Some ''/dev/gpiochip0'') crt_init [0, 1, 2] = (r, c', k')"
    by (rule prod_cases3)
  have "fst (gpiod_chip_open chip_kernel (Some ''/dev/gpiochip0'') crt_init [0, 1, 2]) \<noteq> None" by code_simp
  with op obtain p where r: "r = Some p" by auto
  have "chip_fds [0, 1, 2] = {0, 1, 2}" by (simp add: chip_fds_def)
  with chip_open_close [OF heap_ok_crt_init chip_kernel_contracts(1) op] r op show ?thesis
    by (simp add: case_prod_beta)
qed

definition is_gpio_device :: "(string \<Rightarrow> errno + kstat) \<Rightarrow> (string \<Rightarrow> errno + kstat)
    \<Rightarrow> (string \<Rightarrow> errno + string) \<Rightarrow> string \<Rightarrow> bool" where
  "is_gpio_device lst st rp path \<longleftrightarrow>
     (case lst path of Inl _ \<Rightarrow> False | Inr sb \<Rightarrow>
       (case (if st_is_lnk sb then rp path else Inr path) of Inl _ \<Rightarrow> False | Inr real \<Rightarrow>
         (case st real of Inl _ \<Rightarrow> False | Inr sb' \<Rightarrow>
            st_is_chr sb' \<and> rp (devpath sb') = Inr ''/sys/bus/gpio'')))"

text \<open>A file system given by functions.\<close>

definition fs_functions :: "'k kernel \<Rightarrow> (string \<Rightarrow> errno + kstat) \<Rightarrow> (string \<Rightarrow> errno + kstat)
    \<Rightarrow> (string \<Rightarrow> errno + string) \<Rightarrow> bool" where
  "fs_functions K lst st rp \<longleftrightarrow> (\<forall>p k. k_lstat K p k = (lst p, k) \<and> k_stat K p k = (st p, k)
     \<and> k_realpath K p k = (rp p, k))"

lemma realpath_fs:
  assumes "fs_functions K lst st rp" "\<forall>n. \<not> oom c n"
  shows "realpath K p c k = (case rp p of
      Inl e \<Rightarrow> (None, set_errno e c, k)
    | Inr s \<Rightarrow> (Some (nalloc c, s), c\<lparr>nalloc := Suc (nalloc c), live := insert (nalloc c) (live c)\<rparr>, k))"
proof (cases "rp p")
  case (Inl e)
  then show ?thesis using assms(1) by (simp add: realpath_def fs_functions_def)
next
  case (Inr s)
  then show ?thesis using assms by (simp add: realpath_def fs_functions_def malloc_obj_def malloc_def Let_def)
qed

lemma check_realname_fs:
  assumes fs: "fs_functions K lst st rp" and mem: "\<forall>n. \<not> oom c n"
  shows "\<exists>c'. check_realname K rn c k = ((case st (snd rn) of Inl _ \<Rightarrow> False | Inr sb' \<Rightarrow>
      st_is_chr sb' \<and> rp (devpath sb') = Inr ''/sys/bus/gpio''), c', k)"
proof (cases "st (snd rn)")
  case (Inl e)
  then show ?thesis using fs by (simp add: check_realname_def fs_functions_def)
next
  case (Inr sb)
  have io: "k_stat K (snd rn) k = (Inr sb, k)" using fs Inr by (simp add: fs_functions_def)
  show ?thesis
  proof (cases "rp (devpath sb)")
    case (Inl e)
    then show ?thesis
      by (cases "st_is_chr sb") (simp_all add: check_realname_def io Inr realpath_fs [OF fs mem])
  next
    case rp: (Inr s)
    then show ?thesis
      by (cases "st_is_chr sb"; cases "s = ''/sys/bus/gpio''")
        (simp_all add: check_realname_def io Inr realpath_fs [OF fs mem] Let_def)
  qed
qed

lemma check_path_fs:
  assumes fs: "fs_functions K lst st rp" and mem: "\<forall>n. \<not> oom c n"
  shows "\<exists>c'. check_path K (Some path) c k = (is_gpio_device lst st rp path, c', k)"
proof (cases "lst path")
  case (Inl e)
  then show ?thesis using fs by (simp add: check_path_def fs_functions_def is_gpio_device_def)
next
  case (Inr sb)
  have io: "k_lstat K path k = (Inr sb, k)" using fs Inr by (simp add: fs_functions_def)
  let ?c = "c\<lparr>nalloc := Suc (nalloc c), live := insert (nalloc c) (live c)\<rparr>"
  have mem': "\<forall>n. \<not> oom ?c n" using mem by simp
  have dup: "strdup path c = (Some (nalloc c, path), ?c)"
    using mem by (simp add: strdup_def malloc_obj_def malloc_def Let_def)
  show ?thesis
  proof (cases "st_is_lnk sb")
    case False
    with check_realname_fs [OF fs mem', of "(nalloc c, path)" k] show ?thesis
      by (simp add: check_path_def io dup is_gpio_device_def Inr)
  next
    case True
    show ?thesis
    proof (cases "rp path")
      case (Inl e)
      with True show ?thesis
        by (simp add: check_path_def io realpath_fs [OF fs mem] is_gpio_device_def Inr)
    next
      case rp: (Inr real)
      with True check_realname_fs [OF fs mem', of "(nalloc c, real)" k] show ?thesis
        by (simp add: check_path_def io realpath_fs [OF fs mem] is_gpio_device_def Inr)
    qed
  qed
qed

text \<open>
  C27: When a path is a GPIO chip.  With the file system given by functions and memory available,
  \<open>gpiod_is_gpiochip_device\<close> is true exactly if the path, with a symbolic link resolved, is a
  character device whose \<open>/sys/dev/char\<close> entry resolves to \<open>/sys/bus/gpio\<close>.  It leaves \<open>errno\<close> zero,
  no block behind and the system unchanged.
\<close>

theorem is_gpiochip_device_spec:
  assumes "fs_functions K lst st rp" "\<forall>n. \<not> oom c n" "heap_ok c"
  shows "\<exists>c'. gpiod_is_gpiochip_device K (Some path) c k = (is_gpio_device lst st rp path, c', k)
    \<and> crt_errno c' = ENONE \<and> heap_ok c' \<and> live c' = live c"
proof -
  obtain c1 where cp: "check_path K (Some path) c k = (is_gpio_device lst st rp path, c1, k)"
    using check_path_fs [OF assms(1,2)] by blast
  from check_path_heap [OF assms(3) cp] cp show ?thesis
    by (simp add: gpiod_is_gpiochip_device_def gpiod_check_gpiochip_device_def)
qed

theorem is_gpiochip_device_spec_witness:
  "fst (gpiod_is_gpiochip_device chip_kernel (Some ''/dev/gpiochip0'') crt_init [])"
proof -
  let ?st = "\<lambda>_. Inr \<lparr>st_is_lnk = False, st_is_chr = True, st_major = 254, st_minor = 0\<rparr>"
  have "fs_functions chip_kernel ?st ?st (\<lambda>_. Inr ''/sys/bus/gpio'')"
    by (simp add: fs_functions_def chip_kernel_def)
  from is_gpiochip_device_spec [OF this _ heap_ok_crt_init, of "''/dev/gpiochip0''" "[]"] show ?thesis
    by (auto simp: crt_init_def is_gpio_device_def)
qed



text \<open>
  C4: What \<open>gpiod_chip_request_lines\<close> asks for and returns.  A request object comes back only when
  the configuration fits the ABI and the kernel granted a request that lists the configured offsets
  in order, whose attributes give every line the flags of its own settings, and that carries the
  consumer name; the object then holds these offsets and the descriptor the kernel returned.
\<close>

theorem request_lines_granted:
  assumes "heap_ok c" "fd_contract K fds" "get_line_contract K" "config_wf config"
    and run: "gpiod_chip_request_lines K chip (Some rc) (Some config) c k = (Some request, c', k')"
  shows "\<exists>u fd k1 r. k_get_line K (chip_fd chip) u k1 = (Inr (r, u\<lparr>lr_fd := fd\<rparr>), k')
    \<and> take (cfg_num_configs config) (lr_offsets u) = config_offsets config
    \<and> (\<forall>i < cfg_num_configs config.
         effective_flags (lr_config u) i = make_kernel_flags (line_settings_at config i))
    \<and> c_str (lr_consumer u) = c_str (rc_consumer rc)
    \<and> gpiod_line_request_get_fd (snd request) = fd
    \<and> gpiod_line_request_get_num_requested_lines (snd request) = cfg_num_configs config
    \<and> take (cfg_num_configs config) (req_offsets (snd request)) = config_offsets config
    \<and> request_ok (snd request)"
  using assms(1,2,4) run
proof (cases rule: request_lines_cases)
  case (granted b nb name u u' ret k1)
  have u': "u' = u\<lparr>lr_fd := lr_fd u'\<rparr>" using assms(3) granted(4) unfolding get_line_contract_def by blast
  from granted(3) have a: "encodes config (lr_config u)" "unat (lr_num_lines u) = cfg_num_configs config"
    "length (lr_offsets u) = 64" "take (cfg_num_configs config) (lr_offsets u) = config_offsets config"
    "lr_consumer u = lr_consumer (uapi_start (Some rc))" by (simp_all add: asks_for_def)
  have n: "cfg_num_configs config \<le> 64" "distinct (config_offsets config)"
    using assms(4) by (simp_all add: config_wf_def)
  have flds: "lr_num_lines u' = lr_num_lines u" "lr_offsets u' = lr_offsets u" by (subst u', simp)+
  have req: "snd request = request_of_uapi u' (nb, name)" using granted(2) by simp
  have offs: "take (cfg_num_configs config) (req_offsets (snd request)) = config_offsets config"
    using a n by (simp add: req request_of_uapi_def flds memcpy_def length_config_offsets [OF assms(4)])
  have ok: "request_ok (snd request)"
    using offs a n by (simp add: request_ok_def req request_of_uapi_def flds memcpy_def uapi_limits
        length_config_offsets [OF assms(4)])
  have flags: "effective_flags (lr_config u) i = make_kernel_flags (line_settings_at config i)"
    if "i < cfg_num_configs config" for i
    using effective_flags_encoded [OF a(1) n(1) that] by (simp add: flags_at_def)
  have cons: "c_str (lr_consumer u) = c_str (rc_consumer rc)"
    by (simp add: a(5) uapi_start_def gpiod_request_config_to_uapi_def c_str_strcpy)
  have "k_get_line K (chip_fd chip) u k1 = (Inr (ret, u\<lparr>lr_fd := lr_fd u'\<rparr>), k')" using granted(4) u' by simp
  moreover have "gpiod_line_request_get_fd (snd request) = lr_fd u'"
    "gpiod_line_request_get_num_requested_lines (snd request) = cfg_num_configs config"
    using a flds by (simp_all add: gpiod_line_request_get_fd_def req request_of_uapi_def
        gpiod_line_request_get_num_requested_lines_def)
  ultimately show ?thesis using a(4) flags cons offs ok by blast
qed simp_all

theorem request_lines_granted_witness:
  "\<exists>request c' k'. gpiod_chip_request_lines chip_kernel \<lparr>chip_fd = 3, chip_path = (1, ''/dev/gpiochip0'')\<rparr>
      (Some \<lparr>rc_consumer = ''app'' @ replicate 29 NUL, rc_event_buffer_size = 0\<rparr>) (Some sample_config)
      crt_init [3] = (Some request, c', k')
    \<and> take 3 (req_offsets (snd request)) = [4, 7, 9]"
proof -
  let ?chip = "\<lparr>chip_fd = 3, chip_path = (1, ''/dev/gpiochip0'')\<rparr>"
  let ?rc = "\<lparr>rc_consumer = ''app'' @ replicate 29 NUL, rc_event_buffer_size = 0\<rparr>"
  obtain r c' k' where run: "gpiod_chip_request_lines chip_kernel ?chip (Some ?rc) (Some sample_config)
      crt_init [3] = (r, c', k')" by (rule prod_cases3)
  have "fst (gpiod_chip_request_lines chip_kernel ?chip (Some ?rc) (Some sample_config) crt_init [3]) \<noteq> None"
    by code_simp
  with run obtain request where r: "r = Some request" by auto
  have "config_offsets sample_config = [4, 7, 9]" by code_simp
  with request_lines_granted [OF heap_ok_crt_init chip_kernel_contracts(1,2) sample_config_wf run [unfolded r]]
    run r show ?thesis by (auto simp: sample_config_num)
qed

text \<open>
  C7: Requests leak nothing.  Whenever \<open>gpiod_chip_request_lines\<close> fails, no block and no descriptor
  stays behind, in particular not the one the kernel had already returned when the last allocation
  fails; and \<open>gpiod_line_request_release\<close> gives back everything a successful request acquired.
\<close>

theorem request_release_balanced:
  assumes heap: "heap_ok c" and kc: "fd_contract K fds" and wf: "config_wf config"
    and run: "gpiod_chip_request_lines K chip rc (Some config) c k = (r, c', k')"
  shows "case r of
      None \<Rightarrow> heap_ok c' \<and> live c' = live c \<and> fds k' = fds k
    | Some request \<Rightarrow>
        (case gpiod_line_request_release K (Some request) c' k' of
           (c2, k2) \<Rightarrow> heap_ok c2 \<and> live c2 = live c \<and> fds k2 = fds k)"
  using heap kc wf run
proof (cases rule: request_lines_cases)
  case (granted b nb name u u' ret k1)
  let ?r = "(b, request_of_uapi u' (nb, name))"
  have bl: "request_blocks ?r = {b, nb}" by (simp add: request_blocks_def request_of_uapi_def)
  have "heap_ok (fst (gpiod_line_request_release K (Some ?r) c' k'))
      \<and> live (fst (gpiod_line_request_release K (Some ?r) c' k')) = live c' - request_blocks ?r"
    using granted by (intro request_heap.release_ok) (auto simp: bl, simp add: request_of_uapi_def)
  moreover have "fds (snd (gpiod_line_request_release K (Some ?r) c' k')) = fds k"
    using granted fd_contract_close [OF kc]
    by (simp add: gpiod_line_request_release_def request_of_uapi_def)
  moreover have "live c' - {b, nb} = live c" using granted(6,7,8) by auto
  ultimately show ?thesis using granted(2) by (simp add: bl case_prod_beta)
qed (use heap in simp_all)

theorem request_release_balanced_witness:
  "chip_fds (snd (snd (gpiod_chip_request_lines chip_kernel \<lparr>chip_fd = 3, chip_path = (1, ''/dev/gpiochip0'')\<rparr>
      None (Some sample_config) (crt_init\<lparr>oom := \<lambda>n. n = 1\<rparr>) [3]))) = {3}"
proof -
  let ?chip = "\<lparr>chip_fd = 3, chip_path = (1, ''/dev/gpiochip0'')\<rparr>" and ?c = "crt_init\<lparr>oom := \<lambda>n. n = 1\<rparr>"
  obtain r c' k' where run: "gpiod_chip_request_lines chip_kernel ?chip None (Some sample_config) ?c [3]
      = (r, c', k')" by (rule prod_cases3)
  have "fst (gpiod_chip_request_lines chip_kernel ?chip None (Some sample_config) ?c [3]) = None" by code_simp
  moreover have "heap_ok ?c" by (simp add: heap_ok_def crt_init_def)
  ultimately show ?thesis
    using request_release_balanced [OF _ chip_kernel_contracts(1) sample_config_wf run] run
    by (simp add: chip_fds_def)
qed

end
