(* ===== verification/Tools_Common.thy ===== *)
theory Tools_Common
  imports Chip
begin

text \<open>
  \<open>tools/tools-common.c\<close>, the parts every tool uses: program names, parsing of options (biases, periods,
  numbers) and printing of line attributes.  A function that may leave the program returns a sum;
  \<open>Inl\<close> says how it left.  Printing functions return the text they print.
\<close>

section \<open>Leaving the program\<close>

text \<open>
  \<open>die\<close> and \<open>die_perror\<close> leave with a message, \<open>exit\<close> with success or failure; \<open>Aborted\<close> is \<open>abort\<close>,
  \<open>Crashed\<close> the use of a pointer that is null, freed or outside its array.
\<close>

datatype tool_exit = Died string | Died_perror string errno | Exited bool | Aborted | Crashed

type_synonym 'a tool = "tool_exit + 'a"

definition die :: "string \<Rightarrow> 'a tool" where
  "die msg = Inl (Died msg)"

definition die_perror :: "string \<Rightarrow> crt \<Rightarrow> 'a tool" where
  "die_perror msg c = Inl (Died_perror msg (crt_errno c))"

section \<open>Program names\<close>

text \<open>The loop of \<open>set_prog_name\<close>: \<open>short\<close> is the text after the last slash passed.\<close>

fun short_name_loop :: "string \<Rightarrow> string \<Rightarrow> string" where
  "short_name_loop [] short = short"
| "short_name_loop (ch # name) short = short_name_loop name (if ch = CHR ''/'' then name else short)"

text \<open>The pair of \<open>prog_name\<close> and \<open>prog_short_name\<close>.\<close>

definition set_prog_name :: "string \<Rightarrow> string \<times> string" where
  "set_prog_name name = (name, short_name_loop name name)"

section \<open>Character classes and numbers of the C library\<close>

definition isspace :: "char \<Rightarrow> bool" where
  "isspace ch \<longleftrightarrow> of_char ch \<in> {9 :: nat, 10, 11, 12, 13, 32}"

definition isdigit :: "char \<Rightarrow> bool" where
  "isdigit ch \<longleftrightarrow> 48 \<le> (of_char ch :: nat) \<and> (of_char ch :: nat) \<le> 57"

definition decimal_value :: "string \<Rightarrow> nat" where
  "decimal_value ds = fold (\<lambda>ch v. 10 * v + (of_char ch - 48)) ds 0"

text \<open>
  \<open>strtoul(s, &end, 10)\<close>: the value and the text from \<open>end\<close> on.  Space is skipped, a sign is taken, a
  negative number is negated in 64 bits, and a number too large gives \<open>ULONG_MAX\<close>.
\<close>

definition strtoul :: "string \<Rightarrow> u64 \<times> string" where
  "strtoul s =
     (let s1 = dropWhile isspace s;
          neg = (s1 \<noteq> [] \<and> hd s1 = CHR ''-'');
          s2 = (if s1 \<noteq> [] \<and> (hd s1 = CHR ''-'' \<or> hd s1 = CHR ''+'') then tl s1 else s1);
          ds = takeWhile isdigit s2
      in if ds = [] then (0, s)
         else let v = decimal_value ds
              in (if v \<ge> 2 ^ 64 then - 1 else if neg then - of_nat v else of_nat v,
                  drop (length ds) s2))"

definition INT_MAX :: u64 where
  "INT_MAX = 2147483647"

section \<open>Parsing options\<close>

definition parse_bias_or_die :: "string \<Rightarrow> gpiod_line_bias tool" where
  "parse_bias_or_die option =
     (if option = ''pull-down'' then Inr GPIOD_LINE_BIAS_PULL_DOWN
      else if option = ''pull-up'' then Inr GPIOD_LINE_BIAS_PULL_UP
      else if option \<noteq> ''disabled'' then die (''invalid bias: '' @ option)
      else Inr GPIOD_LINE_BIAS_DISABLED)"

text \<open>The last part of \<open>parse_period\<close>, from the multiplication on.\<close>

definition scale_period :: "u64 \<Rightarrow> u64 \<Rightarrow> string \<Rightarrow> int" where
  "scale_period p m end =
     (let p = p * m in if end \<noteq> [] \<or> p > INT_MAX then -1 else uint p)"

definition parse_period :: "string \<Rightarrow> int" where
  "parse_period option =
     (case strtoul option of
        (p, []) \<Rightarrow> scale_period p 1000 []
      | (p, ch # rest) \<Rightarrow>
          if ch = CHR ''u''
          then (case rest of [] \<Rightarrow> -1 | ch' # rest' \<Rightarrow>
                  if ch' \<noteq> CHR ''s'' then -1 else scale_period p 1 rest')
          else if ch = CHR ''m''
          then (case rest of [] \<Rightarrow> -1 | ch' # rest' \<Rightarrow>
                  if ch' \<noteq> CHR ''s'' then -1 else scale_period p 1000 rest')
          else if ch = CHR ''s'' then scale_period p 1000000 rest
          else -1)"

definition parse_period_or_die :: "string \<Rightarrow> u32 tool" where
  "parse_period_or_die option =
     (let period = parse_period option
      in if period < 0 then die (''invalid period: '' @ option) else Inr (of_int period))"

definition parse_uint :: "string \<Rightarrow> int" where
  "parse_uint option =
     (case strtoul option of (v, end) \<Rightarrow> if end = [] \<and> v \<le> INT_MAX then uint v else -1)"

definition parse_uint_or_die :: "string \<Rightarrow> u32 tool" where
  "parse_uint_or_die option =
     (let i = parse_uint option
      in if i < 0 then die (''invalid number: '' @ [CHR 0x27] @ option @ [CHR 0x27]) else Inr (of_int i))"

section \<open>Printing\<close>

text \<open>\<open>%09lu\<close>: decimal, padded with zeros to nine digits.\<close>

definition decimal_pad9 :: "nat \<Rightarrow> string" where
  "decimal_pad9 n = (let s = decimal n in replicate (9 - length s) CHR ''0'' @ s)"

text \<open>
  The calendar conversion is the C library's: \<open>utc\<close> and \<open>local\<close> give the \<open>%FT%T\<close> text of a time in
  seconds.
\<close>

definition print_event_time :: "(u64 \<Rightarrow> string) \<Rightarrow> (u64 \<Rightarrow> string) \<Rightarrow> u64 \<Rightarrow> int \<Rightarrow> string" where
  "print_event_time utc local evtime format =
     (if format \<noteq> 0
      then (if format = 2 then local (evtime div 1000000000) else utc (evtime div 1000000000))
           @ ''.'' @ decimal_pad9 (unat (evtime mod 1000000000)) @ (if format = 2 then [] else ''Z'')
      else decimal (unat (evtime div 1000000000)) @ ''.'' @ decimal_pad9 (unat (evtime mod 1000000000)))"

definition print_bias :: "gpiod_line_info \<Rightarrow> string" where
  "print_bias info =
     (case gpiod_line_info_get_bias info of
        GPIOD_LINE_BIAS_PULL_UP \<Rightarrow> '' bias=pull-up''
      | GPIOD_LINE_BIAS_PULL_DOWN \<Rightarrow> '' bias=pull-down''
      | GPIOD_LINE_BIAS_DISABLED \<Rightarrow> '' bias=disabled''
      | _ \<Rightarrow> [])"

definition print_drive :: "gpiod_line_info \<Rightarrow> string" where
  "print_drive info =
     (case gpiod_line_info_get_drive info of
        GPIOD_LINE_DRIVE_OPEN_DRAIN \<Rightarrow> '' drive=open-drain''
      | GPIOD_LINE_DRIVE_OPEN_SOURCE \<Rightarrow> '' drive=open-source''
      | _ \<Rightarrow> [])"

definition print_edge_detection :: "gpiod_line_info \<Rightarrow> string" where
  "print_edge_detection info =
     (case gpiod_line_info_get_edge_detection info of
        GPIOD_LINE_EDGE_BOTH \<Rightarrow> '' edges=both''
      | GPIOD_LINE_EDGE_RISING \<Rightarrow> '' edges=rising''
      | GPIOD_LINE_EDGE_FALLING \<Rightarrow> '' edges=falling''
      | _ \<Rightarrow> [])"

definition print_event_clock :: "gpiod_line_info \<Rightarrow> string" where
  "print_event_clock info =
     (case gpiod_line_info_get_event_clock info of
        GPIOD_LINE_CLOCK_REALTIME \<Rightarrow> '' event-clock=realtime''
      | GPIOD_LINE_CLOCK_HTE \<Rightarrow> '' event-clock=hte''
      | _ \<Rightarrow> [])"

text \<open>The number and the unit \<open>print_debounce\<close> chooses.\<close>

definition debounce_text :: "u64 \<Rightarrow> string" where
  "debounce_text debounce =
     (if debounce mod 1000000 = 0 then decimal (unat (debounce div 1000000)) @ ''s''
      else if debounce mod 1000 = 0 then decimal (unat (debounce div 1000)) @ ''ms''
      else decimal (unat debounce) @ ''us'')"

definition print_debounce :: "gpiod_line_info \<Rightarrow> string" where
  "print_debounce info =
     (let debounce = gpiod_line_info_get_debounce_period_us info
      in if debounce = 0 then [] else '' debounce-period='' @ debounce_text debounce)"

definition print_consumer :: "gpiod_line_info \<Rightarrow> bool \<Rightarrow> string" where
  "print_consumer info unquoted =
     (if \<not> gpiod_line_info_is_used info then []
      else
        let consumer = (case gpiod_line_info_get_consumer info of
              None \<Rightarrow> ''kernel'' | Some a \<Rightarrow> c_str a)
        in if unquoted then '' consumer='' @ consumer
           else '' consumer='' @ [CHR 0x22] @ consumer @ [CHR 0x22])"

definition print_line_attributes :: "gpiod_line_info \<Rightarrow> bool \<Rightarrow> string" where
  "print_line_attributes info unquoted_strings =
     (if gpiod_line_info_get_direction info = GPIOD_LINE_DIRECTION_INPUT then ''input'' else ''output'')
     @ (if gpiod_line_info_is_active_low info then '' active-low'' else [])
     @ print_drive info @ print_bias info @ print_edge_detection info @ print_event_clock info
     @ print_debounce info @ print_consumer info unquoted_strings"

section \<open>Numbers read back\<close>

lemma of_char_digit: "d < 10 \<Longrightarrow> (of_char (char_of (48 + d) :: char) :: nat) = 48 + d"
  by simp

lemma isdigit_decimal: "ch \<in> set (decimal n) \<Longrightarrow> isdigit ch"
proof (induction n rule: decimal.induct)
  case (1 n)
  show ?case
  proof (cases "n < 10")
    case True
    with 1 show ?thesis by (auto simp: decimal.simps [of n] isdigit_def)
  next
    case False
    have "n mod 10 < 10" by simp
    with False 1 show ?thesis by (auto simp: decimal.simps [of n] isdigit_def)
  qed
qed

lemma decimal_not_Nil [simp]: "decimal n \<noteq> []"
  by (simp add: decimal.simps [of n])

lemma decimal_value_snoc: "decimal_value (ds @ [ch]) = 10 * decimal_value ds + (of_char ch - 48)"
  by (simp add: decimal_value_def)

lemma decimal_value_decimal [simp]: "decimal_value (decimal n) = n"
proof (induction n rule: decimal.induct)
  case (1 n)
  show ?case
  proof (cases "n < 10")
    case True
    then show ?thesis by (simp add: decimal.simps [of n] decimal_value_def)
  next
    case False
    have "n mod 10 < 10" by simp
    with False 1 show ?thesis by (simp add: decimal.simps [of n] decimal_value_snoc)
  qed
qed

lemma hd_decimal: "isdigit (hd (decimal n))"
  by (rule isdigit_decimal) (rule hd_in_set, simp)

lemma digit_not_space: "isdigit ch \<Longrightarrow> \<not> isspace ch \<and> ch \<noteq> CHR ''-'' \<and> ch \<noteq> CHR ''+''"
  by (auto simp: isdigit_def isspace_def)

text \<open>A number followed by something else is read back.\<close>

lemma strtoul_decimal:
  assumes "n < 2 ^ 64" "rest = [] \<or> \<not> isdigit (hd rest)"
  shows "strtoul (decimal n @ rest) = (of_nat n, rest)"
proof -
  obtain d ds where dec: "decimal n = d # ds" by (cases "decimal n") simp_all
  have d: "\<not> isspace d" "d \<noteq> CHR ''-''" "d \<noteq> CHR ''+''"
    using hd_decimal [of n] digit_not_space [of d] by (simp_all add: dec)
  have "takeWhile isdigit (decimal n @ rest) = decimal n @ takeWhile isdigit rest"
    by (rule takeWhile_append2) (rule isdigit_decimal)
  moreover have "takeWhile isdigit rest = []" using assms(2) by (cases rest) auto
  ultimately have tw: "takeWhile isdigit (decimal n @ rest) = decimal n" by simp
  have dw: "dropWhile isspace (decimal n @ rest) = decimal n @ rest" by (simp add: dec d)
  have h: "hd (decimal n @ rest) = d" by (simp add: dec)
  show ?thesis
    unfolding strtoul_def dw Let_def h tw using assms(1) d tw by simp
qed

lemma letters_no_digit: "\<not> isdigit CHR ''u''" "\<not> isdigit CHR ''m''" "\<not> isdigit CHR ''s''"
  by (simp_all add: isdigit_def)

lemma scale_period_exact:
  assumes "unat p * unat m < 2 ^ 64"
  shows "scale_period p m [] = (if unat p * unat m \<le> 2147483647 then int (unat p * unat m) else -1)"
proof -
  have u: "unat (p * m) = unat p * unat m"
    using assms by (simp add: unat_mult_lem [THEN iffD1])
  have "p * m > INT_MAX \<longleftrightarrow> unat p * unat m > 2147483647"
    by (simp add: word_less_nat_alt u INT_MAX_def)
  moreover have "uint (p * m) = int (unat p * unat m)" by (metis u uint_nat)
  ultimately show ?thesis by (simp add: scale_period_def Let_def not_le)
qed

section \<open>Properties\<close>

lemma unat_of_nat_64: "n < 2 ^ 64 \<Longrightarrow> unat (of_nat n :: u64) = n"
  by (simp add: unat_of_nat)

lemma unat_div_exact: "d mod w = 0 \<Longrightarrow> unat (d div w) * unat w = unat d"
  by (metis add.right_neutral div_mult_mod_eq unat_0 unat_div unat_mod)

text \<open>The units \<open>parse_period\<close> knows, with their size in microseconds; no unit means milliseconds.\<close>

definition period_units :: "(string \<times> nat) list" where
  "period_units = [('''', 1000), (''us'', 1), (''ms'', 1000), (''s'', 1000000)]"

lemma parse_period_units:
  assumes "n < 2 ^ 64" "(unit_text, m) \<in> set period_units"
  shows "parse_period (decimal n @ unit_text) = scale_period (of_nat n) (of_nat m) []"
  using assms(2) strtoul_decimal [OF assms(1), of "[]"] strtoul_decimal [OF assms(1), of "''us''"]
    strtoul_decimal [OF assms(1), of "''ms''"] strtoul_decimal [OF assms(1), of "''s''"]
  by (auto simp: period_units_def parse_period_def letters_no_digit)

lemma unit_bound: "(unit_text, m) \<in> set period_units \<Longrightarrow> m \<le> 1000000 \<and> 0 < m"
  by (auto simp: period_units_def)

lemma debounce_text_parses:
  assumes "unat d \<le> 2147483647"
  shows "parse_period (debounce_text d) = uint d"
proof -
  have lt: "unat x < 2 ^ 64" for x :: u64 using unsigned_less [of x] by simp
  have use: "parse_period (decimal (unat q) @ u) = uint d"
    if u: "(u, m) \<in> set period_units" and q: "unat q * m = unat d" for q :: u64 and u m
  proof -
    have m: "unat (of_nat m :: u64) = m" using unit_bound [OF u] by (intro unat_of_nat_64) simp
    have "scale_period q (of_nat m) [] = int (unat d)"
      using scale_period_exact [of q "of_nat m"] q m assms by simp
    then show ?thesis using parse_period_units [OF lt [of q] u] by simp
  qed
  show ?thesis
    using use [of "''s''" 1000000 "d div 1000000"] use [of "''ms''" 1000 "d div 1000"] use [of "''us''" 1 d]
      unat_div_exact [of d 1000000] unat_div_exact [of d 1000]
    by (simp add: debounce_text_def period_units_def)
qed

text \<open>
  Periods read back as printed.  The text \<open>print_debounce\<close> prints for a debounce period, which
  uses the largest of the units seconds, milliseconds and microseconds that divides it, is parsed by
  \<open>parse_period\<close> to the same number of microseconds, for every period up to \<open>INT_MAX\<close>.
\<close>

theorem debounce_text_round_trip:
  assumes "unat d \<le> 2147483647"
  shows "parse_period (debounce_text d) = uint d"
  by (rule debounce_text_parses [OF assms])

theorem debounce_text_round_trip_witness: "parse_period (debounce_text 1500000) = 1500000"
proof -
  have "unat (1500000 :: u64) \<le> 2147483647" by simp
  from debounce_text_round_trip [OF this] show ?thesis by simp
qed

text \<open>
  What \<open>parse_period\<close> accepts.  A decimal number with one of its units gives the number of
  microseconds if that is at most \<open>INT_MAX\<close>, and is refused if it is larger, as long as the product
  stays below \<open>2 ^ 64\<close>.
\<close>

theorem parse_period_exact:
  assumes "(unit_text, m) \<in> set period_units" "n * m < 2 ^ 64"
  shows "parse_period (decimal n @ unit_text) = (if n * m \<le> 2147483647 then int (n * m) else -1)"
proof -
  have m: "0 < m" "unat (of_nat m :: u64) = m"
    using unit_bound [OF assms(1)] by (auto intro: unat_of_nat_64)
  then have n: "n < 2 ^ 64" using assms(2) by (metis One_nat_def le_less_trans mult.right_neutral mult_le_mono2 Suc_leI)
  show ?thesis
    using parse_period_units [OF n assms(1)] scale_period_exact [of "of_nat n" "of_nat m"] assms(2)
    by (simp add: m unat_of_nat_64 [OF n])
qed

theorem parse_period_exact_witness: "parse_period ''25ms'' = 25000"
proof -
  have "decimal 25 @ ''ms'' = ''25ms''" by code_simp
  with parse_period_exact [of "''ms''" 1000 25] show ?thesis by (simp add: period_units_def)
qed

text \<open>
  C35: \<open>parse_period\<close> multiplies before it checks.  The product wraps at 64 bits, so that a period too
  large by far is not refused when the remainder modulo \<open>2 ^ 64\<close> is at most \<open>INT_MAX\<close>: it is taken
  for that remainder.
\<close>

theorem parse_period_wraps:
  assumes "(unit_text, m) \<in> set period_units" "n < 2 ^ 64"
  shows "parse_period (decimal n @ unit_text) =
    (if n * m mod 2 ^ 64 \<le> 2147483647 then int (n * m mod 2 ^ 64) else -1)"
proof -
  have m: "unat (of_nat m :: u64) = m" using unit_bound [OF assms(1)] by (intro unat_of_nat_64) simp
  have u: "unat (of_nat n * of_nat m :: u64) = n * m mod 2 ^ 64"
    by (simp add: unat_word_ariths m unat_of_nat_64 [OF assms(2)])
  have gt: "(of_nat n * of_nat m :: u64) > INT_MAX \<longleftrightarrow> n * m mod 2 ^ 64 > 2147483647"
    by (simp only: word_less_nat_alt u INT_MAX_def) simp
  have ui: "uint (of_nat n * of_nat m :: u64) = int (n * m mod 2 ^ 64)" by (metis u uint_nat)
  show ?thesis
    unfolding parse_period_units [OF assms(2,1)] scale_period_def Let_def gt ui by (simp add: not_le)
qed

theorem parse_period_wraps_witness: "parse_period (decimal 18446744073709552) = 384"
  using parse_period_wraps [of "[]" 1000 18446744073709552] by (simp add: period_units_def)

text \<open>
  Numbers.  \<open>parse_uint\<close> reads every decimal number up to \<open>INT_MAX\<close> and refuses every larger one,
  of any length.
\<close>

theorem parse_uint_exact:
  "parse_uint (decimal n) = (if n \<le> 2147483647 then int n else -1)"
proof (cases "n < 2 ^ 64")
  case True
  have "(of_nat n :: u64) \<le> INT_MAX \<longleftrightarrow> n \<le> 2147483647"
    by (simp add: word_le_nat_alt unat_of_nat_64 [OF True] INT_MAX_def)
  moreover have "uint (of_nat n :: u64) = int n" by (metis True uint_nat unat_of_nat_64)
  ultimately show ?thesis using strtoul_decimal [OF True, of "[]"] by (simp add: parse_uint_def)
next
  case False
  obtain d ds where dec: "decimal n = d # ds" by (cases "decimal n") simp_all
  have d: "\<not> isspace d" "d \<noteq> CHR ''-''" "d \<noteq> CHR ''+''"
    using hd_decimal [of n] digit_not_space [of d] by (simp_all add: dec)
  have "takeWhile isdigit (decimal n) = decimal n"
    by (simp add: takeWhile_eq_all_conv isdigit_decimal)
  then have "strtoul (decimal n) = (- 1, [])"
    using d False decimal_value_decimal [of n] unfolding strtoul_def Let_def by (simp add: dec)
  moreover have "\<not> (- 1 :: u64) \<le> INT_MAX" by code_simp
  ultimately show ?thesis using False by (simp add: parse_uint_def)
qed

end
