(* ===== verification/Resolver.thy ===== *)
theory Resolver
  imports Tools_Common "HOL-Library.Sublist"
begin

text \<open>
  \<open>tools/tools-common.c\<close>, the resolver: finding the chips of the system and the lines the user named,
  by offset on one chip or by name on all of them.

  A program that exits is \<open>Inl\<close>, as in \<open>Tools_Common\<close>; the memory an exiting program holds is not
  tracked further.
\<close>

section \<open>The system, with directories\<close>

text \<open>
  Beside the calls of the library the tools read directories.  \<open>te_readdir\<close> gives the entries of a
  directory; \<open>te_versionsort\<close> is the order \<open>scandir\<close> is asked to sort by.
\<close>

record 'k tool_env =
  te_kernel :: "'k kernel"
  te_readdir :: "string \<Rightarrow> ('k, string list) syscall"
  te_versionsort :: "string obj list \<Rightarrow> string obj list"

definition asprintf :: "string \<Rightarrow> crt \<Rightarrow> string obj option \<times> crt" where
  "asprintf text c = malloc_obj text c"

text \<open>Releasing through a pointer variable that may never have been set.\<close>

definition free_ptr :: "nat option \<Rightarrow> crt \<Rightarrow> crt" where
  "free_ptr p c = (case p of None \<Rightarrow> c\<lparr>heap_fault := True\<rparr> | Some b \<Rightarrow> free b c)"

section \<open>Chip paths\<close>

definition chip_dir_filter :: "'k kernel \<Rightarrow> string \<Rightarrow> crt \<Rightarrow> 'k \<Rightarrow> bool \<times> crt \<times> 'k" where
  "chip_dir_filter K d_name c k =
     (case asprintf (''/dev/'' @ d_name) c of
        (None, c) \<Rightarrow> (False, c, k)
      | (Some path, c) \<Rightarrow>
          (case k_lstat K (snd path) k of
             (Inl e, k) \<Rightarrow> (False, free_obj path (set_errno e c), k)
           | (Inr sb, k) \<Rightarrow>
               if st_is_lnk sb then (False, free_obj path c, k)
               else (case gpiod_is_gpiochip_device K (Some (snd path)) c k of
                       (ret, c, k) \<Rightarrow> (ret, free_obj path c, k))))"

definition isuint :: "string \<Rightarrow> bool" where
  "isuint str \<longleftrightarrow> dropWhile isdigit str = []"

text \<open>The path of a chip given by number, path or device name, if it is a GPIO chip.\<close>

definition chip_path_lookup :: "'k kernel \<Rightarrow> string \<Rightarrow> crt \<Rightarrow> 'k \<Rightarrow> string obj option \<times> crt \<times> 'k" where
  "chip_path_lookup K ident c k =
     (case (if isuint ident then asprintf (''/dev/gpiochip'' @ ident) c
            else if CHR ''/'' \<in> set ident then asprintf ident c
            else asprintf (''/dev/'' @ ident) c) of
        (None, c) \<Rightarrow> (None, c, k)
      | (Some path, c) \<Rightarrow>
          (case gpiod_is_gpiochip_device K (Some (snd path)) c k of
             (isdev, c, k) \<Rightarrow>
               if \<not> isdev then (None, free_obj path c, k) else (Some path, c, k)))"

text \<open>
  \<open>scandir\<close> of the C library: the accepted entries in fresh blocks, and the block of the array.
\<close>

fun scan_entries :: "'k kernel \<Rightarrow> string list \<Rightarrow> string obj list \<Rightarrow> crt \<Rightarrow> 'k
    \<Rightarrow> string obj list option \<times> crt \<times> 'k" where
  "scan_entries K [] acc c k = (Some (rev acc), c, k)"
| "scan_entries K (d # ds) acc c k =
     (case chip_dir_filter K d c k of
        (keep, c, k) \<Rightarrow>
          if \<not> keep then scan_entries K ds acc c k
          else (case malloc_obj d c of
                  (None, c) \<Rightarrow> (None, fold free_obj acc c, k)
                | (Some e, c) \<Rightarrow> scan_entries K ds (e # acc) c k))"

definition scandir_chips :: "'k tool_env \<Rightarrow> crt \<Rightarrow> 'k \<Rightarrow> (string obj list \<times> nat) option \<times> crt \<times> 'k" where
  "scandir_chips E c k =
     (case te_readdir E ''/dev/'' k of
        (Inl e, k) \<Rightarrow> (None, set_errno e c, k)
      | (Inr ds, k) \<Rightarrow>
          (case scan_entries (te_kernel E) ds [] c k of
             (None, c, k) \<Rightarrow> (None, c, k)
           | (Some es, c, k) \<Rightarrow>
               (case malloc c of
                  (None, c) \<Rightarrow> (None, fold free_obj es c, k)
                | (Some entries, c) \<Rightarrow> (Some (te_versionsort E es, entries), c, k))))"

text \<open>
  The loop that builds the paths; \<open>None\<close> is the return of \<open>0\<close> after an allocation failure, where the
  paths built so far are released.
\<close>

fun build_paths :: "string obj list \<Rightarrow> string obj list \<Rightarrow> crt \<Rightarrow> string obj list option \<times> crt" where
  "build_paths [] acc c = (Some (rev acc), c)"
| "build_paths (e # es) acc c =
     (case asprintf (''/dev/'' @ snd e) c of
        (None, c) \<Rightarrow> (None, fold free_obj (rev acc) c)
      | (Some p, c) \<Rightarrow> build_paths es (p # acc) c)"

text \<open>The result: the paths, the pointer stored through \<open>paths_ptr\<close> (\<open>None\<close> if it was not set).\<close>

definition all_chip_paths ::
    "'k tool_env \<Rightarrow> crt \<Rightarrow> 'k \<Rightarrow> (string obj list \<times> nat option \<times> crt \<times> 'k) tool" where
  "all_chip_paths E c k =
     (case scandir_chips E c k of
        (None, c, k) \<Rightarrow> die_perror ''unable to scan /dev'' c
      | (Some (es, entries), c, k) \<Rightarrow>
          (case malloc c of
             (None, c) \<Rightarrow> die ''out of memory''
           | (Some paths, c) \<Rightarrow>
               (case build_paths es [] c of
                  (None, c) \<Rightarrow> Inr ([], None, free paths c, k)
                | (Some ps, c) \<Rightarrow> Inr (ps, Some paths, free entries (fold free_obj es c), k))))"

definition chip_paths :: "'k tool_env \<Rightarrow> string option \<Rightarrow> crt \<Rightarrow> 'k
    \<Rightarrow> (string obj list \<times> nat option \<times> crt \<times> 'k) tool" where
  "chip_paths E ident c k =
     (case ident of
        None \<Rightarrow> all_chip_paths E c k
      | Some ident \<Rightarrow>
          (case chip_path_lookup (te_kernel E) ident c k of
             (None, c, k) \<Rightarrow> Inr ([], None, c, k)
           | (Some path, c, k) \<Rightarrow>
               (case malloc c of
                  (None, c) \<Rightarrow> die ''out of memory''
                | (Some paths, c) \<Rightarrow> Inr ([path], Some paths, c, k))))"

section \<open>The resolver object\<close>

record resolved_line =
  rl_id :: string
  rl_id_as_offset :: int
  rl_resolved :: bool
  rl_info :: "gpiod_line_info obj option"
  rl_chip_num :: int
  rl_offset :: u32
  rl_value :: int

record resolved_chip =
  rch_info :: "gpiod_chip_info obj option"
  rch_path :: "string obj option"

record line_resolver =
  rv_num_chips :: nat
  rv_num_found :: nat
  rv_strict :: bool
  rv_chips_blk :: nat
  rv_chips :: "resolved_chip list"
  rv_lines :: "resolved_line list"

definition resolve_done :: "line_resolver \<Rightarrow> bool" where
  "resolve_done resolver \<longleftrightarrow> \<not> rv_strict resolver \<and> rv_num_found resolver \<ge> length (rv_lines resolver)"

definition resolver_init ::
    "string list \<Rightarrow> nat \<Rightarrow> bool \<Rightarrow> bool \<Rightarrow> crt \<Rightarrow> (line_resolver obj \<times> crt) tool" where
  "resolver_init lines num_chips strict by_name c =
     (case malloc c of
        (None, c) \<Rightarrow> die ''out of memory''
      | (Some resolver, c) \<Rightarrow>
          (case malloc c of
             (None, c) \<Rightarrow> die ''out of memory''
           | (Some chips, c) \<Rightarrow>
               Inr ((resolver, \<lparr>rv_num_chips = 0, rv_num_found = 0, rv_strict = strict,
                  rv_chips_blk = chips,
                  rv_chips = replicate num_chips \<lparr>rch_info = None, rch_path = None\<rparr>,
                  rv_lines = map (\<lambda>ident. \<lparr>rl_id = ident,
                    rl_id_as_offset = (if by_name then -1 else parse_uint ident),
                    rl_resolved = False, rl_info = None, rl_chip_num = -1, rl_offset = 0,
                    rl_value = 0\<rparr>) lines\<rparr>), c)))"

section \<open>Resolving\<close>

text \<open>
  The body of the loop of \<open>resolve_line\<close> for one requested line, with the count of found lines and the
  return value so far.
\<close>

definition resolve_one :: "gpiod_line_info obj \<Rightarrow> int \<Rightarrow> bool \<Rightarrow> nat \<Rightarrow> resolved_line \<Rightarrow> nat \<Rightarrow> bool
    \<Rightarrow> (resolved_line \<times> nat \<times> bool) tool" where
  "resolve_one info chip_num strict num_chips line num_found resolved =
     (let offset = gpiod_line_info_get_offset (snd info);
          (line, num_found, resolved) =
            (if rl_resolved line \<and> rl_offset line = offset \<and> rl_chip_num line = chip_num
             then (line\<lparr>rl_info := Some info\<rparr>, num_found + 1, True)
             else (line, num_found, resolved))
      in
        if rl_resolved line \<and> \<not> strict then Inr (line, num_found, resolved)
        else
          (case gpiod_line_info_get_name (snd info) of
             None \<Rightarrow> Inr (line, num_found, resolved)
           | Some name \<Rightarrow>
               if strcmp_eq (rl_id line) name
               then (if strict \<and> rl_resolved line
                     then die (''line '' @ [CHR 0x27] @ rl_id line @ [CHR 0x27] @ '' is not unique'')
                     else Inr (line\<lparr>rl_offset := offset, rl_info := Some info,
                            rl_chip_num := int num_chips, rl_resolved := True\<rparr>, num_found + 1, True))
               else Inr (line, num_found, resolved)))"

fun resolve_line_loop :: "gpiod_line_info obj \<Rightarrow> int \<Rightarrow> bool \<Rightarrow> nat \<Rightarrow> resolved_line list \<Rightarrow> nat \<Rightarrow> bool
    \<Rightarrow> (resolved_line list \<times> nat \<times> bool) tool" where
  "resolve_line_loop info chip_num strict num_chips [] num_found resolved = Inr ([], num_found, resolved)"
| "resolve_line_loop info chip_num strict num_chips (line # lines) num_found resolved =
     (case resolve_one info chip_num strict num_chips line num_found resolved of
        Inl e \<Rightarrow> Inl e
      | Inr (line, num_found, resolved) \<Rightarrow>
          (case resolve_line_loop info chip_num strict num_chips lines num_found resolved of
             Inl e \<Rightarrow> Inl e
           | Inr (lines, num_found, resolved) \<Rightarrow> Inr (line # lines, num_found, resolved)))"

definition resolve_line ::
    "line_resolver \<Rightarrow> gpiod_line_info obj \<Rightarrow> int \<Rightarrow> (line_resolver \<times> bool) tool" where
  "resolve_line resolver info chip_num =
     (case resolve_line_loop info chip_num (rv_strict resolver) (rv_num_chips resolver)
             (rv_lines resolver) (rv_num_found resolver) False of
        Inl e \<Rightarrow> Inl e
      | Inr (lines, num_found, resolved) \<Rightarrow>
          Inr (resolver\<lparr>rv_lines := lines, rv_num_found := num_found\<rparr>, resolved))"

definition in_range :: "int \<Rightarrow> resolved_line \<Rightarrow> bool" where
  "in_range num_lines line \<longleftrightarrow> rl_id_as_offset line \<noteq> -1 \<and> rl_id_as_offset line < num_lines"

definition resolve_lines_by_offset :: "line_resolver \<Rightarrow> int \<Rightarrow> line_resolver \<times> bool" where
  "resolve_lines_by_offset resolver num_lines =
     (resolver\<lparr>rv_lines := map (\<lambda>line. if in_range num_lines line
         then line\<lparr>rl_chip_num := 0, rl_offset := of_int (rl_id_as_offset line), rl_resolved := True\<rparr>
         else line) (rv_lines resolver)\<rparr>,
      list_ex (in_range num_lines) (rv_lines resolver))"

text \<open>The loop over the offsets of one chip.\<close>

fun resolve_offsets :: "'k kernel \<Rightarrow> gpiod_chip \<Rightarrow> gpiod_chip_info \<Rightarrow> int \<Rightarrow> nat list \<Rightarrow> line_resolver \<Rightarrow> bool
    \<Rightarrow> crt \<Rightarrow> 'k \<Rightarrow> (line_resolver \<times> bool \<times> crt \<times> 'k) tool" where
  "resolve_offsets K chip chip_info i [] resolver chip_used c k = Inr (resolver, chip_used, c, k)"
| "resolve_offsets K chip chip_info i (offset # offsets) resolver chip_used c k =
     (if resolve_done resolver then Inr (resolver, chip_used, c, k)
      else
        (case gpiod_chip_get_line_info K chip (of_nat offset) c k of
           (None, c, k) \<Rightarrow>
             die_perror (''unable to read the info for line '' @ decimal offset @ '' from ''
               @ c_str (gpiod_chip_info_get_name chip_info)) c
         | (Some line_info, c, k) \<Rightarrow>
             (case resolve_line resolver line_info i of
                Inl e \<Rightarrow> Inl e
              | Inr (resolver, True) \<Rightarrow> resolve_offsets K chip chip_info i offsets resolver True c k
              | Inr (resolver, False) \<Rightarrow>
                  resolve_offsets K chip chip_info i offsets resolver chip_used
                    (gpiod_line_info_free line_info c) k)))"

text \<open>The number of lines of a chip in the \<open>int\<close> variable that takes it.\<close>

definition int_num_lines :: "gpiod_chip_info \<Rightarrow> int" where
  "int_num_lines info = sint (of_nat (gpiod_chip_info_get_num_lines info) :: u32)"

text \<open>One round of the loop over the chips, for the chip number \<open>i\<close> with the given path.\<close>

definition resolve_chip :: "'k kernel \<Rightarrow> string option \<Rightarrow> bool \<Rightarrow> nat \<Rightarrow> string obj \<Rightarrow> line_resolver
    \<Rightarrow> crt \<Rightarrow> 'k \<Rightarrow> (line_resolver \<times> crt \<times> 'k) tool" where
  "resolve_chip K chip_id by_name i path resolver c k =
     (case gpiod_chip_open K (Some (snd path)) c k of
        (None, c, k) \<Rightarrow>
          if crt_errno c = EACCES \<and> chip_id = None then Inr (resolver, free_obj path c, k)
          else die_perror (''unable to open chip '' @ [CHR 0x27] @ snd path @ [CHR 0x27]) c
      | (Some chip, c, k) \<Rightarrow>
          (case gpiod_chip_get_info K (snd chip) c k of
             (None, c, k) \<Rightarrow> die_perror (''unable to get info for '' @ [CHR 0x27] @ snd path @ [CHR 0x27]) c
           | (Some chip_info, c, k) \<Rightarrow>
               let num_lines = int_num_lines (snd chip_info);
                   (resolver, chip_used) =
                     (if i = 0 \<and> chip_id \<noteq> None \<and> \<not> by_name
                      then resolve_lines_by_offset resolver num_lines else (resolver, False))
               in
                 (case resolve_offsets K (snd chip) (snd chip_info) (int i) [0..<nat num_lines]
                         resolver chip_used c k of
                    Inl e \<Rightarrow> Inl e
                  | Inr (resolver, chip_used, c, k) \<Rightarrow>
                      (case gpiod_chip_close K (Some chip) c k of
                         (c, k) \<Rightarrow>
                           if chip_used
                           then Inr (resolver\<lparr>
                                  rv_chips := (rv_chips resolver)[rv_num_chips resolver :=
                                    \<lparr>rch_info = Some chip_info, rch_path = Some path\<rparr>],
                                  rv_num_chips := rv_num_chips resolver + 1\<rparr>, c, k)
                           else Inr (resolver, free_obj path (gpiod_chip_info_free chip_info c), k)))))"

fun resolve_chips :: "'k kernel \<Rightarrow> string option \<Rightarrow> bool \<Rightarrow> nat \<Rightarrow> string obj list \<Rightarrow> line_resolver
    \<Rightarrow> crt \<Rightarrow> 'k \<Rightarrow> (line_resolver \<times> crt \<times> 'k) tool" where
  "resolve_chips K chip_id by_name i [] resolver c k = Inr (resolver, c, k)"
| "resolve_chips K chip_id by_name i (path # paths) resolver c k =
     (if resolve_done resolver then Inr (resolver, c, k)
      else (case resolve_chip K chip_id by_name i path resolver c k of
              Inl e \<Rightarrow> Inl e
            | Inr (resolver, c, k) \<Rightarrow> resolve_chips K chip_id by_name (Suc i) paths resolver c k))"

definition resolve_lines :: "'k tool_env \<Rightarrow> string list \<Rightarrow> string option \<Rightarrow> bool \<Rightarrow> bool \<Rightarrow> crt \<Rightarrow> 'k
    \<Rightarrow> (line_resolver obj \<times> crt \<times> 'k) tool" where
  "resolve_lines E lines chip_id strict by_name c k =
     (let by_name = (if chip_id = None then True else by_name) in
      case chip_paths E chip_id c k of
        Inl e \<Rightarrow> Inl e
      | Inr (paths, arr, c, k) \<Rightarrow>
          if chip_id \<noteq> None \<and> length paths = 0
          then die (''cannot find GPIO chip character device '' @ [CHR 0x27] @ the chip_id @ [CHR 0x27])
          else
            (case resolver_init lines (length paths) strict by_name c of
               Inl e \<Rightarrow> Inl e
             | Inr (resolver, c) \<Rightarrow>
                 (case resolve_chips (te_kernel E) chip_id by_name 0 paths (snd resolver) c k of
                    Inl e \<Rightarrow> Inl e
                  | Inr (rv, c, k) \<Rightarrow> Inr ((fst resolver, rv), free_ptr arr c, k))))"

section \<open>Using a resolution\<close>

definition same_line :: "resolved_line \<Rightarrow> resolved_line \<Rightarrow> bool" where
  "same_line prev line \<longleftrightarrow> rl_resolved prev \<and> rl_chip_num prev = rl_chip_num line
     \<and> rl_offset prev = rl_offset line"

text \<open>The messages \<open>validate_resolution\<close> prints, given the lines before and from the current one on.\<close>

fun resolution_errors :: "string option \<Rightarrow> resolved_line list \<Rightarrow> resolved_line list \<Rightarrow> string list" where
  "resolution_errors chip_id prevs [] = []"
| "resolution_errors chip_id prevs (line # lines) =
     (if rl_resolved line
      then (case find (\<lambda>prev. same_line prev line) prevs of
              None \<Rightarrow> []
            | Some prev \<Rightarrow> [''lines '' @ [CHR 0x27] @ rl_id prev @ [CHR 0x27] @ '' and '' @ [CHR 0x27]
                @ rl_id line @ [CHR 0x27] @ '' are the same line''])
      else if chip_id \<noteq> None \<and> rl_id_as_offset line \<noteq> -1
      then [''offset '' @ rl_id line @ '' is out of range on chip '' @ [CHR 0x27] @ the chip_id @ [CHR 0x27]]
      else [''cannot find line '' @ [CHR 0x27] @ rl_id line @ [CHR 0x27]])
     @ resolution_errors chip_id (prevs @ [line]) lines"

definition validate_resolution :: "line_resolver \<Rightarrow> string option \<Rightarrow> unit tool" where
  "validate_resolution resolver chip_id =
     (if resolution_errors chip_id [] (rv_lines resolver) \<noteq> [] then Inl (Exited False) else Inr ())"

definition free_opt :: "'a obj option \<Rightarrow> crt \<Rightarrow> crt" where
  "free_opt p c = (case p of None \<Rightarrow> c | Some p \<Rightarrow> free_obj p c)"

definition free_line_resolver :: "line_resolver obj option \<Rightarrow> crt \<Rightarrow> crt" where
  "free_line_resolver resolver c =
     (case resolver of
        None \<Rightarrow> c
      | Some p \<Rightarrow>
          let rv = snd p;
              c = fold (\<lambda>line. free_opt (rl_info line)) (rv_lines rv) c;
              c = fold (\<lambda>chip c. free_opt (rch_path chip) (free_opt (rch_info chip) c))
                    (take (rv_num_chips rv) (rv_chips rv)) c
          in free_obj p (free (rv_chips_blk rv) c))"

text \<open>An \<open>int\<close> stored in an \<open>enum gpiod_line_value\<close>.\<close>

definition line_value_of_int :: "int \<Rightarrow> gpiod_line_value" where
  "line_value_of_int n =
     (if n = -1 then GPIOD_LINE_VALUE_ERROR else if n = 0 then GPIOD_LINE_VALUE_INACTIVE
      else if n = 1 then GPIOD_LINE_VALUE_ACTIVE else GPIOD_LINE_VALUE_OTHER n)"

text \<open>The loop, from position \<open>num_lines\<close> of the arrays on.\<close>

fun offsets_and_values_loop :: "int \<Rightarrow> resolved_line list \<Rightarrow> nat \<Rightarrow> u32 list \<Rightarrow> gpiod_line_value list option
    \<Rightarrow> nat \<times> u32 list \<times> gpiod_line_value list option" where
  "offsets_and_values_loop chip_num [] num_lines offsets values = (num_lines, offsets, values)"
| "offsets_and_values_loop chip_num (line # lines) num_lines offsets values =
     (if rl_chip_num line = chip_num
      then offsets_and_values_loop chip_num lines (Suc num_lines) (offsets[num_lines := rl_offset line])
             (map_option (\<lambda>vs. vs[num_lines := line_value_of_int (rl_value line)]) values)
      else offsets_and_values_loop chip_num lines num_lines offsets values)"

definition get_line_offsets_and_values :: "line_resolver \<Rightarrow> int \<Rightarrow> u32 list \<Rightarrow> gpiod_line_value list option
    \<Rightarrow> nat \<times> u32 list \<times> gpiod_line_value list option" where
  "get_line_offsets_and_values resolver chip_num offsets values =
     offsets_and_values_loop chip_num (rv_lines resolver) 0 offsets values"

definition get_chip_name :: "line_resolver \<Rightarrow> nat \<Rightarrow> string" where
  "get_chip_name resolver chip_num =
     c_str (gpiod_chip_info_get_name (snd (the (rch_info (rv_chips resolver ! chip_num)))))"

definition get_line_name :: "line_resolver \<Rightarrow> int \<Rightarrow> u32 \<Rightarrow> string option" where
  "get_line_name resolver chip_num offset =
     (case find (\<lambda>line. rl_info line \<noteq> None \<and> rl_offset line = offset \<and> rl_chip_num line = chip_num)
             (rv_lines resolver) of
        None \<Rightarrow> None
      | Some line \<Rightarrow> map_option c_str (gpiod_line_info_get_name (snd (the (rl_info line)))))"

definition print_line_id :: "line_resolver \<Rightarrow> nat \<Rightarrow> u32 \<Rightarrow> string option \<Rightarrow> bool \<Rightarrow> string" where
  "print_line_id resolver chip_num offset chip_id unquoted =
     (case get_line_name resolver (int chip_num) offset of
        None \<Rightarrow> get_chip_name resolver chip_num @ '' '' @ decimal (unat offset)
      | Some lname \<Rightarrow>
          (if chip_id \<noteq> None then get_chip_name resolver chip_num @ '' '' @ decimal (unat offset) @ '' '' else [])
          @ (if unquoted then lname else [CHR 0x22] @ lname @ [CHR 0x22]))"

text \<open>The loop, with the values still to be handed out.\<close>

fun set_values_loop :: "int \<Rightarrow> gpiod_line_value list \<Rightarrow> resolved_line list \<Rightarrow> resolved_line list" where
  "set_values_loop chip_num values [] = []"
| "set_values_loop chip_num values (line # lines) =
     (if rl_chip_num line = chip_num
      then line\<lparr>rl_value := line_value_int (hd values)\<rparr> # set_values_loop chip_num (tl values) lines
      else line # set_values_loop chip_num values lines)"

definition set_line_values :: "line_resolver \<Rightarrow> int \<Rightarrow> gpiod_line_value list \<Rightarrow> line_resolver" where
  "set_line_values resolver chip_num values =
     resolver\<lparr>rv_lines := set_values_loop chip_num values (rv_lines resolver)\<rparr>"

section \<open>Where the information comes from\<close>

text \<open>
  The states the system goes through while chips are scanned from \<open>k0\<close> on: with no chip open, or with the
  chip open that was opened at a path.
\<close>

inductive scan_state :: "'k kernel \<Rightarrow> 'k \<Rightarrow> (string \<times> gpiod_chip) option \<Rightarrow> 'k \<Rightarrow> bool" for K k0 where
  scan_start: "scan_state K k0 None k0"
| scan_no_open: "scan_state K k0 None k \<Longrightarrow> gpiod_chip_open K (Some path) c k = (None, c', k')
    \<Longrightarrow> scan_state K k0 None k'"
| scan_open: "scan_state K k0 None k \<Longrightarrow> gpiod_chip_open K (Some path) c k = (Some chip, c', k')
    \<Longrightarrow> scan_state K k0 (Some (path, snd chip)) k'"
| scan_info: "scan_state K k0 (Some (path, chip)) k \<Longrightarrow> gpiod_chip_get_info K chip c k = (r, c', k')
    \<Longrightarrow> scan_state K k0 (Some (path, chip)) k'"
| scan_line: "scan_state K k0 (Some (path, chip)) k \<Longrightarrow> gpiod_chip_get_line_info K chip off c k = (r, c', k')
    \<Longrightarrow> scan_state K k0 (Some (path, chip)) k'"
| scan_close: "scan_state K k0 (Some (path, snd chip)) k \<Longrightarrow> gpiod_chip_close K (Some chip) c k = (c', k')
    \<Longrightarrow> scan_state K k0 None k'"

text \<open>What the system showed of a line, and of a chip, with the chip at \<open>path\<close> open.\<close>

definition line_shown :: "'k kernel \<Rightarrow> 'k \<Rightarrow> string \<Rightarrow> u32 \<Rightarrow> gpiod_line_info obj \<Rightarrow> bool" where
  "line_shown K k0 path off info \<longleftrightarrow> (\<exists>chip c k c' k'. scan_state K k0 (Some (path, chip)) k
     \<and> gpiod_chip_get_line_info K chip off c k = (Some info, c', k'))"

definition chip_shown :: "'k kernel \<Rightarrow> 'k \<Rightarrow> string \<Rightarrow> gpiod_chip_info obj \<Rightarrow> bool" where
  "chip_shown K k0 path info \<longleftrightarrow> (\<exists>chip c k c' k'. scan_state K k0 (Some (path, chip)) k
     \<and> gpiod_chip_get_info K chip c k = (Some info, c', k'))"

section \<open>The resolver invariant\<close>

text \<open>
  \<open>line_inv S n i p b line\<close> holds of every requested line while the chip number \<open>i\<close>, which has \<open>n\<close> lines,
  is scanned and the offsets below \<open>p\<close> are done; \<open>b\<close> bounds the chip numbers given out, and \<open>S\<close> says
  which information belongs to an offset of a numbered chip.
\<close>

definition has_info :: "resolved_line \<Rightarrow> bool" where
  "has_info line \<longleftrightarrow> rl_info line \<noteq> None"

definition line_key :: "resolved_line \<Rightarrow> string \<times> int" where
  "line_key line = (rl_id line, rl_id_as_offset line)"

definition by_offset :: "resolved_line \<Rightarrow> bool" where
  "by_offset line \<longleftrightarrow> 0 \<le> rl_id_as_offset line \<and> int (unat (rl_offset line)) = rl_id_as_offset line
     \<and> rl_chip_num line = 0"

definition named :: "resolved_line \<Rightarrow> gpiod_line_info \<Rightarrow> bool" where
  "named line info \<longleftrightarrow> (case gpiod_line_info_get_name info of
     None \<Rightarrow> False | Some name \<Rightarrow> strcmp_eq (rl_id line) name)"

definition line_inv :: "(int \<Rightarrow> u32 \<Rightarrow> gpiod_line_info obj \<Rightarrow> bool) \<Rightarrow> nat \<Rightarrow> nat \<Rightarrow> nat \<Rightarrow> nat
    \<Rightarrow> resolved_line \<Rightarrow> bool" where
  "line_inv S n i p b line \<longleftrightarrow> -1 \<le> rl_id_as_offset line
     \<and> (rl_resolved line \<longrightarrow> 0 \<le> rl_chip_num line \<and> rl_chip_num line < int b)
     \<and> (case rl_info line of
          None \<Rightarrow> rl_resolved line \<longrightarrow> by_offset line \<and> i = 0 \<and> p \<le> unat (rl_offset line)
            \<and> unat (rl_offset line) < n
        | Some info \<Rightarrow> rl_resolved line \<and> rl_offset line = gpiod_line_info_get_offset (snd info)
            \<and> (by_offset line \<or> named line (snd info)) \<and> S (rl_chip_num line) (rl_offset line) info
            \<and> (rl_chip_num line < int i \<or> rl_chip_num line = int i \<and> unat (rl_offset line) < p))"

lemma line_inv_mono: "line_inv S n i p b line \<Longrightarrow> b \<le> b' \<Longrightarrow> line_inv S n i p b' line"
  by (auto simp: line_inv_def)

lemma line_inv_shown:
  assumes "line_inv S n i p b line"
    and "\<And>num off info. 0 \<le> num \<Longrightarrow> num < int b \<Longrightarrow> S num off info \<Longrightarrow> S' num off info"
  shows "line_inv S' n i p b line"
  using assms by (auto simp: line_inv_def split: option.splits)

lemma resolve_one_inv:
  assumes inv: "line_inv S n i p b line" and p: "unat (gpiod_line_info_get_offset (snd info)) = p"
    and nc: "num_chips \<le> i" "b \<le> Suc num_chips"
    and shown: "S (int num_chips) (gpiod_line_info_get_offset (snd info)) info"
    and run: "resolve_one info (int i) strict num_chips line nf r = Inr (line', nf', r')"
  shows "line_inv S n i (Suc p) (if r' then Suc num_chips else b) line'
    \<and> nf' + of_bool (has_info line) = nf + of_bool (has_info line')
    \<and> line_key line' = line_key line \<and> (r \<longrightarrow> r')"
proof (cases "rl_resolved line \<and> rl_offset line = gpiod_line_info_get_offset (snd info)
    \<and> rl_chip_num line = int i")
  case hit: True
  then have none: "rl_info line = None" using inv p by (auto simp: line_inv_def split: option.splits)
  have "line' = line\<lparr>rl_info := Some info\<rparr> \<and> nf' = nf + 1 \<and> r'"
    using run hit by (auto simp: resolve_one_def die_def split: if_splits option.splits)
  moreover have "num_chips = i" using hit inv none nc by (auto simp: line_inv_def)
  ultimately show ?thesis using inv none p hit nc shown by (auto simp: line_inv_def has_info_def by_offset_def line_key_def)
next
  case no: False
  show ?thesis
  proof (cases "rl_resolved line")
    case True
    then have "line' = line \<and> nf' = nf \<and> r' = r"
      using run no by (auto simp: resolve_one_def die_def split: if_splits option.splits)
    moreover have "unat (rl_offset line) \<noteq> p" if "rl_chip_num line = int i"
      using no p True that by (metis word_unat_eq_iff)
    then have "line_inv S n i (Suc p) b line"
      using inv True by (auto simp: line_inv_def by_offset_def Suc_le_eq le_less split: option.splits)
    ultimately show ?thesis using nc line_inv_mono by auto
  next
    case False
    then have none: "rl_info line = None" using inv by (auto simp: line_inv_def split: option.splits)
    consider "line' = line" "nf' = nf" "r' = r"
      | "line' = line\<lparr>rl_offset := gpiod_line_info_get_offset (snd info), rl_info := Some info,
          rl_chip_num := int num_chips, rl_resolved := True\<rparr>" "nf' = nf + 1" "r'" "named line (snd info)"
      using run False by (auto simp: resolve_one_def named_def split: if_splits option.splits)
    then show ?thesis
      using inv False none p nc shown by cases (auto simp: line_inv_def has_info_def named_def line_key_def split: option.splits)
  qed
qed

lemma resolve_line_loop_inv:
  assumes "list_all (line_inv S n i p b) lines" "unat (gpiod_line_info_get_offset (snd info)) = p"
    "num_chips \<le> i" "b \<le> Suc num_chips" "S (int num_chips) (gpiod_line_info_get_offset (snd info)) info"
    "resolve_line_loop info (int i) strict num_chips lines nf r = Inr (lines', nf', r')"
  shows "list_all (line_inv S n i (Suc p) (if r' then Suc num_chips else b)) lines'
    \<and> nf' + length (filter has_info lines) = nf + length (filter has_info lines')
    \<and> map line_key lines' = map line_key lines \<and> (r \<longrightarrow> r')"
  using assms
proof (induction lines arbitrary: nf r lines')
  case Nil
  then show ?case by simp
next
  case (Cons line lines)
  from Cons.prems(6) obtain line1 nf1 r1 lines1 where
    one: "resolve_one info (int i) strict num_chips line nf r = Inr (line1, nf1, r1)" and
    rest: "resolve_line_loop info (int i) strict num_chips lines nf1 r1 = Inr (lines1, nf', r')" and
    res: "lines' = line1 # lines1"
    by (auto split: sum.splits)
  have inv: "line_inv S n i p b line" "list_all (line_inv S n i p b) lines" using Cons.prems(1) by simp_all
  note o = resolve_one_inv [OF inv(1) Cons.prems(2,3,4,5) one]
  note l = Cons.IH [OF inv(2) Cons.prems(2,3,4,5) rest]
  have "line_inv S n i (Suc p) (if r' then Suc num_chips else b) line1"
    using o l Cons.prems(4) line_inv_mono [of S n i "Suc p" _ line1 "Suc num_chips"] by (auto split: if_splits)
  with o l show ?case by (auto simp: res of_bool_def split: if_splits)
qed

text \<open>
  The chips in use are filed with what the system showed of them, in the order of the paths.
\<close>

definition chip_path_of :: "line_resolver \<Rightarrow> nat \<Rightarrow> string" where
  "chip_path_of rv j = snd (the (rch_path (rv_chips rv ! j)))"

definition chips_sound :: "'k kernel \<Rightarrow> 'k \<Rightarrow> string obj list \<Rightarrow> line_resolver \<Rightarrow> bool" where
  "chips_sound K k0 paths rv \<longleftrightarrow> rv_num_chips rv \<le> length (rv_chips rv)
     \<and> (\<forall>j < rv_num_chips rv. \<exists>info path. rv_chips rv ! j = \<lparr>rch_info = Some info, rch_path = Some path\<rparr>
          \<and> chip_shown K k0 (snd path) info)
     \<and> subseq (map rch_path (take (rv_num_chips rv) (rv_chips rv))) (map Some paths)"

lemma chips_sound_frame [simp]:
  "chips_sound K k0 paths (rv\<lparr>rv_lines := lines, rv_num_found := nf\<rparr>) = chips_sound K k0 paths rv"
  "chips_sound K k0 paths (rv\<lparr>rv_lines := lines\<rparr>) = chips_sound K k0 paths rv"
  by (simp_all add: chips_sound_def)

text \<open>The information shown at the path of a chip in use, or at the current path for the next number.\<close>

definition line_at :: "'k kernel \<Rightarrow> 'k \<Rightarrow> line_resolver \<Rightarrow> string \<Rightarrow> int \<Rightarrow> u32 \<Rightarrow> gpiod_line_info obj \<Rightarrow> bool" where
  "line_at K k0 rv path num off info \<longleftrightarrow>
     line_shown K k0 (if num = int (rv_num_chips rv) then path else chip_path_of rv (nat num)) off info"

lemma line_at_frame [simp]:
  "line_at K k0 (rv\<lparr>rv_lines := lines, rv_num_found := nf\<rparr>) = line_at K k0 rv"
  "line_at K k0 (rv\<lparr>rv_lines := lines\<rparr>) = line_at K k0 rv"
  by (simp_all add: line_at_def chip_path_of_def fun_eq_iff)

text \<open>The state of the resolver during the scan; \<open>used\<close> is \<open>chip_used\<close>, \<open>seen\<close> the paths done.\<close>

definition resolver_inv :: "'k kernel \<Rightarrow> 'k \<Rightarrow> string obj list \<Rightarrow> string \<Rightarrow> (string \<times> int) list \<Rightarrow> nat \<Rightarrow> nat \<Rightarrow> nat
    \<Rightarrow> bool \<Rightarrow> line_resolver \<Rightarrow> bool" where
  "resolver_inv K k0 seen path ids n i p used rv \<longleftrightarrow> rv_num_chips rv \<le> i
     \<and> chips_sound K k0 seen rv
     \<and> map line_key (rv_lines rv) = ids
     \<and> rv_num_found rv = length (filter has_info (rv_lines rv))
     \<and> list_all (line_inv (line_at K k0 rv path) n i p (rv_num_chips rv + of_bool used)) (rv_lines rv)"

lemma resolve_line_inv:
  assumes inv: "resolver_inv K k0 seen path ids n i p used rv"
    and p: "unat (gpiod_line_info_get_offset (snd info)) = p"
    and shown: "line_shown K k0 path (gpiod_line_info_get_offset (snd info)) info"
    and run: "resolve_line rv info (int i) = Inr (rv', r)"
  shows "resolver_inv K k0 seen path ids n i (Suc p) (used \<or> r) rv' \<and> rv_chips rv' = rv_chips rv"
proof -
  from run obtain lines nf where
    loop: "resolve_line_loop info (int i) (rv_strict rv) (rv_num_chips rv) (rv_lines rv)
      (rv_num_found rv) False = Inr (lines, nf, r)" and
    rv': "rv' = rv\<lparr>rv_lines := lines, rv_num_found := nf\<rparr>"
    by (auto simp: resolve_line_def split: sum.splits)
  have b: "rv_num_chips rv + of_bool used \<le> Suc (rv_num_chips rv)" by (cases used) simp_all
  have pre: "list_all (line_inv (line_at K k0 rv path) n i p (rv_num_chips rv + of_bool used)) (rv_lines rv)"
    "rv_num_chips rv \<le> i" using inv by (simp_all add: resolver_inv_def)
  have "line_at K k0 rv path (int (rv_num_chips rv)) (gpiod_line_info_get_offset (snd info)) info"
    using shown by (simp add: line_at_def)
  note post = resolve_line_loop_inv [OF pre(1) p pre(2) b this loop]
  have "(if r then Suc (rv_num_chips rv) else rv_num_chips rv + of_bool used)
      = rv_num_chips rv + of_bool (used \<or> r)" by (cases used; cases r) simp_all
  with post inv show ?thesis by (auto simp: resolver_inv_def rv')
qed

text \<open>When every line is found the scan may stop at any offset.\<close>

lemma filter_full: "length xs \<le> length (filter P xs) \<Longrightarrow> x \<in> set xs \<Longrightarrow> P x"
  using length_filter_less [of x xs P] by (cases "P x") auto

lemma line_inv_skip: "line_inv S n i p b line \<Longrightarrow> has_info line \<Longrightarrow> p \<le> q \<Longrightarrow> line_inv S n i q b line"
  by (auto simp: line_inv_def has_info_def)

lemma resolver_inv_done:
  assumes inv: "resolver_inv K k0 seen path ids n i p used rv" and dn: "resolve_done rv" and q: "p \<le> q"
  shows "resolver_inv K k0 seen path ids n i q used rv"
proof -
  have "length (rv_lines rv) \<le> length (filter has_info (rv_lines rv))"
    using inv dn by (simp add: resolver_inv_def resolve_done_def)
  note full = filter_full [OF this]
  have old: "line_inv (line_at K k0 rv path) n i p (rv_num_chips rv + of_bool used) line" if "line \<in> set (rv_lines rv)" for line
    using inv that by (simp add: resolver_inv_def list_all_iff)
  have "line_inv (line_at K k0 rv path) n i q (rv_num_chips rv + of_bool used) line" if "line \<in> set (rv_lines rv)" for line
    by (rule line_inv_skip [OF old [OF that] full [OF that] q])
  with inv show ?thesis by (simp add: resolver_inv_def list_all_iff)
qed

section \<open>The invariant through the scan\<close>

text \<open>The line information ioctl answers for the line it is asked about.\<close>

definition offset_contract :: "'k kernel \<Rightarrow> bool" where
  "offset_contract K \<longleftrightarrow> (\<forall>fd info k info' k'. k_lineinfo K fd info k = (Inr (0, info'), k') \<longrightarrow>
     li_offset info' = li_offset info)"

lemma line_info_of_uapi_offset: "info_offset (line_info_of_uapi u) = li_offset u"
  unfolding line_info_of_uapi_def Let_def apply_info_attrs_frame by (simp add: zero_info_def)

lemma get_line_info_offset:
  assumes kc: "offset_contract K" and run: "gpiod_chip_get_line_info K chip off c k = (Some info, c', k')"
  shows "gpiod_line_info_get_offset (snd info) = off"
proof -
  obtain ret u c1 k1 where rd: "chip_read_line_info K (chip_fd chip) off False c k = (ret, u, c1, k1)"
    by (rule prod_cases4)
  obtain r c2 where m: "gpiod_line_info_from_uapi u c1 = (r, c2)" by fastforce
  have z: "ret = 0" and r: "r = Some info"
    using run by (auto simp: gpiod_chip_get_line_info_def chip_get_line_info_def rd m split: if_splits)
  have "snd info = line_info_of_uapi u"
    using m r by (auto simp: gpiod_line_info_from_uapi_def malloc_obj_def split: prod.splits option.splits)
  moreover have "li_offset u = off"
  proof -
    obtain x k2 where x: "k_lineinfo K (chip_fd chip) (zero_line_info\<lparr>li_offset := off\<rparr>) k = (x, k2)" by fastforce
    with rd z have "x = Inr (0, u)"
      by (auto simp: chip_read_line_info_def Let_def split: sum.splits if_splits)
    with kc x have "li_offset u = li_offset (zero_line_info\<lparr>li_offset := off\<rparr>)"
      unfolding offset_contract_def by metis
    then show ?thesis by simp
  qed
  ultimately show ?thesis by (simp add: gpiod_line_info_get_offset_def line_info_of_uapi_offset)
qed

lemma unat_of_nat_32: "n < 2 ^ 32 \<Longrightarrow> unat (of_nat n :: u32) = n"
  by (simp add: unsigned_of_nat take_bit_nat_eq_self)

lemma resolve_offsets_inv:
  assumes kc: "offset_contract K" and n: "n < 2 ^ 32" and pn: "p \<le> n"
    and inv: "resolver_inv K k0 seen path ids n i p used rv" and st: "scan_state K k0 (Some (path, chip)) k"
    and run: "resolve_offsets K chip cinfo (int i) [p..<n] rv used c k = Inr (rv', used', c', k')"
  shows "resolver_inv K k0 seen path ids n i n used' rv' \<and> rv_chips rv' = rv_chips rv
    \<and> scan_state K k0 (Some (path, chip)) k'"
  using pn inv st run
proof (induction "n - p" arbitrary: p rv used c k)
  case 0
  then show ?case by simp
next
  case (Suc m)
  then have pn: "p < n" "[p..<n] = p # [Suc p..<n]" by (simp_all add: upt_conv_Cons)
  show ?case
  proof (cases "resolve_done rv")
    case True
    then have "rv' = rv \<and> used' = used \<and> k' = k" using Suc.prems(4) by (simp add: pn(2))
    with resolver_inv_done [OF Suc.prems(2) True Suc.prems(1)] Suc.prems(3) show ?thesis by simp
  next
    case False
    obtain li c1 k1 where li: "gpiod_chip_get_line_info K chip (of_nat p) c k = (li, c1, k1)" by (rule prod_cases3)
    from Suc.prems(4) False obtain info where info: "li = Some info"
      by (cases li) (simp_all add: pn(2) li die_perror_def)
    note off = get_line_info_offset [OF kc li [unfolded info]]
    have at: "unat (gpiod_line_info_get_offset (snd info)) = p" using off pn(1) n by (simp add: unat_of_nat_32)
    have "line_shown K k0 path (gpiod_line_info_get_offset (snd info)) info"
      using Suc.prems(3) li unfolding line_shown_def off info by blast
    note step = resolve_line_inv [OF Suc.prems(2) at this]
    note st = scan_line [OF Suc.prems(3) li]
    obtain rv1 r where rl: "resolve_line rv info (int i) = Inr (rv1, r)"
      using Suc.prems(4) False by (cases "resolve_line rv info (int i)") (auto simp: pn(2) li info)
    have next_inv: "resolver_inv K k0 seen path ids n i (Suc p) (used \<or> r) rv1" "rv_chips rv1 = rv_chips rv"
      using step [OF rl] by simp_all
    obtain c2 where go: "resolve_offsets K chip cinfo (int i) [Suc p..<n] rv1 (used \<or> r) c2 k1
        = Inr (rv', used', c', k')"
      using Suc.prems(4) False by (cases r) (simp_all add: pn(2) li info rl)
    have "m = n - Suc p" "Suc p \<le> n" using Suc.hyps(2) pn by simp_all
    from Suc.hyps(1) [OF this next_inv(1) st go] next_inv(2) show ?thesis by simp
  qed
qed

text \<open>Between two chips no line waits for its information: the state is \<open>resolver_inv K k0 seen path ids 0 i 0 False\<close>.\<close>

lemma line_inv_start: "line_inv S 0 i 0 b line \<Longrightarrow> line_inv S n i 0 b line"
  by (cases "rl_info line") (auto simp: line_inv_def)

lemma resolver_inv_start:
  "resolver_inv K k0 seen path ids 0 i 0 False rv \<Longrightarrow> resolver_inv K k0 seen path ids n i 0 False rv"
  by (simp add: resolver_inv_def list_all_iff line_inv_start)

lemma line_inv_fresh: "line_inv S 0 0 0 b line \<Longrightarrow> rl_info line = None \<and> \<not> rl_resolved line"
  by (auto simp: line_inv_def split: option.splits)

lemma unat_of_int_32: "0 \<le> z \<Longrightarrow> z < 2 ^ 32 \<Longrightarrow> unat (of_int z :: u32) = nat z"
  using unat_of_nat_32 [of "nat z"] by (simp add: nat_less_iff)

lemma resolve_lines_by_offset_inv:
  assumes inv: "resolver_inv K k0 seen path ids 0 0 0 False rv" and n: "num_lines < 2 ^ 31"
    and run: "resolve_lines_by_offset rv num_lines = (rv', used)"
  shows "resolver_inv K k0 seen path ids (nat num_lines) 0 0 used rv' \<and> rv_chips rv' = rv_chips rv"
proof -
  define mark where "mark line = (if in_range num_lines line
      then line\<lparr>rl_chip_num := 0, rl_offset := of_int (rl_id_as_offset line), rl_resolved := True\<rparr>
      else line)" for line
  have rv': "rv' = rv\<lparr>rv_lines := map mark (rv_lines rv)\<rparr>" and used: "used = list_ex (in_range num_lines) (rv_lines rv)"
    using run by (auto simp: resolve_lines_by_offset_def mark_def)
  have nc: "rv_num_chips rv = 0" using inv by (simp add: resolver_inv_def)
  have old: "line_inv (line_at K k0 rv path) 0 0 0 0 line" if "line \<in> set (rv_lines rv)" for line
    using inv that nc by (simp add: resolver_inv_def list_all_iff)
  have new: "line_inv (line_at K k0 rv path) (nat num_lines) 0 0 (of_bool used) (mark line)" if m: "line \<in> set (rv_lines rv)" for line
  proof (cases "in_range num_lines line")
    case True
    then have u: "used" using m used by (auto simp: list_ex_iff)
    have r: "0 \<le> rl_id_as_offset line" "rl_id_as_offset line < num_lines"
      using True old [OF m] by (auto simp: in_range_def line_inv_def)
    then have "unat (of_int (rl_id_as_offset line) :: u32) = nat (rl_id_as_offset line)"
      using n by (intro unat_of_int_32) simp_all
    with r u line_inv_fresh [OF old [OF m]] show ?thesis
      by (simp add: mark_def True line_inv_def by_offset_def del: of_nat_unat)
  next
    case False
    with old [OF m] line_inv_fresh [OF old [OF m]] show ?thesis by (simp add: mark_def line_inv_def)
  qed
  have "has_info \<circ> mark = has_info" "line_key \<circ> mark = line_key"
    by (simp_all add: fun_eq_iff mark_def has_info_def line_key_def)
  with inv new nc show ?thesis by (simp add: resolver_inv_def rv' list_all_iff filter_map)
qed

text \<open>Going on to the next path: the chip is filed when it is used.\<close>

lemma chips_sound_more: "chips_sound K k0 seen rv \<Longrightarrow> chips_sound K k0 (seen @ paths) rv"
  unfolding chips_sound_def map_append by blast

lemmas chips_sound_skip = chips_sound_more [of K k0 seen rv "[path]" for K k0 seen rv path]

lemma chips_sound_file:
  assumes old: "chips_sound K k0 seen rv" and room: "rv_num_chips rv < length (rv_chips rv)"
    and info: "chip_shown K k0 (snd path) info"
  shows "chips_sound K k0 (seen @ [path]) (rv\<lparr>rv_chips := (rv_chips rv)[rv_num_chips rv :=
      \<lparr>rch_info = Some info, rch_path = Some path\<rparr>], rv_num_chips := rv_num_chips rv + 1\<rparr>)"
  using assms by (cases info; cases path)
    (auto simp: chips_sound_def nth_list_update take_Suc_conv_app_nth less_Suc_eq)

lemma resolver_inv_skip:
  assumes "resolver_inv K k0 seen path ids n i n False rv"
  shows "resolver_inv K k0 (seen @ [pt]) path' ids 0 (Suc i) 0 False rv"
proof -
  have "line_inv (line_at K k0 rv path') 0 (Suc i) 0 (rv_num_chips rv) line"
    if "line_inv (line_at K k0 rv path) n i n (rv_num_chips rv) line" for line
  proof (rule line_inv_shown)
    show "line_inv (line_at K k0 rv path) 0 (Suc i) 0 (rv_num_chips rv) line"
      using that by (auto simp: line_inv_def split: option.splits)
  qed (simp add: line_at_def)
  with assms show ?thesis by (auto simp: resolver_inv_def list_all_iff intro: chips_sound_skip)
qed

lemma resolver_inv_path:
  "resolver_inv K k0 seen path ids 0 i 0 False rv \<Longrightarrow> resolver_inv K k0 seen path' ids 0 i 0 False rv"
  by (auto simp: resolver_inv_def list_all_iff line_at_def elim!: line_inv_shown)

lemma resolver_inv_file:
  assumes inv: "resolver_inv K k0 seen (snd path) ids n i n True rv"
    and room: "rv_num_chips rv < length (rv_chips rv)" and info: "chip_shown K k0 (snd path) info"
  shows "resolver_inv K k0 (seen @ [path]) path' ids 0 (Suc i) 0 False (rv\<lparr>rv_chips := (rv_chips rv)[rv_num_chips rv :=
      \<lparr>rch_info = Some info, rch_path = Some path\<rparr>], rv_num_chips := rv_num_chips rv + 1\<rparr>)"
    (is "resolver_inv _ _ _ _ _ _ _ _ _ ?rv")
proof -
  have "line_inv (line_at K k0 ?rv path') 0 (Suc i) 0 (Suc (rv_num_chips rv)) line"
    if "line_inv (line_at K k0 rv (snd path)) n i n (Suc (rv_num_chips rv)) line" for line
  proof (rule line_inv_shown)
    show "line_inv (line_at K k0 rv (snd path)) 0 (Suc i) 0 (Suc (rv_num_chips rv)) line"
      using that by (auto simp: line_inv_def split: option.splits)
  qed (use room in \<open>auto simp: line_at_def chip_path_of_def nth_list_update split: if_splits\<close>)
  with inv chips_sound_file [OF _ room info, of seen] show ?thesis by (simp add: resolver_inv_def list_all_iff)
qed

lemma int_num_lines_less: "int_num_lines info < 2 ^ 31"
  using sint_lt [of "of_nat (gpiod_chip_info_get_num_lines info) :: u32"] by (simp add: int_num_lines_def)

lemma resolve_chip_inv:
  assumes kc: "offset_contract K" and inv: "resolver_inv K k0 seen q ids 0 i 0 False rv"
    and i: "i < length (rv_chips rv)" and st: "scan_state K k0 None k"
    and run: "resolve_chip K chip_id by_name i path rv c k = Inr (rv', c', k')"
  shows "resolver_inv K k0 (seen @ [path]) q' ids 0 (Suc i) 0 False rv' \<and> length (rv_chips rv') = length (rv_chips rv)
    \<and> scan_state K k0 None k'"
proof -
  obtain chip c1 k1 where op: "gpiod_chip_open K (Some (snd path)) c k = (chip, c1, k1)" by (rule prod_cases3)
  show ?thesis
  proof (cases chip)
    case None
    with run op have "rv' = rv \<and> k' = k1" by (auto simp: resolve_chip_def die_perror_def split: if_splits)
    with resolver_inv_skip [OF inv] scan_no_open [OF st op [unfolded None]] show ?thesis by simp
  next
    case (Some p)
    note st1 = scan_open [OF st op [unfolded Some]]
    obtain cinfo c2 k2 where gi: "gpiod_chip_get_info K (snd p) c1 k1 = (cinfo, c2, k2)" by (rule prod_cases3)
    with run op Some obtain info where info: "cinfo = Some info"
      by (cases cinfo) (simp_all add: resolve_chip_def die_perror_def)
    have shown: "chip_shown K k0 (snd path) info" using st1 gi unfolding chip_shown_def info by blast
    define nl where "nl = int_num_lines (snd info)"
    obtain rv1 used1 where off: "(if i = 0 \<and> chip_id \<noteq> None \<and> \<not> by_name
        then resolve_lines_by_offset rv nl else (rv, False)) = (rv1, used1)" by fastforce
    have inv0: "resolver_inv K k0 seen (snd path) ids 0 i 0 False rv" by (rule resolver_inv_path [OF inv])
    have inv1: "resolver_inv K k0 seen (snd path) ids (nat nl) i 0 used1 rv1" "rv_chips rv1 = rv_chips rv"
      using off inv0 resolve_lines_by_offset_inv [of K k0 seen "snd path" ids rv nl rv1 used1]
        resolver_inv_start [of K k0 seen "snd path" ids i rv "nat nl"]
        int_num_lines_less [of "snd info"] by (auto simp: nl_def split: if_splits)
    obtain rv2 used2 c3 k3 where go: "resolve_offsets K (snd p) (snd info) (int i) [0..<nat nl] rv1 used1 c2 k2
        = Inr (rv2, used2, c3, k3)"
      using run by (cases "resolve_offsets K (snd p) (snd info) (int i) [0..<nat nl] rv1 used1 c2 k2")
        (auto simp: resolve_chip_def op Some gi info Let_def off nl_def [symmetric] simp del: not_None_eq)
    have n: "nat nl < 2 ^ 32" using int_num_lines_less [of "snd info"] by (simp add: nl_def)
    note inv2 = resolve_offsets_inv [OF kc n le0 inv1(1) scan_info [OF st1 gi] go]
    then have room: "rv_num_chips rv2 < length (rv_chips rv2)" using i inv1(2) by (simp add: resolver_inv_def)
    obtain c4 k4 where cl: "gpiod_chip_close K (Some p) c3 k3 = (c4, k4)" by fastforce
    have fin: "rv' = (if used2 then rv2\<lparr>rv_chips := (rv_chips rv2)[rv_num_chips rv2 :=
        \<lparr>rch_info = Some info, rch_path = Some path\<rparr>], rv_num_chips := rv_num_chips rv2 + 1\<rparr> else rv2) \<and> k' = k4"
      using run by (auto simp: resolve_chip_def op Some gi info Let_def off nl_def [symmetric] go cl
          simp del: not_None_eq)
    have "scan_state K k0 None k'" using scan_close [OF _ cl] inv2 fin by blast
    then show ?thesis
      using fin inv2 inv1(2) resolver_inv_skip [of K k0 seen "snd path" ids "nat nl" i rv2 path q']
        resolver_inv_file [OF _ room shown, of seen ids "nat nl" i q'] by (cases used2) simp_all
  qed
qed

lemma resolve_chips_inv:
  assumes kc: "offset_contract K"
  shows "resolver_inv K k0 seen q ids 0 i 0 False rv \<Longrightarrow> i + length paths \<le> length (rv_chips rv)
    \<Longrightarrow> scan_state K k0 None k \<Longrightarrow> resolve_chips K chip_id by_name i paths rv c k = Inr (rv', c', k')
    \<Longrightarrow> \<exists>i'. resolver_inv K k0 (seen @ paths) q ids 0 i' 0 False rv'"
proof (induction paths arbitrary: i rv c k seen)
  case Nil
  then show ?case by auto
next
  case (Cons path paths)
  show ?case
  proof (cases "resolve_done rv")
    case True
    with Cons.prems show ?thesis by (auto simp: resolver_inv_def intro: chips_sound_more)
  next
    case False
    then obtain rv1 c1 k1 where one: "resolve_chip K chip_id by_name i path rv c k = Inr (rv1, c1, k1)"
      and rest: "resolve_chips K chip_id by_name (Suc i) paths rv1 c1 k1 = Inr (rv', c', k')"
      using Cons.prems(4) by (auto split: sum.splits)
    have "i < length (rv_chips rv)" using Cons.prems(2) by simp
    note step = resolve_chip_inv [OF kc Cons.prems(1) this Cons.prems(3) one, of q]
    then have "Suc i + length paths \<le> length (rv_chips rv1)" using Cons.prems(2) by simp
    from Cons.IH [OF _ this _ rest, of "seen @ [path]"] step show ?thesis by simp
  qed
qed

lemma parse_uint_lower: "-1 \<le> parse_uint s"
proof -
  have "-1 \<le> uint w" for w :: u64 using uint_ge_0 [of w] by linarith
  then show ?thesis by (simp add: parse_uint_def split: prod.split)
qed

definition request_keys :: "bool \<Rightarrow> string list \<Rightarrow> (string \<times> int) list" where
  "request_keys by_name ids = map (\<lambda>ident. (ident, if by_name then -1 else parse_uint ident)) ids"

lemma resolver_init_inv:
  assumes "resolver_init ids n strict by_name c = Inr (p, c')"
  shows "resolver_inv K k0 [] q (request_keys by_name ids) 0 0 0 False (snd p) \<and> length (rv_chips (snd p)) = n"
  using assms parse_uint_lower
  by (auto simp: resolver_init_def die_def resolver_inv_def line_inv_def list_all_iff has_info_def comp_def
      line_key_def request_keys_def chips_sound_def split: prod.splits option.splits)

text \<open>
  What a finished resolution promises: the lines are the requested ones in order, and each is either
  not resolved or resolved to a line that has the requested offset on the one chip, or the requested
  name; its information is what the system showed of that offset with the chip open at the very path that
  the resolver has for the chip number of the line.
\<close>

definition line_sound :: "'k kernel \<Rightarrow> 'k \<Rightarrow> line_resolver \<Rightarrow> resolved_line \<Rightarrow> bool" where
  "line_sound K k0 rv line \<longleftrightarrow> (case rl_info line of
     None \<Rightarrow> \<not> rl_resolved line
   | Some info \<Rightarrow> rl_resolved line \<and> rl_offset line = gpiod_line_info_get_offset (snd info)
       \<and> (by_offset line \<or> named line (snd info))
       \<and> 0 \<le> rl_chip_num line \<and> rl_chip_num line < int (rv_num_chips rv)
       \<and> line_shown K k0 (chip_path_of rv (nat (rl_chip_num line))) (rl_offset line) info)"

definition resolution_ok :: "'k kernel \<Rightarrow> 'k \<Rightarrow> string obj list \<Rightarrow> bool \<Rightarrow> string list \<Rightarrow> line_resolver \<Rightarrow> bool" where
  "resolution_ok K k0 paths by_name ids rv \<longleftrightarrow> map line_key (rv_lines rv) = request_keys by_name ids
     \<and> rv_num_found rv = length (filter has_info (rv_lines rv))
     \<and> chips_sound K k0 paths rv
     \<and> list_all (line_sound K k0 rv) (rv_lines rv)"

lemma resolver_inv_ok:
  assumes "resolver_inv K k0 paths q (request_keys by_name ids) 0 i 0 False rv"
  shows "resolution_ok K k0 paths by_name ids rv"
proof -
  have "line_sound K k0 rv line" if "line_inv (line_at K k0 rv q) 0 i 0 (rv_num_chips rv) line" for line
    using that by (auto simp: line_inv_def line_sound_def line_at_def split: option.splits)
  with assms show ?thesis by (simp add: resolver_inv_def resolution_ok_def list_all_iff)
qed

lemma resolve_lines_cases:
  assumes "resolve_lines E ids chip_id strict by_name c k = Inr (p, c', k')"
  obtains paths arr c1 k1 p1 c2 c3 where "chip_paths E chip_id c k = Inr (paths, arr, c1, k1)"
    "resolver_init ids (length paths) strict (chip_id = None \<or> by_name) c1 = Inr (p1, c2)"
    "resolve_chips (te_kernel E) chip_id (chip_id = None \<or> by_name) 0 paths (snd p1) c2 k1
       = Inr (snd p, c3, k')" "fst p = fst p1" "c' = free_ptr arr c3"
proof -
  have bn: "(if chip_id = None then True else by_name) = (chip_id = None \<or> by_name)" by (cases chip_id) simp_all
  from assms show ?thesis
    unfolding resolve_lines_def Let_def bn by (auto simp: die_def that split: sum.splits if_splits)
qed

lemma resolve_lines_ok:
  assumes kc: "offset_contract (te_kernel E)"
    and run: "resolve_lines E ids chip_id strict by_name c k = Inr (p, c', k')"
  shows "\<exists>paths arr c1 k1. chip_paths E chip_id c k = Inr (paths, arr, c1, k1)
    \<and> resolution_ok (te_kernel E) k1 paths (chip_id = None \<or> by_name) ids (snd p)"
  using run
proof (cases rule: resolve_lines_cases)
  case (1 paths arr c1 k1 p1 c2 c3)
  note init = resolver_init_inv [OF 1(2), of "te_kernel E" k1 "[]"]
  have "\<exists>i'. resolver_inv (te_kernel E) k1 ([] @ paths) [] (request_keys (chip_id = None \<or> by_name) ids) 0 i' 0 False (snd p)"
    using init by (intro resolve_chips_inv [OF kc _ _ scan_start 1(3)]) simp_all
  then show ?thesis using 1(1) resolver_inv_ok by fastforce
qed

lemma resolution_ok_ids:
  assumes "resolution_ok K k0 paths by_name ids rv"
  shows "map rl_id (rv_lines rv) = ids"
proof -
  have "map fst (map line_key (rv_lines rv)) = map fst (request_keys by_name ids)"
    using assms by (simp add: resolution_ok_def)
  then show ?thesis by (simp add: line_key_def request_keys_def comp_def)
qed

section \<open>Using a resolution: lemmas\<close>

lemma resolution_errors_Nil:
  "resolution_errors chip_id prevs lines = [] \<longleftrightarrow> list_all rl_resolved lines
     \<and> distinct (map (\<lambda>l. (rl_chip_num l, rl_offset l)) lines)
     \<and> list_all (\<lambda>l. \<not> list_ex (\<lambda>prev. same_line prev l) prevs) lines"
proof (induction lines arbitrary: prevs)
  case Nil
  then show ?case by simp
next
  case (Cons line lines)
  have "find (\<lambda>prev. same_line prev line) prevs = None \<longleftrightarrow> \<not> list_ex (\<lambda>prev. same_line prev line) prevs"
    by (auto simp: find_None_iff list_ex_iff)
  then show ?case
    by (cases "rl_resolved line")
      (auto simp: Cons.IH list_all_iff list_ex_iff same_line_def split: option.splits)
qed

text \<open>The lines of one chip, in the order of the request.\<close>

definition chip_lines :: "int \<Rightarrow> line_resolver \<Rightarrow> resolved_line list" where
  "chip_lines chip_num rv = filter (\<lambda>line. rl_chip_num line = chip_num) (rv_lines rv)"

lemma list_update_prefix: "length xs < length ys \<Longrightarrow> xs @ y # drop (Suc (length xs)) ys = (xs @ drop (length xs) ys)[length xs := y]"
  by (simp add: list_update_append drop_update_cancel Cons_nth_drop_Suc [symmetric])

lemma offsets_and_values_loop_eq:
  assumes "length sel + length (filter (\<lambda>l. rl_chip_num l = n) lines) \<le> length offs"
    "length sel + length (filter (\<lambda>l. rl_chip_num l = n) lines) \<le> length vals"
  shows "offsets_and_values_loop n lines (length sel) (map rl_offset sel @ drop (length sel) offs)
      (Some (map (\<lambda>l. line_value_of_int (rl_value l)) sel @ drop (length sel) vals)) =
    (let all = sel @ filter (\<lambda>l. rl_chip_num l = n) lines in
     (length all, map rl_offset all @ drop (length all) offs,
      Some (map (\<lambda>l. line_value_of_int (rl_value l)) all @ drop (length all) vals)))"
  using assms
proof (induction lines arbitrary: sel)
  case Nil
  then show ?case by simp
next
  case (Cons line lines)
  show ?case
  proof (cases "rl_chip_num line = n")
    case True
    have upd: "(map f sel @ drop (length sel) xs)[length sel := f line]
        = map f (sel @ [line]) @ drop (length (sel @ [line])) xs" if "length sel < length xs" for f and xs :: "'z list"
      using list_update_prefix [of "map f sel" xs "f line"] that by simp
    have "length sel < length offs" "length sel < length vals" using Cons.prems True by simp_all
    note u = upd [OF this(1), of rl_offset] upd [OF this(2), of "\<lambda>l. line_value_of_int (rl_value l)"]
    have "length (sel @ [line]) = Suc (length sel)" by simp
    from Cons.IH [of "sel @ [line]"] Cons.prems True show ?thesis
      using u by (simp add: Let_def)
  next
    case False
    with Cons show ?thesis by simp
  qed
qed

lemma set_values_loop_chip: "filter (\<lambda>l. rl_chip_num l = n) (set_values_loop n vs lines)
    = map2 (\<lambda>l v. l\<lparr>rl_value := line_value_int v\<rparr>) (filter (\<lambda>l. rl_chip_num l = n) lines) vs"
  if "length vs = length (filter (\<lambda>l. rl_chip_num l = n) lines)"
  using that
proof (induction lines arbitrary: vs)
  case (Cons line lines)
  then show ?case by (cases vs) (auto split: if_splits)
qed simp

lemma set_values_loop_other: "m \<noteq> n \<Longrightarrow> filter (\<lambda>l. rl_chip_num l = m) (set_values_loop n vs lines)
    = filter (\<lambda>l. rl_chip_num l = m) lines"
  by (induction lines arbitrary: vs) auto

lemma line_value_int_inverse: "v \<in> {GPIOD_LINE_VALUE_ERROR, GPIOD_LINE_VALUE_INACTIVE, GPIOD_LINE_VALUE_ACTIVE}
    \<Longrightarrow> line_value_of_int (line_value_int v) = v"
  by (auto simp: line_value_of_int_def)

lemma map2_value:
  assumes "length ls = length vs" "set vs \<subseteq> {GPIOD_LINE_VALUE_INACTIVE, GPIOD_LINE_VALUE_ACTIVE}"
  shows "map (\<lambda>l. line_value_of_int (rl_value l)) (map2 (\<lambda>l v. l\<lparr>rl_value := line_value_int v\<rparr>) ls vs) = vs
    \<and> map rl_offset (map2 (\<lambda>l v. l\<lparr>rl_value := line_value_int v\<rparr>) ls vs) = map rl_offset ls"
  using assms by (induction ls vs rule: list_induct2) (auto simp: line_value_of_int_def)

text \<open>The offsets that are asked for on a chip, and the values filed under its lines.\<close>

lemma offsets_loop_no_values:
  "offsets_and_values_loop n lines m offs None
    = (case offsets_and_values_loop n lines m offs (Some vals) of (num, offs, _) \<Rightarrow> (num, offs, None))"
  by (induction lines arbitrary: m offs vals) simp_all

lemma chip_offsets:
  assumes "length (chip_lines n rv) \<le> length offs"
  shows "get_line_offsets_and_values rv n offs None = (length (chip_lines n rv),
    map rl_offset (chip_lines n rv) @ drop (length (chip_lines n rv)) offs, None)"
proof -
  let ?vals = "replicate (length offs) GPIOD_LINE_VALUE_INACTIVE"
  have "offsets_and_values_loop n (rv_lines rv) 0 offs (Some ?vals) = (length (chip_lines n rv),
      map rl_offset (chip_lines n rv) @ drop (length (chip_lines n rv)) offs,
      Some (map (\<lambda>l. line_value_of_int (rl_value l)) (chip_lines n rv) @ drop (length (chip_lines n rv)) ?vals))"
    using offsets_and_values_loop_eq [of "[]" n "rv_lines rv" offs ?vals] assms by (simp add: chip_lines_def Let_def)
  then show ?thesis
    unfolding get_line_offsets_and_values_def offsets_loop_no_values [of _ _ _ _ ?vals] by simp
qed

definition line_place :: "resolved_line \<Rightarrow> int \<times> u32" where
  "line_place line = (rl_chip_num line, rl_offset line)"

text \<open>The lines with the values of a table of readings.\<close>

definition put_reading :: "((int \<times> u32) \<times> gpiod_line_value) list \<Rightarrow> resolved_line \<Rightarrow> resolved_line" where
  "put_reading rs line = (case map_of rs (line_place line) of
     None \<Rightarrow> line | Some v \<Rightarrow> line\<lparr>rl_value := line_value_int v\<rparr>)"

lemma put_reading_place [simp]: "line_place (put_reading rs line) = line_place line"
  by (simp add: put_reading_def line_place_def split: option.splits)

lemma set_values_loop_readings:
  assumes "distinct (map line_place lines)" "length (filter (\<lambda>l. rl_chip_num l = n) lines) = length vs"
  shows "set_values_loop n (vs @ rest) lines
    = map (put_reading (zip (map line_place (filter (\<lambda>l. rl_chip_num l = n) lines)) vs)) lines"
  using assms
proof (induction lines arbitrary: vs)
  case (Cons line lines)
  let ?sel = "filter (\<lambda>l. rl_chip_num l = n) lines"
  show ?case
  proof (cases "rl_chip_num line = n")
    case False
    then have "map_of (zip (map line_place ?sel) vs) (line_place line) = None"
      by (auto simp: map_of_eq_None_iff line_place_def dest!: set_zip_leftD)
    then have "put_reading (zip (map line_place ?sel) vs) line = line" by (simp add: put_reading_def)
    with Cons False show ?thesis by simp
  next
    case True
    with Cons.prems obtain v vs' where vs: "vs = v # vs'" by (cases vs) simp_all
    have "put_reading (zip (map line_place ?sel) vs') l
        = put_reading ((line_place line, v) # zip (map line_place ?sel) vs') l" if "l \<in> set lines" for l
    proof -
      have "line_place l \<noteq> line_place line" using that Cons.prems(1) by (metis distinct.simps(2) image_eqI list.simps(9) set_map)
      then show ?thesis by (simp add: put_reading_def)
    qed
    with Cons True show ?thesis by (simp add: vs put_reading_def)
  qed
qed simp

text \<open>
  In strict mode a line given by offset whose own name is that same text is reported as not unique, on
  the one line of the chip that has it.
\<close>

lemma strict_own_name_clash:
  assumes "rl_resolved line" "named line (snd info)"
  shows "resolve_one info chip_num True num_chips line num_found resolved
    = die (''line '' @ [CHR 0x27] @ rl_id line @ [CHR 0x27] @ '' is not unique'')"
  using assms by (auto simp: resolve_one_def named_def Let_def split: option.splits)

section \<open>Properties\<close>

text \<open>A system with one chip, \<open>chip_kernel\<close>, and one other device in \<open>/dev\<close>.\<close>

definition sample_env :: "nat list tool_env" where
  "sample_env = \<lparr>te_kernel = chip_kernel, te_readdir = (\<lambda>_ k. (Inr [''gpiochip0''], k)),
     te_versionsort = (\<lambda>es. es)\<rparr>"

lemma sample_env_contract: "offset_contract (te_kernel sample_env)"
  by (auto simp: offset_contract_def sample_env_def chip_kernel_def)

text \<open>
  C10: The resolver resolves to the right lines.  On every system whose line information calls answer
  for the line they are asked about, and for any request (by offset, by name, strict or not), if
  \<open>resolve_lines\<close> returns then the resolver holds the requested lines in order; a line is resolved
  exactly when it has an information; a resolved line has the requested offset on the named chip or
  carries the requested name, and its information is the answer the system gave for its offset while the
  chip was open at the path that the resolver has under the chip number of the line.  The chips of the
  resolver are chips that were searched, in that order, each with the information the system gave for
  it, and \<open>num_found\<close> counts the lines with information.
\<close>

theorem resolve_lines_sound:
  assumes "offset_contract (te_kernel E)"
    and "resolve_lines E ids chip_id strict by_name c k = Inr (p, c', k')"
  shows "\<exists>paths arr c1 k1. chip_paths E chip_id c k = Inr (paths, arr, c1, k1)
    \<and> resolution_ok (te_kernel E) k1 paths (chip_id = None \<or> by_name) ids (snd p)"
  using assms by (rule resolve_lines_ok)

theorem resolve_lines_sound_witness:
  "case resolve_lines sample_env [''1'', ''0''] (Some ''gpiochip0'') False False crt_init [0] of
     Inl e \<Rightarrow> False
   | Inr (p, c', k') \<Rightarrow> (\<exists>paths arr c1 k1.
         chip_paths sample_env (Some ''gpiochip0'') crt_init [0] = Inr (paths, arr, c1, k1)
         \<and> resolution_ok (te_kernel sample_env) k1 paths False [''1'', ''0''] (snd p))
       \<and> map rl_offset (rv_lines (snd p)) = [1, 0]"
proof -
  let ?r = "resolve_lines sample_env [''1'', ''0''] (Some ''gpiochip0'') False False crt_init [0]"
  have "case ?r of Inl e \<Rightarrow> False | Inr (p, c', k') \<Rightarrow> map rl_offset (rv_lines (snd p)) = [1, 0]" by code_simp
  then obtain p c' k' where r: "?r = Inr (p, c', k')" and m: "map rl_offset (rv_lines (snd p)) = [1, 0]"
    by (auto split: sum.splits)
  from resolve_lines_sound [OF sample_env_contract r] m show ?thesis by (simp add: r)
qed

text \<open>
  C33: Validation.  \<open>validate_resolution\<close> lets the program go on exactly when every requested line was
  resolved and no two of them are the same line of the same chip.
\<close>

theorem validate_resolution_iff:
  "validate_resolution rv chip_id = Inr () \<longleftrightarrow> list_all rl_resolved (rv_lines rv)
     \<and> distinct (map (\<lambda>l. (rl_chip_num l, rl_offset l)) (rv_lines rv))"
proof -
  have "list_all (\<lambda>l. \<not> list_ex (\<lambda>prev. same_line prev l) []) (rv_lines rv)" by (simp add: list_all_iff)
  then show ?thesis by (simp add: validate_resolution_def resolution_errors_Nil)
qed

text \<open>
  C34: Line values.  Values stored with \<open>set_line_values\<close> for the lines of a chip come back from
  \<open>get_line_offsets_and_values\<close> in the same order, beside the offsets of these lines, in the first
  places of the caller's arrays and nowhere else; the lines of other chips keep theirs.
\<close>

theorem set_get_line_values:
  assumes n: "length vs = length (chip_lines n rv)"
    and vs: "set vs \<subseteq> {GPIOD_LINE_VALUE_INACTIVE, GPIOD_LINE_VALUE_ACTIVE}"
    and room: "length vs \<le> length offs" "length vs \<le> length vals"
  shows "get_line_offsets_and_values (set_line_values rv n vs) n offs (Some vals)
      = (length vs, map rl_offset (chip_lines n rv) @ drop (length vs) offs, Some (vs @ drop (length vs) vals))
    \<and> (m \<noteq> n \<longrightarrow> chip_lines m (set_line_values rv n vs) = chip_lines m rv)"
proof -
  have sel: "chip_lines n (set_line_values rv n vs)
      = map2 (\<lambda>l v. l\<lparr>rl_value := line_value_int v\<rparr>) (chip_lines n rv) vs"
    using n by (simp add: chip_lines_def set_line_values_def set_values_loop_chip)
  have "length (chip_lines n (set_line_values rv n vs)) = length vs" using n by (simp add: sel)
  with room offsets_and_values_loop_eq [of "[]" n "rv_lines (set_line_values rv n vs)" offs vals]
  have "get_line_offsets_and_values (set_line_values rv n vs) n offs (Some vals)
      = (let all = chip_lines n (set_line_values rv n vs) in
         (length all, map rl_offset all @ drop (length all) offs,
          Some (map (\<lambda>l. line_value_of_int (rl_value l)) all @ drop (length all) vals)))"
    by (simp add: get_line_offsets_and_values_def chip_lines_def)
  moreover have "chip_lines m (set_line_values rv n vs) = chip_lines m rv" if "m \<noteq> n"
    using set_values_loop_other [OF that] by (simp add: chip_lines_def set_line_values_def)
  ultimately show ?thesis using map2_value [OF n [symmetric] vs] n by (simp add: sel Let_def)
qed

definition sample_lines :: "line_resolver" where
  "sample_lines = \<lparr>rv_num_chips = 2, rv_num_found = 3, rv_strict = False, rv_chips_blk = 0, rv_chips = [],
     rv_lines = map (\<lambda>(num, off). \<lparr>rl_id = [], rl_id_as_offset = -1, rl_resolved = True, rl_info = None,
       rl_chip_num = num, rl_offset = off, rl_value = 0\<rparr>) [(0, 4), (1, 9), (0, 7)]\<rparr>"

theorem set_get_line_values_witness:
  "get_line_offsets_and_values
     (set_line_values sample_lines 0 [GPIOD_LINE_VALUE_ACTIVE, GPIOD_LINE_VALUE_INACTIVE]) 0 [0, 0, 0]
     (Some [GPIOD_LINE_VALUE_ERROR, GPIOD_LINE_VALUE_ERROR, GPIOD_LINE_VALUE_ERROR])
   = (2, [4, 7, 0], Some [GPIOD_LINE_VALUE_ACTIVE, GPIOD_LINE_VALUE_INACTIVE, GPIOD_LINE_VALUE_ERROR])"
  using set_get_line_values [of "[GPIOD_LINE_VALUE_ACTIVE, GPIOD_LINE_VALUE_INACTIVE]" 0 sample_lines
      "[0, 0, 0]" "[GPIOD_LINE_VALUE_ERROR, GPIOD_LINE_VALUE_ERROR, GPIOD_LINE_VALUE_ERROR]"]
  by (simp add: sample_lines_def chip_lines_def)

end
