(* ===== verification/Tool_Program.thy ===== *)
theory Tool_Program
  imports Resolver
begin

text \<open>
  What the \<open>main\<close> functions of the tools share: a run of a program as a function of its state, the calls
  of the system a tool makes beside the library, and the option parser \<open>getopt_long\<close> of the C library
  in the mode all tools use it (the option string starts with \<open>+\<close>: parsing stops at the first argument
  that is no option).
\<close>

section \<open>Runs of a program\<close>

text \<open>The C run-time, the system, and what was written to standard output and standard error.\<close>

record 'k tstate =
  ts_crt :: crt
  ts_k :: 'k
  ts_out :: string
  ts_err :: "(string \<times> errno option) list"

type_synonym ('k, 'a) prog = "'k tstate \<Rightarrow> 'a tool \<times> 'k tstate"

definition give :: "'a \<Rightarrow> ('k, 'a) prog" where
  "give x s = (Inr x, s)"

definition exec :: "('k, 'a) prog \<Rightarrow> ('a \<Rightarrow> ('k, 'b) prog) \<Rightarrow> ('k, 'b) prog" where
  "exec m f s = (case m s of (Inl e, s) \<Rightarrow> (Inl e, s) | (Inr x, s) \<Rightarrow> f x s)"

definition of_tool :: "'a tool \<Rightarrow> ('k, 'a) prog" where
  "of_tool r s = (r, s)"

definition quit :: "string \<Rightarrow> ('k, 'a) prog" where
  "quit msg s = (die msg, s)"

definition quit_perror :: "string \<Rightarrow> ('k, 'a) prog" where
  "quit_perror msg s = (die_perror msg (ts_crt s), s)"

definition out :: "string \<Rightarrow> ('k, unit) prog" where
  "out text s = (Inr (), s\<lparr>ts_out := ts_out s @ text\<rparr>)"

definition print_error :: "string \<Rightarrow> ('k, unit) prog" where
  "print_error msg s = (Inr (), s\<lparr>ts_err := ts_err s @ [(msg, None)]\<rparr>)"

definition print_perror :: "string \<Rightarrow> ('k, unit) prog" where
  "print_perror msg s = (Inr (), s\<lparr>ts_err := ts_err s @ [(msg, Some (crt_errno (ts_crt s)))]\<rparr>)"

text \<open>Calls that change the run-time only, the run-time and the system, and calls that may exit.\<close>

definition crt_call :: "(crt \<Rightarrow> 'a \<times> crt) \<Rightarrow> ('k, 'a) prog" where
  "crt_call f s = (case f (ts_crt s) of (x, c) \<Rightarrow> (Inr x, s\<lparr>ts_crt := c\<rparr>))"

definition crt_do :: "(crt \<Rightarrow> crt) \<Rightarrow> ('k, unit) prog" where
  "crt_do f s = (Inr (), s\<lparr>ts_crt := f (ts_crt s)\<rparr>)"

definition sys_call :: "(crt \<Rightarrow> 'k \<Rightarrow> 'a \<times> crt \<times> 'k) \<Rightarrow> ('k, 'a) prog" where
  "sys_call f s = (case f (ts_crt s) (ts_k s) of (x, c, k) \<Rightarrow> (Inr x, s\<lparr>ts_crt := c, ts_k := k\<rparr>))"

definition sys_do :: "(crt \<Rightarrow> 'k \<Rightarrow> crt \<times> 'k) \<Rightarrow> ('k, unit) prog" where
  "sys_do f s = (case f (ts_crt s) (ts_k s) of (c, k) \<Rightarrow> (Inr (), s\<lparr>ts_crt := c, ts_k := k\<rparr>))"

definition tool_call :: "(crt \<Rightarrow> 'k \<Rightarrow> ('a \<times> crt \<times> 'k) tool) \<Rightarrow> ('k, 'a) prog" where
  "tool_call f s = (case f (ts_crt s) (ts_k s) of
     Inl e \<Rightarrow> (Inl e, s) | Inr (x, c, k) \<Rightarrow> (Inr x, s\<lparr>ts_crt := c, ts_k := k\<rparr>))"

definition kernel_do :: "('k \<Rightarrow> 'k) \<Rightarrow> ('k, unit) prog" where
  "kernel_do f s = (Inr (), s\<lparr>ts_k := f (ts_k s)\<rparr>)"

text \<open>A pointer result that ends the program when it is \<open>NULL\<close>.\<close>

definition or_perror :: "string \<Rightarrow> ('k, 'a option) prog \<Rightarrow> ('k, 'a) prog" where
  "or_perror msg m = exec m (\<lambda>r. case r of None \<Rightarrow> quit_perror msg | Some x \<Rightarrow> give x)"

definition or_die :: "string \<Rightarrow> ('k, 'a option) prog \<Rightarrow> ('k, 'a) prog" where
  "or_die msg m = exec m (\<lambda>r. case r of None \<Rightarrow> quit msg | Some x \<Rightarrow> give x)"

text \<open>Loops over a list: with a state handed from round to round, and without.\<close>

fun foldp :: "('a \<Rightarrow> 's \<Rightarrow> ('k, 's) prog) \<Rightarrow> 'a list \<Rightarrow> 's \<Rightarrow> ('k, 's) prog" where
  "foldp f [] x = give x"
| "foldp f (y # ys) x = exec (f y x) (foldp f ys)"

definition each :: "('a \<Rightarrow> ('k, unit) prog) \<Rightarrow> 'a list \<Rightarrow> ('k, unit) prog" where
  "each f xs = foldp (\<lambda>x _. f x) xs ()"

definition only_if :: "bool \<Rightarrow> ('k, unit) prog \<Rightarrow> ('k, unit) prog" where
  "only_if b m = (if b then m else give ())"

lemmas prog_defs = give_def exec_def of_tool_def quit_def quit_perror_def out_def print_error_def
  print_perror_def crt_call_def crt_do_def sys_call_def sys_do_def tool_call_def kernel_do_def
  or_perror_def or_die_def only_if_def

lemma exec_give [simp]: "exec (give x) f = f x"
  by (simp add: fun_eq_iff exec_def give_def)

lemma exec_assoc: "exec (exec m f) g = exec m (\<lambda>x. exec (f x) g)"
  by (auto simp: fun_eq_iff exec_def split: sum.splits prod.splits)

lemma exec_eq: "exec = (\<lambda>m f s. case m s of (Inl e, s) \<Rightarrow> (Inl e, s) | (Inr x, s) \<Rightarrow> f x s)"
  by (simp add: fun_eq_iff exec_def)

lemma exec_InrD:
  assumes "exec m f s = (Inr y, s2)"
  obtains x s1 where "m s = (Inr x, s1)" "f x s1 = (Inr y, s2)"
  using assms by (auto simp: exec_def split: sum.splits prod.splits)

text \<open>Runs that may not end, and their sequential composition.\<close>

type_synonym ('k, 'a) run = "'k tstate \<Rightarrow> ('a tool \<times> 'k tstate) option"

definition and_then :: "('a tool \<times> 'k tstate) option \<Rightarrow> ('a \<Rightarrow> ('k, 'b) run) \<Rightarrow> ('b tool \<times> 'k tstate) option" where
  "and_then r f = (case r of
     None \<Rightarrow> None | Some (Inl e, s) \<Rightarrow> Some (Inl e, s) | Some (Inr x, s) \<Rightarrow> f x s)"

section \<open>The system around the tools\<close>

text \<open>
  \<open>re_poll fds timeout\<close> tells for each descriptor whether its \<open>revents\<close> are set; \<open>re_realtime\<close> and
  \<open>re_monotonic\<close> read a clock as seconds and nanoseconds; \<open>re_utc\<close> and \<open>re_local\<close> are the calendar
  conversions of the C library; \<open>re_readline\<close>, \<open>re_history\<close> and \<open>re_add_history\<close> are the line editor.
\<close>

record 'k run_env =
  re_tool :: "'k tool_env"
  re_usleep :: "u32 \<Rightarrow> 'k \<Rightarrow> 'k"
  re_poll :: "int list \<Rightarrow> int \<Rightarrow> ('k, bool list) syscall"
  re_realtime :: "'k \<Rightarrow> (u64 \<times> u64) \<times> 'k"
  re_monotonic :: "'k \<Rightarrow> (u64 \<times> u64) \<times> 'k"
  re_utc :: "u64 \<Rightarrow> string"
  re_local :: "u64 \<Rightarrow> string"
  re_daemon :: "bool \<Rightarrow> ('k, unit) syscall"
  re_isatty :: bool
  re_readline :: "string \<Rightarrow> 'k \<Rightarrow> string option \<times> 'k"
  re_history :: "'k \<Rightarrow> string list"
  re_add_history :: "string \<Rightarrow> 'k \<Rightarrow> 'k"

abbreviation re_kernel :: "'k run_env \<Rightarrow> 'k kernel" where
  "re_kernel E \<equiv> te_kernel (re_tool E)"

text \<open>\<open>poll\<close> with the descriptors of an array; the result has one flag for each, \<open>None\<close> is a failure.\<close>

definition poll :: "'k run_env \<Rightarrow> int list \<Rightarrow> int \<Rightarrow> crt \<Rightarrow> 'k \<Rightarrow> bool list option \<times> crt \<times> 'k" where
  "poll E fds timeout c k =
     (case re_poll E fds timeout k of
        (Inl e, k) \<Rightarrow> (None, set_errno e c, k)
      | (Inr revents, k) \<Rightarrow> (Some revents, c, k))"

text \<open>\<open>%d\<close>.\<close>

definition decimal_int :: "int \<Rightarrow> string" where
  "decimal_int n = (if n < 0 then CHR ''-'' # decimal (nat (- n)) else decimal (nat n))"

section \<open>Texts\<close>

text \<open>The banners of the tools differ in one word.\<close>

definition banner_text :: "string \<Rightarrow> string list \<Rightarrow> string" where
  "banner_text verb lines =
     (if length lines > 1
      then verb @ '' lines '' @ concat (map (\<lambda>l. [CHR 0x27] @ l @ [CHR 0x27] @ '', '') (butlast lines))
           @ ''and '' @ [CHR 0x27] @ last lines @ [CHR 0x27] @ ''...'' @ [CHR 10]
      else verb @ '' line '' @ [CHR 0x27] @ hd lines @ [CHR 0x27] @ ''...'' @ [CHR 10])"

text \<open>
  The loop over a format: text up to the next \<open>%\<close> as it is, then the expansion of the character after
  it; a \<open>%\<close> at the end stands for itself.
\<close>

fun format_loop :: "(char \<Rightarrow> ('k, unit) prog) \<Rightarrow> string \<Rightarrow> ('k, unit) prog" where
  "format_loop expand [] = give ()"
| "format_loop expand (ch # fmt) =
     (if ch \<noteq> CHR ''%'' then exec (out [ch]) (\<lambda>_. format_loop expand fmt)
      else case fmt of
        [] \<Rightarrow> out ''%''
      | f # fmt' \<Rightarrow> exec (expand f) (\<lambda>_. format_loop expand fmt'))"

section \<open>Options\<close>

text \<open>
  An entry of the \<open>longopts\<close> table: name, whether an argument is required, and what the option does,
  which is to return a character or to store a number through the \<open>flag\<close> pointer and return \<open>0\<close>.
\<close>

datatype opt_code = Code char | SetFlag int

type_synonym longopt = "string \<times> bool \<times> opt_code"

text \<open>What one call of \<open>getopt_long\<close> returns, with \<open>optarg\<close>; \<open>OptBad\<close> is \<open>'?'\<close>.\<close>

datatype opt = Opt char "string option" | OptFlag int | OptBad

text \<open>The entry of a character in the option string: \<open>None\<close> if it has none, else if it takes an argument.\<close>

fun short_arg :: "string \<Rightarrow> char \<Rightarrow> bool option" where
  "short_arg [] ch = None"
| "short_arg (x # xs) ch =
     (if x = ch \<and> ch \<noteq> CHR '':'' then Some (case xs of [] \<Rightarrow> False | y # ys \<Rightarrow> y = CHR '':'')
      else short_arg xs ch)"

text \<open>An argument with short options: its characters after the dash, and the arguments that follow.\<close>

fun short_cluster :: "string \<Rightarrow> string \<Rightarrow> string list \<Rightarrow> opt list \<times> string list" where
  "short_cluster shortopts [] args = ([], args)"
| "short_cluster shortopts (ch # chs) args =
     (case short_arg shortopts ch of
        None \<Rightarrow> (case short_cluster shortopts chs args of (os, args) \<Rightarrow> (OptBad # os, args))
      | Some False \<Rightarrow> (case short_cluster shortopts chs args of (os, args) \<Rightarrow> (Opt ch None # os, args))
      | Some True \<Rightarrow>
          if chs \<noteq> [] then ([Opt ch (Some chs)], args)
          else (case args of [] \<Rightarrow> ([OptBad], []) | a # as \<Rightarrow> ([Opt ch (Some a)], as)))"

text \<open>
  The entry a long option names: the one with this name, or else the only one (up to entries that do
  the same) whose name starts with it.
\<close>

definition long_match :: "longopt list \<Rightarrow> string \<Rightarrow> (bool \<times> opt_code) option" where
  "long_match longopts name =
     (case map_of longopts name of
        Some e \<Rightarrow> Some e
      | None \<Rightarrow>
          (case remdups (map snd (filter (\<lambda>(n, e). take (length name) n = name) longopts)) of
             [e] \<Rightarrow> Some e
           | _ \<Rightarrow> None))"

definition opt_of_code :: "opt_code \<Rightarrow> string option \<Rightarrow> opt" where
  "opt_of_code code arg = (case code of Code ch \<Rightarrow> Opt ch arg | SetFlag n \<Rightarrow> OptFlag n)"

text \<open>A long option, without its two dashes, and the arguments that follow.\<close>

definition long_option :: "longopt list \<Rightarrow> string \<Rightarrow> string list \<Rightarrow> opt \<times> string list" where
  "long_option longopts text args =
     (let name = takeWhile (\<lambda>ch. ch \<noteq> CHR ''='') text; rest = dropWhile (\<lambda>ch. ch \<noteq> CHR ''='') text in
      case long_match longopts name of
        None \<Rightarrow> (OptBad, args)
      | Some (False, code) \<Rightarrow> if rest \<noteq> [] then (OptBad, args) else (opt_of_code code None, args)
      | Some (True, code) \<Rightarrow>
          if rest \<noteq> [] then (opt_of_code code (Some (tl rest)), args)
          else (case args of [] \<Rightarrow> (OptBad, []) | a # as \<Rightarrow> (opt_of_code code (Some a), as)))"

lemma short_cluster_args: "short_cluster shortopts chs args = (os, args') \<Longrightarrow> length args' \<le> length args"
  by (induction shortopts chs args arbitrary: os args' rule: short_cluster.induct)
    (auto split: option.splits bool.splits prod.splits list.splits if_splits)

lemma long_option_args: "long_option longopts text args = (opt, args') \<Longrightarrow> length args' \<le> length args"
  by (auto simp: long_option_def Let_def split: option.splits bool.splits prod.splits list.splits if_splits)

text \<open>
  All the calls of \<open>getopt_long\<close> on the arguments of a program: their results, and the arguments from
  \<open>optind\<close> on after the last one.
\<close>

function getopt_long :: "string \<Rightarrow> longopt list \<Rightarrow> string list \<Rightarrow> opt list \<times> string list" where
  "getopt_long shortopts longopts [] = ([], [])"
| "getopt_long shortopts longopts (arg # args) =
     (if arg = ''--'' then ([], args)
      else if take 2 arg = ''--''
      then (case long_option longopts (drop 2 arg) args of
              (o1, args) \<Rightarrow>
                (case getopt_long shortopts longopts args of (os, rest) \<Rightarrow> (o1 # os, rest)))
      else if take 1 arg = ''-'' \<and> arg \<noteq> ''-''
      then (case short_cluster shortopts (drop 1 arg) args of
              (os1, args) \<Rightarrow>
                (case getopt_long shortopts longopts args of (os, rest) \<Rightarrow> (os1 @ os, rest)))
      else ([], arg # args))"
  by pat_completeness auto
termination
  by (relation "measure (\<lambda>(_, _, args). length args)")
    (auto simp: less_Suc_eq_le dest: short_cluster_args long_option_args sym)

text \<open>The loop over the options in a \<open>parse_config\<close>: a handler for each result of \<open>getopt_long\<close>.\<close>

fun option_loop :: "(opt \<Rightarrow> 'c \<Rightarrow> 'c tool) \<Rightarrow> opt list \<Rightarrow> 'c \<Rightarrow> 'c tool" where
  "option_loop h [] cfg = Inr cfg"
| "option_loop h (x # xs) cfg = (case h x cfg of Inl e \<Rightarrow> Inl e | Inr cfg \<Rightarrow> option_loop h xs cfg)"

text \<open>
  The branches every tool has: help and version leave with success, \<open>'?'\<close> with an error.  An option
  without a branch of its own is \<open>abort\<close>.
\<close>

definition common_option :: "string \<Rightarrow> opt \<Rightarrow> 'c \<Rightarrow> 'c tool" where
  "common_option prog opt cfg =
     (case opt of
        Opt ch arg \<Rightarrow> if ch = CHR ''h'' \<or> ch = CHR ''v'' then Inl (Exited True) else Inl Aborted
      | OptFlag n \<Rightarrow> Inr cfg
      | OptBad \<Rightarrow> die (''try '' @ prog @ '' --help''))"

text \<open>The \<open>optarg\<close> of an option that requires one.\<close>

definition optarg :: "opt \<Rightarrow> string" where
  "optarg opt = (case opt of Opt ch (Some a) \<Rightarrow> a | _ \<Rightarrow> [])"

definition is_opt :: "char \<Rightarrow> opt \<Rightarrow> bool" where
  "is_opt ch opt \<longleftrightarrow> (case opt of Opt ch' arg \<Rightarrow> ch' = ch | _ \<Rightarrow> False)"

text \<open>A handler that sets a field from the argument.\<close>

definition set_arg :: "'a tool \<Rightarrow> ('a \<Rightarrow> 'c) \<Rightarrow> 'c tool" where
  "set_arg r f = (case r of Inl e \<Rightarrow> Inl e | Inr x \<Rightarrow> Inr (f x))"

section \<open>Options read back as written\<close>

text \<open>An option in its long form, with the argument after an equals sign.\<close>

definition long_form :: "longopt \<times> string option \<Rightarrow> string" where
  "long_form x = ''--'' @ fst (fst x) @ (case snd x of None \<Rightarrow> [] | Some a \<Rightarrow> CHR ''='' # a)"

definition fits_table :: "longopt list \<Rightarrow> longopt \<times> string option \<Rightarrow> bool" where
  "fits_table longopts x \<longleftrightarrow> fst x \<in> set longopts \<and> fst (fst x) \<noteq> [] \<and> CHR ''='' \<notin> set (fst (fst x))
     \<and> fst (snd (fst x)) = (snd x \<noteq> None)"

definition opt_result :: "longopt \<times> string option \<Rightarrow> opt" where
  "opt_result x = opt_of_code (snd (snd (fst x))) (snd x)"

lemma cut_at_first:
  "x \<notin> set xs \<Longrightarrow> takeWhile (\<lambda>y. y \<noteq> x) (xs @ x # ys) = xs"
  "x \<notin> set xs \<Longrightarrow> dropWhile (\<lambda>y. y \<noteq> x) (xs @ x # ys) = x # ys"
  by (induction xs) auto

lemma long_option_form:
  assumes fit: "fits_table longopts x" and dist: "distinct (map fst longopts)"
  shows "long_option longopts (drop 2 (long_form x)) args = (opt_result x, args)"
proof -
  obtain name needs code arg where x: "x = ((name, needs, code), arg)" by (cases x) auto
  have m: "map_of longopts name = Some (needs, code)"
  proof -
    have "(name, needs, code) \<in> set longopts" using fit unfolding fits_table_def x fst_conv by blast
    with dist show ?thesis by simp
  qed
  have nm: "CHR ''='' \<notin> set name" using fit by (simp add: x fits_table_def)
  then have tw: "takeWhile (\<lambda>ch. ch \<noteq> CHR ''='') name = name" "dropWhile (\<lambda>ch. ch \<noteq> CHR ''='') name = []"
    "takeWhile (\<lambda>ch. ch \<noteq> CHR ''='') (name @ CHR ''='' # a) = name"
    "dropWhile (\<lambda>ch. ch \<noteq> CHR ''='') (name @ CHR ''='' # a) = CHR ''='' # a" for a
    by (auto simp: takeWhile_eq_all_conv dropWhile_eq_Nil_conv cut_at_first)
  have needs: "needs = (arg \<noteq> None)" using fit by (simp add: x fits_table_def)
  show ?thesis
    by (cases arg) (simp_all add: x long_form_def long_option_def long_match_def m needs opt_result_def Let_def tw)
qed

lemma getopt_long_forms:
  assumes "list_all (fits_table longopts) xs" "distinct (map fst longopts)"
  shows "getopt_long shortopts longopts (map long_form xs @ args)
    = (case getopt_long shortopts longopts args of (os, rest) \<Rightarrow> (map opt_result xs @ os, rest))"
  using assms(1)
proof (induction xs)
  case Nil
  then show ?case by (simp split: prod.splits)
next
  case (Cons x xs)
  have "long_form x \<noteq> ''--''" "take 2 (long_form x) = ''--''"
    using Cons.prems by (auto simp: long_form_def fits_table_def)
  moreover have "long_option longopts (drop 2 (long_form x)) (map long_form xs @ args)
      = (opt_result x, map long_form xs @ args)"
    using Cons.prems assms(2) by (intro long_option_form) simp_all
  ultimately show ?case using Cons by (simp split: prod.splits)
qed

text \<open>
  Option parsing.  Options of a table written in their long form, in any number and order, are
  returned by \<open>getopt_long\<close> one by one with their arguments, and the arguments that follow are left: up
  to the first that is no option, or whatever they are after \<open>--\<close>.
\<close>

theorem getopt_long_round_trip:
  assumes "list_all (fits_table longopts) xs" "distinct (map fst longopts)"
    and "rest = [] \<or> take 1 (hd rest) \<noteq> ''-'' \<or> hd rest = ''-''"
  shows "getopt_long shortopts longopts (map long_form xs @ rest) = (map opt_result xs, rest)
    \<and> getopt_long shortopts longopts (map long_form xs @ ''--'' # operands) = (map opt_result xs, operands)"
proof -
  have "getopt_long shortopts longopts rest = ([], rest)"
  proof (cases rest)
    case (Cons arg args)
    have "take 2 arg \<noteq> ''--''" if "take 1 arg \<noteq> ''-'' \<or> arg = ''-''"
      using that by (cases arg) (auto split: if_splits)
    with assms(3) show ?thesis by (auto simp: Cons)
  qed simp
  then show ?thesis using getopt_long_forms [OF assms(1,2)] by simp
qed

definition sample_longopts :: "longopt list" where
  "sample_longopts = [(''bias'', True, Code CHR ''b''), (''by-name'', False, Code CHR ''B''), (''utc'', False, SetFlag 1)]"

theorem getopt_long_round_trip_witness:
  "getopt_long ''+b:'' sample_longopts [''--bias=pull-up'', ''--utc'', ''LED0'', ''--by-name'']
     = ([Opt CHR ''b'' (Some ''pull-up''), OptFlag 1], [''LED0'', ''--by-name''])"
  using getopt_long_round_trip [where longopts = sample_longopts and shortopts = "''+b:''"
      and xs = "[((''bias'', True, Code CHR ''b''), Some ''pull-up''), ((''utc'', False, SetFlag 1), None)]"
      and rest = "[''LED0'', ''--by-name'']"]
  by (simp add: sample_longopts_def fits_table_def long_form_def opt_result_def opt_of_code_def)

section \<open>Partial correctness\<close>

text \<open>
  \<open>triple P m Q\<close>: whenever \<open>m\<close>, started in a state with \<open>P\<close>, returns \<open>x\<close> (and does not leave the program),
  \<open>Q x\<close> holds of the state.
\<close>

named_theorems triple_rules

definition triple :: "('k tstate \<Rightarrow> bool) \<Rightarrow> ('k, 'a) prog \<Rightarrow> ('a \<Rightarrow> 'k tstate \<Rightarrow> bool) \<Rightarrow> bool" where
  "triple P m Q \<longleftrightarrow> (\<forall>s x s'. P s \<longrightarrow> m s = (Inr x, s') \<longrightarrow> Q x s')"

lemma tripleD: "triple P m Q \<Longrightarrow> P s \<Longrightarrow> m s = (Inr x, s') \<Longrightarrow> Q x s'"
  unfolding triple_def by blast

lemma triple_exec [triple_rules]:
  assumes "triple P m R" "\<And>x. triple (R x) (f x) Q"
  shows "triple P (exec m f) Q"
  unfolding triple_def
proof (intro allI impI)
  fix s y s'
  assume "P s" "exec m f s = (Inr y, s')"
  from this(2) show "Q y s'"
  proof (rule exec_InrD)
    fix x s1
    assume "m s = (Inr x, s1)" "f x s1 = (Inr y, s')"
    with \<open>P s\<close> assms show ?thesis unfolding triple_def by blast
  qed
qed

lemma triple_if [triple_rules]:
  "(b \<Longrightarrow> triple P m Q) \<Longrightarrow> (\<not> b \<Longrightarrow> triple P n Q) \<Longrightarrow> triple P (if b then m else n) Q"
  by simp

lemma triple_case_prod [triple_rules]:
  "(\<And>a b. x = (a, b) \<Longrightarrow> triple P (f a b) Q) \<Longrightarrow> triple P (case x of (a, b) \<Rightarrow> f a b) Q"
  by (cases x) simp

lemma triple_quit [triple_rules]: "triple P (quit msg) Q" "triple P (quit_perror msg) Q"
  by (simp_all add: triple_def quit_def quit_perror_def die_def die_perror_def)

text \<open>Loops whose body always returns do.\<close>

lemma foldp_Inr:
  assumes "\<And>x a s. \<exists>b s'. f x a s = (Inr b, s')"
  shows "\<exists>b s'. foldp f xs a s = (Inr b, s')"
proof (induction xs arbitrary: a s)
  case Nil
  then show ?case by (simp add: give_def)
next
  case (Cons x xs)
  obtain b s1 where "f x a s = (Inr b, s1)" using assms by blast
  moreover obtain b' s' where "foldp f xs b s1 = (Inr b', s')" using Cons.IH by blast
  ultimately show ?case by (simp add: exec_def)
qed

section \<open>A sample system\<close>

text \<open>A system for the tools with the one chip of \<open>chip_kernel\<close>, no input and no events.\<close>

definition sample_run :: "nat list run_env" where
  "sample_run = \<lparr>re_tool = sample_env, re_usleep = (\<lambda>_ k. k), re_poll = (\<lambda>_ _ k. (Inr [], k)),
     re_realtime = (\<lambda>k. ((0, 0), k)), re_monotonic = (\<lambda>k. ((0, 0), k)), re_utc = (\<lambda>_. []), re_local = (\<lambda>_. []),
     re_daemon = (\<lambda>_ k. (Inr (), k)), re_isatty = True, re_readline = (\<lambda>_ k. (None, k)),
     re_history = (\<lambda>_. []), re_add_history = (\<lambda>_ k. k)\<rparr>"

definition sample_tstate :: "nat list tstate" where
  "sample_tstate = \<lparr>ts_crt = crt_init, ts_k = [0, 1, 2], ts_out = [], ts_err = []\<rparr>"

end
