(* ===== verification/Gpioget.thy ===== *)
theory Gpioget
  imports Tool_Program
begin

text \<open>
  \<open>tools/gpioget.c\<close>: reading the values of lines.
\<close>

section \<open>Configuration\<close>

text \<open>A zero in \<open>bias\<close>, which no option gives, is \<open>None\<close>.\<close>

record gpioget_config =
  gg_active_low :: bool
  gg_by_name :: bool
  gg_numeric :: bool
  gg_strict :: bool
  gg_unquoted :: bool
  gg_bias :: "gpiod_line_bias option"
  gg_direction :: gpiod_line_direction
  gg_hold_period_us :: u32
  gg_chip_id :: "string option"
  gg_consumer :: string

definition gpioget_longopts :: "longopt list" where
  "gpioget_longopts = [(''active-low'', False, Code CHR ''l''), (''as-is'', False, Code CHR ''a''),
     (''bias'', True, Code CHR ''b''), (''by-name'', False, Code CHR ''B''), (''chip'', True, Code CHR ''c''),
     (''consumer'', True, Code CHR ''C''), (''help'', False, Code CHR ''h''),
     (''hold-period'', True, Code CHR ''p''), (''numeric'', False, Code CHR ''N''),
     (''strict'', False, Code CHR ''s''), (''unquoted'', False, Code CHR ''Q''),
     (''version'', False, Code CHR ''v'')]"

definition gpioget_default :: gpioget_config where
  "gpioget_default = \<lparr>gg_active_low = False, gg_by_name = False, gg_numeric = False, gg_strict = False,
     gg_unquoted = False, gg_bias = None, gg_direction = GPIOD_LINE_DIRECTION_INPUT,
     gg_hold_period_us = 0, gg_chip_id = None, gg_consumer = ''gpioget''\<rparr>"

text \<open>The switch over \<open>optc\<close>.\<close>

definition gpioget_option :: "string \<Rightarrow> opt \<Rightarrow> gpioget_config \<Rightarrow> gpioget_config tool" where
  "gpioget_option prog opt cfg =
     (if is_opt CHR ''a'' opt then Inr (cfg\<lparr>gg_direction := GPIOD_LINE_DIRECTION_AS_IS\<rparr>)
      else if is_opt CHR ''b'' opt
      then set_arg (parse_bias_or_die (optarg opt)) (\<lambda>b. cfg\<lparr>gg_bias := Some b\<rparr>)
      else if is_opt CHR ''B'' opt then Inr (cfg\<lparr>gg_by_name := True\<rparr>)
      else if is_opt CHR ''c'' opt then Inr (cfg\<lparr>gg_chip_id := Some (optarg opt)\<rparr>)
      else if is_opt CHR ''C'' opt then Inr (cfg\<lparr>gg_consumer := optarg opt\<rparr>)
      else if is_opt CHR ''l'' opt then Inr (cfg\<lparr>gg_active_low := True\<rparr>)
      else if is_opt CHR ''N'' opt then Inr (cfg\<lparr>gg_numeric := True\<rparr>)
      else if is_opt CHR ''p'' opt
      then set_arg (parse_period_or_die (optarg opt)) (\<lambda>p. cfg\<lparr>gg_hold_period_us := p\<rparr>)
      else if is_opt CHR ''Q'' opt then Inr (cfg\<lparr>gg_unquoted := True\<rparr>)
      else if is_opt CHR ''s'' opt then Inr (cfg\<lparr>gg_strict := True\<rparr>)
      else common_option prog opt cfg)"

text \<open>The configuration and the arguments from \<open>optind\<close> on.\<close>

definition gpioget_parse_config :: "string \<Rightarrow> string list \<Rightarrow> (gpioget_config \<times> string list) tool" where
  "gpioget_parse_config prog args =
     (case getopt_long ''+ab:c:C:hlp:sv'' gpioget_longopts args of
        (opts, rest) \<Rightarrow>
          set_arg (option_loop (gpioget_option prog) opts gpioget_default) (\<lambda>cfg. (cfg, rest)))"

section \<open>The program\<close>

definition gpioget_settings :: "gpioget_config \<Rightarrow> gpiod_line_settings \<Rightarrow> crt \<Rightarrow> gpiod_line_settings \<times> crt" where
  "gpioget_settings cfg settings c =
     (case gpiod_line_settings_set_direction settings (gg_direction cfg) c of
        (_, settings, c) \<Rightarrow>
          (case (case gg_bias cfg of
                   None \<Rightarrow> (settings, c)
                 | Some b \<Rightarrow> snd (gpiod_line_settings_set_bias settings b c)) of
             (settings, c) \<Rightarrow>
               (if gg_active_low cfg then gpiod_line_settings_set_active_low settings True else settings, c)))"

text \<open>
  The loop over the chips: the configuration object, the resolver and the two scratch arrays are
  handed on.
\<close>

definition gpioget_chip :: "'k run_env \<Rightarrow> gpioget_config \<Rightarrow> gpiod_line_settings \<Rightarrow> gpiod_request_config \<Rightarrow> nat
    \<Rightarrow> gpiod_line_config \<times> line_resolver \<times> u32 list \<times> gpiod_line_value list
    \<Rightarrow> ('k, gpiod_line_config \<times> line_resolver \<times> u32 list \<times> gpiod_line_value list) prog" where
  "gpioget_chip E cfg settings req_cfg i st =
     (case st of (line_cfg, resolver, offsets, vals) \<Rightarrow>
      let path = snd (the (rch_path (rv_chips resolver ! i))) in
      exec (or_perror (''unable to open chip '' @ [CHR 0x27] @ path @ [CHR 0x27])
        (sys_call (gpiod_chip_open (re_kernel E) (Some path)))) (\<lambda>chip.
      case get_line_offsets_and_values resolver (int i) offsets None of (num_lines, offsets, _) \<Rightarrow>
      exec (crt_call (gpiod_line_config_reset line_cfg)) (\<lambda>line_cfg.
      exec (crt_call (\<lambda>c. case gpiod_line_config_add_line_settings line_cfg (Some (take num_lines offsets))
        (Some settings) c of (ret, line_cfg, c) \<Rightarrow> ((ret, line_cfg), c))) (\<lambda>(ret, line_cfg).
      if ret \<noteq> 0 then quit_perror ''unable to add line settings'' else
      exec (or_perror ''unable to request lines''
        (sys_call (gpiod_chip_request_lines (re_kernel E) (snd chip) (Some req_cfg) (Some line_cfg)))) (\<lambda>request.
      exec (only_if (gg_hold_period_us cfg \<noteq> 0) (kernel_do (re_usleep E (gg_hold_period_us cfg)))) (\<lambda>_.
      exec (sys_call (\<lambda>c k. case gpiod_line_request_get_values (re_kernel E) (snd request) (Some vals) c k of
        (ret, vals, c, k) \<Rightarrow> ((ret, the vals), c, k))) (\<lambda>(ret, vals).
      if ret \<noteq> 0 then quit_perror ''unable to read GPIO line values'' else
      exec (sys_do (gpiod_line_request_release (re_kernel E) (Some request))) (\<lambda>_.
      exec (sys_do (gpiod_chip_close (re_kernel E) (Some chip))) (\<lambda>_.
      give (line_cfg, set_line_values resolver (int i) vals, offsets, vals))))))))))"

text \<open>The text for one line: number or quoted assignment.\<close>

definition line_value_text :: "int \<Rightarrow> string" where
  "line_value_text v = (if v \<noteq> 0 then ''active'' else ''inactive'')"

definition gpioget_value_text :: "gpioget_config \<Rightarrow> resolved_line \<Rightarrow> string" where
  "gpioget_value_text cfg line =
     (if gg_numeric cfg then decimal_int (rl_value line)
      else (if gg_unquoted cfg then rl_id line else [CHR 0x22] @ rl_id line @ [CHR 0x22])
           @ ''='' @ line_value_text (rl_value line))"

text \<open>The loop over the lines: a blank after each one but the last, then a newline.\<close>

fun gpioget_output :: "gpioget_config \<Rightarrow> resolved_line list \<Rightarrow> string" where
  "gpioget_output cfg [] = [CHR 10]"
| "gpioget_output cfg [line] = gpioget_value_text cfg line @ [CHR 10]"
| "gpioget_output cfg (line # lines) = gpioget_value_text cfg line @ '' '' @ gpioget_output cfg lines"

text \<open>\<open>main\<close> up to the end of the loop over the chips: the configuration, and the objects that are alive then.\<close>

definition gpioget_read :: "'k run_env \<Rightarrow> string \<Rightarrow> string list \<Rightarrow> ('k, gpioget_config \<times> line_resolver obj
    \<times> gpiod_request_config obj \<times> gpiod_line_config obj \<times> gpiod_line_settings obj \<times> nat \<times> nat) prog" where
  "gpioget_read E prog args =
     exec (of_tool (gpioget_parse_config prog args)) (\<lambda>(cfg, lines).
     if length lines < 1 then quit ''at least one GPIO line must be specified'' else
     exec (tool_call (resolve_lines (re_tool E) lines (gg_chip_id cfg) (gg_strict cfg) (gg_by_name cfg))) (\<lambda>resolver.
     exec (of_tool (validate_resolution (snd resolver) (gg_chip_id cfg))) (\<lambda>_.
     exec (crt_call malloc) (\<lambda>offsets. exec (crt_call malloc) (\<lambda>vals.
     if offsets = None \<or> vals = None then quit ''out of memory'' else
     exec (or_perror ''unable to allocate line settings'' (crt_call gpiod_line_settings_new)) (\<lambda>settings.
     exec (crt_call (gpioget_settings cfg (snd settings))) (\<lambda>new_settings.
     exec (or_perror ''unable to allocate the request config structure'' (crt_call gpiod_request_config_new)) (\<lambda>req_cfg.
     exec (or_perror ''unable to allocate the line config structure'' (crt_call gpiod_line_config_new)) (\<lambda>line_cfg.
     let consumer_cfg = gpiod_request_config_set_consumer (snd req_cfg) (Some (gg_consumer cfg)) in
     exec (foldp (gpioget_chip E cfg new_settings consumer_cfg) [0..<rv_num_chips (snd resolver)]
       (snd line_cfg, snd resolver, replicate (length lines) 0, replicate (length lines) GPIOD_LINE_VALUE_INACTIVE))
       (\<lambda>(line_cfg', rv, offsets', vals').
     give (cfg, (fst resolver, rv), (fst req_cfg, consumer_cfg), (fst line_cfg, line_cfg'),
       (fst settings, new_settings), the offsets, the vals)))))))))))"

definition gpioget_main :: "'k run_env \<Rightarrow> string \<Rightarrow> string list \<Rightarrow> ('k, unit) prog" where
  "gpioget_main E prog args =
     exec (gpioget_read E prog args) (\<lambda>(cfg, resolver, req_cfg, line_cfg, settings, offsets, vals).
     exec (out (gpioget_output cfg (rv_lines (snd resolver)))) (\<lambda>_.
     exec (crt_do (free_line_resolver (Some resolver))) (\<lambda>_.
     exec (crt_do (gpiod_request_config_free req_cfg)) (\<lambda>_.
     exec (crt_do (gpiod_line_config_free (Some line_cfg))) (\<lambda>_.
     exec (crt_do (gpiod_line_settings_free settings)) (\<lambda>_.
     exec (crt_do (free offsets)) (\<lambda>_.
     exec (crt_do (free vals)) (\<lambda>_.
     give ()))))))))"

section \<open>What is read\<close>

text \<open>The settings and the consumer name the options ask for.\<close>

definition asked_settings :: "gpioget_config \<Rightarrow> gpiod_line_settings" where
  "asked_settings cfg = default_settings\<lparr>ls_direction := gg_direction cfg,
     ls_bias := (case gg_bias cfg of None \<Rightarrow> GPIOD_LINE_BIAS_AS_IS | Some b \<Rightarrow> b), ls_active_low := gg_active_low cfg\<rparr>"

definition asked_request :: "gpioget_config \<Rightarrow> gpiod_request_config" where
  "asked_request cfg = gpiod_request_config_set_consumer
     \<lparr>rc_consumer = replicate GPIO_MAX_NAME_SIZE NUL, rc_event_buffer_size = 0\<rparr> (Some (gg_consumer cfg))"

text \<open>
  Reading some lines of the chip at a path, from system state \<open>k\<close> to \<open>k'\<close>: the chip is opened, exactly these
  lines are requested, each with the settings asked for, the hold period passes, the system is asked for
  the values of all lines of the request, and request and chip are closed.  The value of the \<open>j\<close>-th line
  is bit \<open>j\<close> of the answer.
\<close>

definition chip_read :: "'k run_env \<Rightarrow> gpioget_config \<Rightarrow> string \<Rightarrow> u32 list \<Rightarrow> 'k \<Rightarrow> gpiod_line_value list \<Rightarrow> 'k \<Rightarrow> bool" where
  "chip_read E cfg path offs k vs k' \<longleftrightarrow> (\<exists>c chip c1 k1 lc c2 request c3 k2 k3 ans.
     gpiod_chip_open (re_kernel E) (Some path) c k = (Some chip, c1, k1)
     \<and> config_abs lc = map (\<lambda>off. (off, asked_settings cfg)) offs
     \<and> gpiod_chip_request_lines (re_kernel E) (snd chip) (Some (asked_request cfg)) (Some lc) c2 k1 = (Some request, c3, k2)
     \<and> take (req_num_lines (snd request)) (req_offsets (snd request)) = offs
     \<and> k_get_values (re_kernel E) (req_fd (snd request)) \<lparr>lv_bits = 0, lv_mask = mask (length offs)\<rparr>
         (if gg_hold_period_us cfg \<noteq> 0 then re_usleep E (gg_hold_period_us cfg) k2 else k2) = (Inr (0, ans), k3)
     \<and> vs = map (\<lambda>j. value_of_bool (bit (lv_bits ans) j)) [0..<length offs]
     \<and> k' = k_close (re_kernel E) (chip_fd (snd chip)) (k_close (re_kernel E) (req_fd (snd request)) k3))"

lemma or_perror_sys_InrD:
  "or_perror msg (sys_call f) s = (Inr x, s') \<Longrightarrow>
     \<exists>c k. f (ts_crt s) (ts_k s) = (Some x, c, k) \<and> s' = s\<lparr>ts_crt := c, ts_k := k\<rparr>"
  by (auto simp: or_perror_def exec_def sys_call_def quit_perror_def die_perror_def give_def
      split: prod.splits option.splits sum.splits)

lemma distinct_chip_offsets:
  assumes "distinct (map line_place (rv_lines rv))"
  shows "distinct (map rl_offset (chip_lines n rv))"
proof -
  have "distinct (map line_place (chip_lines n rv))" unfolding chip_lines_def by (rule distinct_map_filter [OF assms])
  moreover have "map line_place (chip_lines n rv) = map (Pair n) (map rl_offset (chip_lines n rv))"
    by (auto simp: chip_lines_def line_place_def)
  ultimately show ?thesis by (metis distinct_map)
qed

lemma gpioget_chip_steps:
  assumes "length (chip_lines (int j) rv) \<le> length offs"
    and "gpioget_chip E cfg settings rc j (lc0, rv, offs, vals) s = (Inr (lc', rv', offs', vals'), s')"
  obtains chip c1 k1 lc c2 request c3 k2 c4 k4 c5 c6 where
    "gpiod_chip_open (re_kernel E) (Some (chip_path_of rv j)) (ts_crt s) (ts_k s) = (Some chip, c1, k1)"
    "gpiod_line_config_add_line_settings zero_config (Some (map rl_offset (chip_lines (int j) rv))) (Some settings) c5 = (0, lc, c2)"
    "gpiod_chip_request_lines (re_kernel E) (snd chip) (Some rc) (Some lc) c2 k1 = (Some request, c3, k2)"
    "gpiod_line_request_get_values (re_kernel E) (snd request) (Some vals) c3
       (if gg_hold_period_us cfg \<noteq> 0 then re_usleep E (gg_hold_period_us cfg) k2 else k2) = (0, c6, c4, k4)"
    "vals' = the c6" "rv' = set_line_values rv (int j) vals'"
    "offs' = map rl_offset (chip_lines (int j) rv) @ drop (length (chip_lines (int j) rv)) offs"
    "ts_k s' = k_close (re_kernel E) (chip_fd (snd chip)) (k_close (re_kernel E) (req_fd (snd request)) k4)"
    "ts_out s' = ts_out s"
proof -
  have path: "snd (the (rch_path (rv_chips rv ! j))) = chip_path_of rv j" by (simp add: chip_path_of_def)
  from assms(2) show ?thesis
    unfolding gpioget_chip_def Let_def prod.case chip_offsets [OF assms(1)] path
    apply (auto elim!: exec_InrD dest!: or_perror_sys_InrD split: if_splits prod.splits
        simp: crt_call_def sys_call_def sys_do_def kernel_do_def only_if_def give_def quit_perror_def die_perror_def
          gpiod_line_config_reset_def gpiod_line_request_release_def gpiod_chip_close_def)
    subgoal for a b c k x2 ac bc ca ka x1b x2c x1
      by (rule that [where chip = "(a, b)" and request = "(ac, bc)" and ?c6.0 = x1]) simp_all
    subgoal for a b c k x2 ac bc ca ka x1b x2c x1
      by (rule that [where chip = "(a, b)" and request = "(ac, bc)" and ?c6.0 = x1]) simp_all
    done
qed

lemma gpioget_chip_reads:
  assumes kc: "get_line_contract (re_kernel E)" and places: "distinct (map line_place (rv_lines rv))"
    and few: "length (rv_lines rv) < 2 ^ 62" "length (rv_lines rv) \<le> length offs" "length (rv_lines rv) \<le> length vals"
    and run: "gpioget_chip E cfg (asked_settings cfg) (asked_request cfg) j (lc0, rv, offs, vals) s
      = (Inr (lc', rv', offs', vals'), s')"
  shows "\<exists>vs. chip_read E cfg (chip_path_of rv j) (map rl_offset (chip_lines (int j) rv)) (ts_k s) vs (ts_k s')
    \<and> length vs = length (chip_lines (int j) rv)
    \<and> rv' = rv\<lparr>rv_lines := map (put_reading (zip (map line_place (chip_lines (int j) rv)) vs)) (rv_lines rv)\<rparr>
    \<and> length offs' = length offs \<and> length vals' = length vals \<and> ts_out s' = ts_out s"
proof -
  let ?offs = "map rl_offset (chip_lines (int j) rv)"
  have n: "length (chip_lines (int j) rv) \<le> length (rv_lines rv)" by (simp add: chip_lines_def)
  with few(2) have room: "length (chip_lines (int j) rv) \<le> length offs" by simp
  from room run show ?thesis
  proof (cases rule: gpioget_chip_steps)
    case (1 chip c1 k1 lc c2 request c3 k2 c4 k4 c5 c6)
    have "length ?offs < 2 ^ 62" using n few(1) by simp
    note lc = reset_then_add [OF 1(2) distinct_chip_offsets [OF places] this]
    then have offs: "config_offsets lc = ?offs" using config_abs_offsets [of lc] by (simp add: comp_def)
    note req = request_lines_offsets [OF kc conjunct1 [OF lc] 1(3), unfolded offs]
    then have num: "req_num_lines (snd request) = length ?offs"
      by (metis length_take min.absorb2 request_ok_def)
    from get_values_answer [OF conjunct2 [OF req] num 1(4)] obtain ans where
      ans: "k_get_values (re_kernel E) (req_fd (snd request)) \<lparr>lv_bits = 0, lv_mask = mask (length ?offs)\<rparr>
        (if gg_hold_period_us cfg \<noteq> 0 then re_usleep E (gg_hold_period_us cfg) k2 else k2) = (Inr (0, ans), k4)"
      and c6: "c6 = Some (map (\<lambda>j. value_of_bool (bit (lv_bits ans) j)) [0..<length ?offs] @ drop (length ?offs) vals)" by blast
    let ?vs = "map (\<lambda>j. value_of_bool (bit (lv_bits ans) j)) [0..<length ?offs]"
    have "chip_read E cfg (chip_path_of rv j) ?offs (ts_k s) ?vs (ts_k s')"
      unfolding chip_read_def using 1(1,3,8) lc req ans by blast
    moreover have "set_line_values rv (int j) (?vs @ drop (length ?offs) vals) = rv\<lparr>rv_lines :=
        map (put_reading (zip (map line_place (chip_lines (int j) rv)) ?vs)) (rv_lines rv)\<rparr>"
      unfolding set_line_values_def chip_lines_def
      by (subst set_values_loop_readings [OF places]) (simp_all add: chip_lines_def)
    ultimately show ?thesis using 1(5,6,7,9) n few room by (intro exI [of _ ?vs]) (simp add: c6)
  qed
qed

text \<open>
  The readings of the chips \<open>js\<close> of a resolution, taken one after the other from system state \<open>k\<close> to \<open>k'\<close>:
  a value for each chip number and offset.
\<close>

inductive readings :: "'k run_env \<Rightarrow> gpioget_config \<Rightarrow> line_resolver \<Rightarrow> nat list \<Rightarrow> 'k
    \<Rightarrow> ((int \<times> u32) \<times> gpiod_line_value) list \<Rightarrow> 'k \<Rightarrow> bool" for E cfg rv where
  readings_none: "readings E cfg rv [] k [] k"
| readings_chip: "chip_read E cfg (chip_path_of rv j) (map rl_offset (chip_lines (int j) rv)) k vs k1
    \<Longrightarrow> length vs = length (chip_lines (int j) rv) \<Longrightarrow> readings E cfg rv js k1 rs k'
    \<Longrightarrow> readings E cfg rv (j # js) k (zip (map line_place (chip_lines (int j) rv)) vs @ rs) k'"

lemma readings_keys:
  "readings E cfg rv js k rs k' \<Longrightarrow> fst ` set rs = {p \<in> line_place ` set (rv_lines rv). fst p \<in> int ` set js}"
proof (induction rule: readings.induct)
  case (readings_chip j k vs k1 js rs k')
  have "fst ` set (zip (map line_place (chip_lines (int j) rv)) vs) = set (map line_place (chip_lines (int j) rv))"
    using readings_chip(2) by (metis length_map map_fst_zip set_map)
  also have "\<dots> = {p \<in> line_place ` set (rv_lines rv). fst p = int j}"
    by (force simp: chip_lines_def line_place_def)
  finally show ?case using readings_chip(4) by auto
qed simp

text \<open>Putting in the values of one chip changes neither the chips nor the places of the lines.\<close>

lemma put_reading_frame:
  assumes "rv' = rv\<lparr>rv_lines := map (put_reading rs) (rv_lines rv)\<rparr>"
  shows "chip_path_of rv' = chip_path_of rv" "map line_place (chip_lines n rv') = map line_place (chip_lines n rv)"
    "map rl_offset (chip_lines n rv') = map rl_offset (chip_lines n rv)"
    "length (chip_lines n rv') = length (chip_lines n rv)"
proof -
  have place: "rl_chip_num (put_reading rs l) = rl_chip_num l" "rl_offset (put_reading rs l) = rl_offset l" for l
    using put_reading_place [of rs l] by (simp_all add: line_place_def)
  show "chip_path_of rv' = chip_path_of rv" by (simp add: assms chip_path_of_def fun_eq_iff)
  have sel: "chip_lines n rv' = map (put_reading rs) (chip_lines n rv)"
    by (simp add: assms chip_lines_def filter_map comp_def place)
  show "map line_place (chip_lines n rv') = map line_place (chip_lines n rv)"
    "map rl_offset (chip_lines n rv') = map rl_offset (chip_lines n rv)"
    "length (chip_lines n rv') = length (chip_lines n rv)" by (simp_all add: sel comp_def place)
qed

lemma readings_frame:
  assumes "rv' = rv\<lparr>rv_lines := map (put_reading rs) (rv_lines rv)\<rparr>"
  shows "readings E cfg rv' js k rs' k' \<Longrightarrow> readings E cfg rv js k rs' k'"
proof (induction rule: readings.induct)
  case (readings_chip j k vs k1 js rs k')
  then show ?case unfolding put_reading_frame [OF assms] by (intro readings.readings_chip)
qed (rule readings_none)

lemma put_reading_append:
  assumes "fst ` set rs \<inter> fst ` set rs' = {}"
  shows "put_reading rs' (put_reading rs line) = put_reading (rs @ rs') line"
proof -
  have "map_of rs' p = None" if "map_of rs p = Some v" for p v
  proof -
    from that have "p \<in> fst ` set rs" using map_of_SomeD by force
    with assms show ?thesis by (auto simp: map_of_eq_None_iff)
  qed
  then show ?thesis
    by (cases "map_of rs (line_place line)") (simp_all add: put_reading_def line_place_def map_add_def)
qed

lemma gpioget_loop_reads:
  assumes kc: "get_line_contract (re_kernel E)"
  shows "distinct js \<Longrightarrow> distinct (map line_place (rv_lines rv)) \<Longrightarrow> length (rv_lines rv) < 2 ^ 62
    \<Longrightarrow> length (rv_lines rv) \<le> length offs \<Longrightarrow> length (rv_lines rv) \<le> length vals
    \<Longrightarrow> foldp (gpioget_chip E cfg (asked_settings cfg) (asked_request cfg)) js (lc0, rv, offs, vals) s
      = (Inr (lc', rv', offs', vals'), s')
    \<Longrightarrow> \<exists>rs. readings E cfg rv js (ts_k s) rs (ts_k s') \<and> rv_lines rv' = map (put_reading rs) (rv_lines rv)
      \<and> ts_out s' = ts_out s"
proof (induction js arbitrary: lc0 rv offs vals s)
  case Nil
  have "map (put_reading []) (rv_lines rv) = rv_lines rv" by (rule map_idI) (simp add: put_reading_def)
  with Nil(6) show ?case by (auto simp: give_def intro: readings_none)
next
  case (Cons j js)
  from Cons.prems(6) obtain lc1 rv1 offs1 vals1 s1 where
    one: "gpioget_chip E cfg (asked_settings cfg) (asked_request cfg) j (lc0, rv, offs, vals) s = (Inr (lc1, rv1, offs1, vals1), s1)"
    and rest: "foldp (gpioget_chip E cfg (asked_settings cfg) (asked_request cfg)) js (lc1, rv1, offs1, vals1) s1
      = (Inr (lc', rv', offs', vals'), s')"
    by (auto elim!: exec_InrD)
  from gpioget_chip_reads [OF kc Cons.prems(2,3,4,5) one] obtain vs where
    vs: "chip_read E cfg (chip_path_of rv j) (map rl_offset (chip_lines (int j) rv)) (ts_k s) vs (ts_k s1)"
      "length vs = length (chip_lines (int j) rv)"
    and rv1: "rv1 = rv\<lparr>rv_lines := map (put_reading (zip (map line_place (chip_lines (int j) rv)) vs)) (rv_lines rv)\<rparr>"
    and keep: "length offs1 = length offs" "length vals1 = length vals" "ts_out s1 = ts_out s" by blast
  let ?z = "zip (map line_place (chip_lines (int j) rv)) vs"
  have lines: "length (rv_lines rv1) = length (rv_lines rv)" "map line_place (rv_lines rv1) = map line_place (rv_lines rv)"
    by (simp_all add: rv1)
  from Cons.IH [OF _ _ _ _ _ rest] Cons.prems lines keep obtain rs where
    rs: "readings E cfg rv1 js (ts_k s1) rs (ts_k s')" "rv_lines rv' = map (put_reading rs) (rv_lines rv1)"
    "ts_out s' = ts_out s" by (metis distinct.simps(2))
  note rs1 = readings_frame [OF rv1 rs(1)]
  have "fst ` set ?z \<inter> fst ` set rs = {}"
    using Cons.prems(1) readings_keys [OF rs1] by (auto simp: chip_lines_def line_place_def dest!: set_zip_leftD)
  then have "rv_lines rv' = map (put_reading (?z @ rs)) (rv_lines rv)"
    by (simp add: rs(2) rv1 put_reading_append)
  with readings_chip [OF vs rs1] rs(3) show ?case by blast
qed

text \<open>The settings made by the tool are the ones asked for: its options give only valid directions and biases.\<close>

definition config_valid :: "gpioget_config \<Rightarrow> bool" where
  "config_valid cfg \<longleftrightarrow> gg_direction cfg \<in> {GPIOD_LINE_DIRECTION_INPUT, GPIOD_LINE_DIRECTION_AS_IS}
     \<and> gg_bias cfg \<in> {None, Some GPIOD_LINE_BIAS_PULL_DOWN, Some GPIOD_LINE_BIAS_PULL_UP, Some GPIOD_LINE_BIAS_DISABLED}"

lemma gpioget_option_valid:
  "gpioget_option prog opt cfg = Inr cfg' \<Longrightarrow> config_valid cfg \<Longrightarrow> config_valid cfg'"
  by (auto simp: gpioget_option_def config_valid_def set_arg_def parse_bias_or_die_def common_option_def die_def
      split: if_splits sum.splits opt.splits)

lemma gpioget_parse_valid:
  assumes "gpioget_parse_config prog args = Inr (cfg, ids)"
  shows "config_valid cfg"
proof -
  have "option_loop (gpioget_option prog) opts cfg0 = Inr cfg1 \<Longrightarrow> config_valid cfg0 \<Longrightarrow> config_valid cfg1" for opts cfg0 cfg1
    by (induction opts arbitrary: cfg0) (auto split: sum.splits dest: gpioget_option_valid)
  moreover have "config_valid gpioget_default" by (simp add: config_valid_def gpioget_default_def)
  ultimately show ?thesis using assms
    by (auto simp: gpioget_parse_config_def set_arg_def split: prod.splits sum.splits)
qed

lemma gpioget_settings_asked:
  "config_valid cfg \<Longrightarrow> gpioget_settings cfg default_settings c = (asked_settings cfg, c)"
  by (auto simp: config_valid_def gpioget_settings_def asked_settings_def gpiod_line_settings_set_direction_def
      gpiod_line_settings_set_bias_def gpiod_line_settings_set_active_low_def default_settings_def)

text \<open>A run of the program up to the end of its loop.\<close>

lemma new_object_InrD:
  assumes "or_perror msg (crt_call f) s = (Inr p, s')"
  shows "\<exists>c. s' = s\<lparr>ts_crt := c\<rparr>" and "(\<And>c. f c = malloc_obj x c) \<Longrightarrow> snd p = x"
proof -
  from assms obtain c where c: "f (ts_crt s) = (Some p, c)" "s' = s\<lparr>ts_crt := c\<rparr>"
    by (auto simp: or_perror_def exec_def crt_call_def quit_perror_def die_perror_def give_def
        split: prod.splits option.splits sum.splits)
  then show "\<exists>c. s' = s\<lparr>ts_crt := c\<rparr>" by blast
  assume "\<And>c. f c = malloc_obj x c"
  with c(1) show "snd p = x" using malloc_obj_SomeD(1) [of x "ts_crt s" p c] by simp
qed

lemma new_settings_InrD:
  "or_perror msg (crt_call gpiod_line_settings_new) s = (Inr p, s') \<Longrightarrow> snd p = default_settings \<and> (\<exists>c. s' = s\<lparr>ts_crt := c\<rparr>)"
  using new_object_InrD [of msg gpiod_line_settings_new s p s'] by (simp add: gpiod_line_settings_new_def)

lemma new_request_config_InrD:
  assumes "or_perror msg (crt_call gpiod_request_config_new) s = (Inr p, s')"
  shows "gpiod_request_config_set_consumer (snd p) (Some (gg_consumer cfg)) = asked_request cfg \<and> (\<exists>c. s' = s\<lparr>ts_crt := c\<rparr>)"
  using new_object_InrD [OF assms] by (simp add: gpiod_request_config_new_def asked_request_def)

lemma gpioget_read_steps:
  assumes cfg: "gpioget_parse_config prog args = Inr (cfg, ids)"
    and run: "gpioget_read E prog args s = (Inr (cfg', resolver', rest), s')"
  obtains a rv c1 k1 x lc st lc' rv' offs' vals' where "cfg' = cfg" "snd resolver' = rv'"
    "resolve_lines (re_tool E) ids (gg_chip_id cfg) (gg_strict cfg) (gg_by_name cfg) (ts_crt s) (ts_k s) = Inr ((a, rv), c1, k1)"
    "validate_resolution rv (gg_chip_id cfg) = Inr ()" "x = asked_settings cfg"
    "foldp (gpioget_chip E cfg x (asked_request cfg)) [0..<rv_num_chips rv]
       (lc, rv, replicate (length ids) 0, replicate (length ids) GPIOD_LINE_VALUE_INACTIVE) st
       = (Inr (lc', rv', offs', vals'), s')"
    "ts_k st = k1" "ts_out st = ts_out s"
proof -
  have eq: "x = asked_settings g" if "cfg = g" "gpioget_settings g default_settings c = (x, c')" for g x c c'
    using gpioget_settings_asked [OF gpioget_parse_valid [OF cfg], of c] that by simp
  from run show ?thesis
    unfolding gpioget_read_def Let_def
    apply (auto simp: crt_call_def of_tool_def tool_call_def give_def quit_def die_def cfg elim!: exec_InrD
        dest!: new_settings_InrD new_request_config_InrD [where cfg = cfg]
        new_object_InrD(1) [of _ gpiod_line_config_new] split: if_splits prod.splits sum.splits)
    subgoal for a b y ya x2 x2a x1a x2d ad x ae be af bf ag ah ai bg c
      by (rule that [where a = a and rv = b and x = x and rv' = ah and st = "s\<lparr>ts_k := x2d, ts_crt := c\<rparr>"])
        (auto intro: eq)
    done
qed

section \<open>What is printed\<close>

fun unwords :: "string list \<Rightarrow> string" where
  "unwords [] = []"
| "unwords [w] = w"
| "unwords (w # ws) = w @ '' '' @ unwords ws"

text \<open>The text for a line given as \<open>ident\<close> that was read as \<open>v\<close>.\<close>

definition reading_text :: "gpioget_config \<Rightarrow> string \<Rightarrow> gpiod_line_value \<Rightarrow> string" where
  "reading_text cfg ident v =
     (if gg_numeric cfg then (if v = GPIOD_LINE_VALUE_ACTIVE then ''1'' else ''0'')
      else (if gg_unquoted cfg then ident else [CHR 0x22] @ ident @ [CHR 0x22])
           @ (if v = GPIOD_LINE_VALUE_ACTIVE then ''=active'' else ''=inactive''))"

lemma gpioget_output_eq: "gpioget_output cfg lines = unwords (map (gpioget_value_text cfg) lines) @ [CHR 10]"
  by (induction cfg lines rule: gpioget_output.induct) simp_all

lemma decimal_int_bit: "decimal_int 1 = ''1''" "decimal_int 0 = ''0''"
  by code_simp+

lemma readings_binary:
  "readings E cfg rv js k rs k' \<Longrightarrow> snd ` set rs \<subseteq> {GPIOD_LINE_VALUE_ACTIVE, GPIOD_LINE_VALUE_INACTIVE}"
proof (induction rule: readings.induct)
  case (readings_chip j k vs k1 js rs k')
  then have "set vs \<subseteq> {GPIOD_LINE_VALUE_ACTIVE, GPIOD_LINE_VALUE_INACTIVE}"
    by (auto simp: chip_read_def value_of_bool_def)
  with readings_chip show ?case by (auto dest!: set_zip_rightD)
qed simp

lemma put_reading_text:
  assumes "map_of rs (line_place line) = Some v" "v \<in> {GPIOD_LINE_VALUE_ACTIVE, GPIOD_LINE_VALUE_INACTIVE}"
  shows "gpioget_value_text cfg (put_reading rs line) = reading_text cfg (rl_id line) v"
  using assms by (auto simp: put_reading_def gpioget_value_text_def reading_text_def line_value_text_def decimal_int_bit)

text \<open>Every line of a valid resolution has a reading once all chips are read.\<close>

lemma readings_complete:
  assumes ok: "resolution_ok K k0 paths by_name ids rv" and valid: "validate_resolution rv chip_id = Inr ()"
    and rs: "readings E cfg rv [0..<rv_num_chips rv] k rs k'" and line: "line \<in> set (rv_lines rv)"
  shows "\<exists>v. map_of rs (line_place line) = Some v"
proof -
  have "rl_resolved line" using valid line
    by (auto simp: validate_resolution_def resolution_errors_Nil list_all_iff split: if_splits)
  moreover have "line_sound K k0 rv line" using ok line by (simp add: resolution_ok_def list_all_iff)
  ultimately have "0 \<le> rl_chip_num line" "rl_chip_num line < int (rv_num_chips rv)"
    by (auto simp: line_sound_def split: option.splits)
  then have "fst (line_place line) \<in> int ` set [0..<rv_num_chips rv]"
    by (auto simp: line_place_def image_iff intro!: bexI [of _ "nat (rl_chip_num line)"])
  with line have "line_place line \<in> fst ` set rs" unfolding readings_keys [OF rs] by simp
  then show ?thesis by (metis map_of_eq_None_iff not_None_eq)
qed

text \<open>Printing and freeing always get to the end.\<close>

lemma gpioget_main_eq:
  "\<exists>c'. gpioget_main E prog args s =
     (case gpioget_read E prog args s of
        (Inl e, s1) \<Rightarrow> (Inl e, s1)
      | (Inr (cfg, resolver, _), s1) \<Rightarrow>
          (Inr (), s1\<lparr>ts_out := ts_out s1 @ gpioget_output cfg (rv_lines (snd resolver)), ts_crt := c'\<rparr>))"
  by (auto simp: gpioget_main_def exec_def out_def crt_do_def give_def split: prod.splits sum.splits)

text \<open>
  C11: \<open>gpioget\<close> prints the values that were asked for.  When \<open>gpioget\<close> succeeds, on a system whose line
  information calls answer for the line they are asked about and whose line request call leaves the
  request as it was, then it resolved the lines of the command line; after that it opened each chip of
  the resolution in turn, requested exactly the resolved lines of that chip, each with the direction, the bias
  and the polarity the options ask for, waited the hold period and read them.  It printed one line of text that
  has, for each of the lines given on the command line and in that order, the value the
  system reported for the chip and offset it was resolved to, and nothing else; and it left the system as it
  was after closing the last request and chip.
\<close>

theorem gpioget_prints_request:
  assumes kc: "offset_contract (re_kernel E)" "get_line_contract (re_kernel E)"
    and cfg: "gpioget_parse_config prog args = Inr (cfg, ids)" and few: "length ids < 2 ^ 62"
    and run: "gpioget_main E prog args s = (Inr (), s')"
  shows "\<exists>p c1 k1 rs vs. resolve_lines (re_tool E) ids (gg_chip_id cfg) (gg_strict cfg) (gg_by_name cfg)
        (ts_crt s) (ts_k s) = Inr (p, c1, k1)
    \<and> readings E cfg (snd p) [0..<rv_num_chips (snd p)] k1 rs (ts_k s')
    \<and> map (\<lambda>line. map_of rs (rl_chip_num line, rl_offset line)) (rv_lines (snd p)) = map Some vs
    \<and> ts_out s' = ts_out s @ unwords (map2 (reading_text cfg) ids vs) @ [CHR 10]"
proof -
  obtain c' where m: "gpioget_main E prog args s =
     (case gpioget_read E prog args s of
        (Inl e, s1) \<Rightarrow> (Inl e, s1)
      | (Inr (cfg, resolver, _), s1) \<Rightarrow>
          (Inr (), s1\<lparr>ts_out := ts_out s1 @ gpioget_output cfg (rv_lines (snd resolver)), ts_crt := c'\<rparr>))"
    using gpioget_main_eq by blast
  with run obtain cfg' resolver rest s1 where r: "gpioget_read E prog args s = (Inr (cfg', resolver, rest), s1)"
    and s': "s' = s1\<lparr>ts_out := ts_out s1 @ gpioget_output cfg' (rv_lines (snd resolver)), ts_crt := c'\<rparr>"
    by (auto split: prod.splits sum.splits)
  from cfg r show ?thesis
  proof (cases rule: gpioget_read_steps)
    case (1 a rv c1 k1 x lc st lc' rv' offs' vals')
    from resolve_lines_ok [OF kc(1) 1(3)] obtain paths k0 where
      ok: "resolution_ok (re_kernel E) k0 paths (gg_chip_id cfg = None \<or> gg_by_name cfg) ids rv" by auto
    note ids = resolution_ok_ids [OF ok]
    then have len: "length (rv_lines rv) = length ids" by (metis length_map)
    have "distinct (map (\<lambda>l. (rl_chip_num l, rl_offset l)) (rv_lines rv))" using 1(4)
      by (auto simp: validate_resolution_def resolution_errors_Nil split: if_splits)
    then have places: "distinct (map line_place (rv_lines rv))" by (simp add: line_place_def [abs_def])
    from gpioget_loop_reads [OF kc(2) _ places _ _ _ 1(6) [unfolded 1(5)]] len few obtain rs where
      rs: "readings E cfg rv [0..<rv_num_chips rv] k1 rs (ts_k s1)"
      "rv_lines rv' = map (put_reading rs) (rv_lines rv)" "ts_out s1 = ts_out s" using 1(7,8) by auto
    define vs where "vs = map (\<lambda>line. the (map_of rs (line_place line))) (rv_lines rv)"
    have read: "map_of rs (line_place line) = Some (the (map_of rs (line_place line)))"
      if "line \<in> set (rv_lines rv)" for line
      using readings_complete [OF ok 1(4) rs(1) that] by auto
    have "gpioget_value_text cfg (put_reading rs line) = reading_text cfg (rl_id line) (the (map_of rs (line_place line)))"
      if "line \<in> set (rv_lines rv)" for line
      using put_reading_text [OF read [OF that]] map_of_SomeD [OF read [OF that]] readings_binary [OF rs(1)] by force
    then have "map (gpioget_value_text cfg) (rv_lines rv') = map2 (reading_text cfg) ids vs"
      by (simp add: rs(2) vs_def ids [symmetric] map2_map_map)
    with rs(3) have "ts_out s' = ts_out s @ unwords (map2 (reading_text cfg) ids vs) @ [CHR 10]"
      by (simp add: s' 1(1,2) gpioget_output_eq)
    moreover have "map (\<lambda>line. map_of rs (rl_chip_num line, rl_offset line)) (rv_lines rv) = map Some vs"
      using read by (simp add: vs_def line_place_def)
    moreover have "readings E cfg rv [0..<rv_num_chips rv] k1 rs (ts_k s')" using rs(1) by (simp add: s')
    ultimately show ?thesis using 1(3) by (intro exI [of _ "(a, rv)"]) auto
  qed
qed

text \<open>A system that reads the first requested line as active; the program with its sequencing unfolded, for evaluation.\<close>

lemmas gpioget_read_code [code] = fun_cong [OF gpioget_read_def [unfolded exec_eq]]

definition reading_run :: "nat list run_env" where
  "reading_run = sample_run\<lparr>re_tool := sample_env\<lparr>te_kernel :=
     chip_kernel\<lparr>k_get_values := (\<lambda>_ v k. (Inr (0, v\<lparr>lv_bits := 1\<rparr>), k))\<rparr>\<rparr>\<rparr>"

theorem gpioget_prints_request_witness:
  "case gpioget_main reading_run ''gpioget'' [''-c'', ''gpiochip0'', ''--unquoted'', ''1'', ''0''] sample_tstate of
     (r, s') \<Rightarrow> (\<exists>p c1 k1 rs vs. resolve_lines (re_tool reading_run) [''1'', ''0''] (Some ''gpiochip0'') False False
           (ts_crt sample_tstate) (ts_k sample_tstate) = Inr (p, c1, k1)
         \<and> readings reading_run (gpioget_default\<lparr>gg_unquoted := True, gg_chip_id := Some ''gpiochip0''\<rparr>) (snd p)
             [0..<rv_num_chips (snd p)] k1 rs (ts_k s')
         \<and> map (\<lambda>line. map_of rs (rl_chip_num line, rl_offset line)) (rv_lines (snd p)) = map Some vs
         \<and> ts_out s' = unwords (map2 (reading_text (gpioget_default\<lparr>gg_unquoted := True,
             gg_chip_id := Some ''gpiochip0''\<rparr>)) [''1'', ''0''] vs) @ [CHR 10])
       \<and> ts_out s' = ''1=active 0=inactive'' @ [CHR 10]"
proof -
  let ?args = "[''-c'', ''gpiochip0'', ''--unquoted'', ''1'', ''0'']"
  let ?cfg = "gpioget_default\<lparr>gg_unquoted := True, gg_chip_id := Some ''gpiochip0''\<rparr>"
  let ?m = "gpioget_main reading_run ''gpioget'' ?args sample_tstate"
  have kc: "offset_contract (re_kernel reading_run)"
    by (auto simp: offset_contract_def reading_run_def sample_run_def sample_env_def chip_kernel_def)
  have gl: "get_line_contract (re_kernel reading_run)" using chip_kernel_contracts(2)
    by (simp add: get_line_contract_def reading_run_def sample_run_def sample_env_def)
  have cfg: "gpioget_parse_config ''gpioget'' ?args = Inr (?cfg, [''1'', ''0''])" by code_simp
  have "case gpioget_read reading_run ''gpioget'' ?args sample_tstate of
      (Inl e, s1) \<Rightarrow> False
    | (Inr (cfg, resolver, _), s1) \<Rightarrow>
        ts_out s1 @ gpioget_output cfg (rv_lines (snd resolver)) = ''1=active 0=inactive'' @ [CHR 10]" by code_simp
  with gpioget_main_eq [of reading_run "''gpioget''" ?args sample_tstate]
  obtain s' where m: "?m = (Inr (), s')" and o: "ts_out s' = ''1=active 0=inactive'' @ [CHR 10]"
    by (auto split: prod.splits sum.splits)
  have few: "length [''1'', ''0''] < 2 ^ 62" by simp
  have sel: "gg_chip_id ?cfg = Some ''gpiochip0''" "gg_strict ?cfg = False" "gg_by_name ?cfg = False"
    "ts_out sample_tstate = []" by (simp_all add: gpioget_default_def sample_tstate_def)
  from gpioget_prints_request [OF kc gl cfg few m, unfolded sel append_Nil] o show ?thesis
    by (simp only: m prod.case)
qed

end
