(* ===== verification/Chip_Paths.thy ===== *)
theory Chip_Paths
  imports Resolver "HOL-Library.Multiset"
begin

text \<open>
  What looking up chips (\<open>chip_path_lookup\<close> and \<open>all_chip_paths\<close> of \<open>tools-common.c\<close>) leaves behind: the blocks
  of the paths it returns and nothing else, and no descriptor.
\<close>

section \<open>Memory and descriptors of the chip paths\<close>

text \<open>The blocks in use and the open descriptors; objects in blocks of their own beside them.\<close>

definition heap_is :: "('k \<Rightarrow> int set) \<Rightarrow> nat set \<Rightarrow> int set \<Rightarrow> crt \<Rightarrow> 'k \<Rightarrow> bool" where
  "heap_is fds L F c k \<longleftrightarrow> heap_ok c \<and> live c = L \<and> fds k = F"

definition apart :: "'a obj list \<Rightarrow> nat set \<Rightarrow> bool" where
  "apart ps L \<longleftrightarrow> distinct (map fst ps) \<and> fst ` set ps \<inter> L = {}"

lemma heap_is_errno [simp]: "heap_is fds L F (set_errno e c) k = heap_is fds L F c k"
  by (simp add: heap_is_def)

lemma asprintf_heap:
  assumes "heap_is fds L F c k" "asprintf str c = (r, c')"
  shows "case r of None \<Rightarrow> heap_is fds L F c' k
    | Some p \<Rightarrow> heap_is fds (insert (fst p) L) F c' k \<and> fst p \<notin> L \<and> snd p = str"
  using assms heap_ok_fresh [of c] malloc_obj_SomeD [of str c _ c'] malloc_obj_NoneD [of str c c']
  by (auto simp: heap_is_def asprintf_def split: option.splits)

lemma malloc_heap:
  assumes "heap_is fds L F c k" "malloc c = (Some b, c')"
  shows "heap_is fds (insert b L) F c' k" "b \<notin> L"
  using assms(1) malloc_SomeD(1,2) [OF assms(2)] heap_ok_malloc_Some [OF _ assms(2)] heap_ok_fresh [of c]
  by (simp_all add: heap_is_def)

lemma free_obj_heap:
  "heap_is fds (insert (fst p) L) F c k \<Longrightarrow> fst p \<notin> L \<Longrightarrow> heap_is fds L F (free_obj p c) k"
  by (auto simp: heap_is_def free_obj_def heap_ok_free)

lemma free_objs_heap:
  "heap_is fds (fst ` set ps \<union> L) F c k \<Longrightarrow> apart ps L \<Longrightarrow> heap_is fds L F (fold free_obj ps c) k"
proof (induction ps arbitrary: c)
  case (Cons p ps)
  then have "heap_is fds (fst ` set ps \<union> L) F (free_obj p c) k"
    by (intro free_obj_heap) (auto simp: apart_def)
  with Cons show ?case by (auto simp: apart_def)
qed simp

lemma is_gpiochip_device_heap:
  assumes "fd_contract K fds" "heap_is fds L F c k" "gpiod_is_gpiochip_device K path c k = (r, c', k')"
  shows "heap_is fds L F c' k'"
  using check_device_heap [of c K path False k r c' k'] check_device_fds [OF assms(1), of path False c k r c' k'] assms
  by (simp add: heap_is_def gpiod_is_gpiochip_device_def)

lemma chip_path_lookup_heap:
  assumes kc: "fd_contract K fds" and h: "heap_is fds L F c k"
    and run: "chip_path_lookup K ident c k = (r, c', k')"
  shows "case r of None \<Rightarrow> heap_is fds L F c' k'
    | Some p \<Rightarrow> heap_is fds (insert (fst p) L) F c' k' \<and> fst p \<notin> L"
proof -
  define str where "str = (if isuint ident then ''/dev/gpiochip'' @ ident
    else if CHR ''/'' \<in> set ident then ident else ''/dev/'' @ ident)"
  obtain r1 c1 where a: "asprintf str c = (r1, c1)" by fastforce
  have look: "chip_path_lookup K ident c k =
      (case r1 of None \<Rightarrow> (None, c1, k)
       | Some path \<Rightarrow> (case gpiod_is_gpiochip_device K (Some (snd path)) c1 k of
           (isdev, c, k) \<Rightarrow> if \<not> isdev then (None, free_obj path c, k) else (Some path, c, k)))"
  proof -
    have "(if isuint ident then asprintf (''/dev/gpiochip'' @ ident) c
        else if CHR ''/'' \<in> set ident then asprintf ident c else asprintf (''/dev/'' @ ident) c) = (r1, c1)"
      using a unfolding str_def by presburger
    then show ?thesis unfolding chip_path_lookup_def by (simp only: prod.case)
  qed
  note as = asprintf_heap [OF h a]
  show ?thesis
  proof (cases r1)
    case None
    with look run as show ?thesis by simp
  next
    case (Some p)
    obtain d c2 k2 where dev: "gpiod_is_gpiochip_device K (Some (snd p)) c1 k = (d, c2, k2)" by (rule prod_cases3)
    have h1: "heap_is fds (insert (fst p) L) F c1 k" "fst p \<notin> L" using as Some by simp_all
    note h2 = is_gpiochip_device_heap [OF kc h1(1) dev]
    show ?thesis using run h2 h1(2) free_obj_heap [OF h2 h1(2)] by (cases d) (auto simp: look Some dev)
  qed
qed

lemma chip_dir_filter_heap:
  assumes kc: "fd_contract K fds" and h: "heap_is fds L F c k"
    and run: "chip_dir_filter K d c k = (r, c', k')"
  shows "heap_is fds L F c' k'"
proof -
  obtain r1 c1 where a: "asprintf (''/dev/'' @ d) c = (r1, c1)" by fastforce
  note as = asprintf_heap [OF h a]
  show ?thesis
  proof (cases r1)
    case None
    with run [unfolded chip_dir_filter_def a] as show ?thesis by simp
  next
    case (Some p)
    obtain x k1 where ls: "k_lstat K (snd p) k = (x, k1)" by fastforce
    have "fds (snd (k_lstat K (snd p) k)) = fds k" using kc by (simp add: fd_contract_def)
    with as Some ls have h1: "heap_is fds (insert (fst p) L) F c1 k1" "fst p \<notin> L" by (simp_all add: heap_is_def)
    obtain dv c2 k2 where dev: "gpiod_is_gpiochip_device K (Some (snd p)) c1 k1 = (dv, c2, k2)" by (rule prod_cases3)
    note h2 = is_gpiochip_device_heap [OF kc h1(1) dev]
    have "heap_is fds L F (free_obj p (set_errno e c1)) k1" for e by (rule free_obj_heap) (use h1 in simp_all)
    with free_obj_heap [OF h1] free_obj_heap [OF h2 h1(2)] run [unfolded chip_dir_filter_def a Some]
    show ?thesis by (auto simp: ls dev split: sum.splits if_splits)
  qed
qed

lemma scan_entries_heap:
  assumes kc: "fd_contract K fds"
  shows "heap_is fds (fst ` set acc \<union> L) F c k \<Longrightarrow> apart acc L \<Longrightarrow> scan_entries K ds acc c k = (Some es, c', k')
    \<Longrightarrow> heap_is fds (fst ` set es \<union> L) F c' k' \<and> apart es L"
proof (induction ds arbitrary: acc c k)
  case (Cons d ds)
  obtain keep c1 k1 where f: "chip_dir_filter K d c k = (keep, c1, k1)" by (rule prod_cases3)
  note h1 = chip_dir_filter_heap [OF kc Cons.prems(1) f]
  show ?case
  proof (cases keep)
    case False
    with Cons.prems h1 Cons.IH show ?thesis by (simp add: f)
  next
    case True
    obtain x c2 where x: "malloc_obj d c1 = (x, c2)" by fastforce
    with Cons.prems(3) True obtain e where e: "x = Some e" by (cases x) (simp_all add: f)
    with Cons.prems(3) True x have m: "malloc_obj d c1 = (Some e, c2)"
      "scan_entries K ds (e # acc) c2 k1 = (Some es, c', k')" by (simp_all add: f)
    from asprintf_heap [OF h1, of d] m(1)
    have "heap_is fds (insert (fst e) (fst ` set acc \<union> L)) F c2 k1" "fst e \<notin> fst ` set acc \<union> L"
      by (simp_all add: asprintf_def)
    with Cons.prems(2) m(2) Cons.IH [of "e # acc" c2 k1] show ?thesis by (simp add: apart_def)
  qed
qed (clarsimp simp: apart_def rev_map [symmetric])

lemma build_paths_heap:
  "heap_is fds (fst ` set acc \<union> L) F c k \<Longrightarrow> apart acc L \<Longrightarrow> build_paths es acc c = (Some ps, c')
    \<Longrightarrow> heap_is fds (fst ` set ps \<union> L) F c' k \<and> apart ps L"
proof (induction es arbitrary: acc c)
  case (Cons e es)
  obtain x c1 where x: "asprintf (''/dev/'' @ snd e) c = (x, c1)" by fastforce
  have step: "build_paths (e # es) acc c = (case x of None \<Rightarrow> (None, fold free_obj (rev acc) c1)
      | Some p \<Rightarrow> build_paths es (p # acc) c1)" unfolding build_paths.simps x prod.case ..
  with Cons.prems(3) obtain p where p: "x = Some p" by (cases x) simp_all
  with Cons.prems(3) step x have m: "asprintf (''/dev/'' @ snd e) c = (Some p, c1)"
    "build_paths es (p # acc) c1 = (Some ps, c')" by simp_all
  from asprintf_heap [OF Cons.prems(1) m(1)]
  have "heap_is fds (insert (fst p) (fst ` set acc \<union> L)) F c1 k" "fst p \<notin> fst ` set acc \<union> L" by simp_all
  with Cons.prems(2) m(2) Cons.IH [of "p # acc" c1] show ?case by (simp add: apart_def)
qed (clarsimp simp: apart_def rev_map [symmetric])

text \<open>
  Which allocations fail is fixed by their number, and the scan only makes further ones: \<open>c'\<close> comes later
  than \<open>c\<close>.
\<close>

definition later :: "crt \<Rightarrow> crt \<Rightarrow> bool" where
  "later c c' \<longleftrightarrow> oom c' = oom c \<and> nalloc c \<le> nalloc c'"

lemma later_refl [simp]: "later c c"
  by (simp add: later_def)

lemma later_trans: "later c c1 \<Longrightarrow> later c1 c2 \<Longrightarrow> later c c2"
  by (simp add: later_def)

lemma later_upd [simp]:
  "later c (set_errno e c1) = later c c1" "later c (free b c1) = later c c1" "later c (free_obj p c1) = later c c1"
  "later (set_errno e c) c1 = later c c1"
  by (simp_all add: later_def set_errno_def free_def free_obj_def)

lemma later_frees [simp]: "later c (fold free_obj ps c1) = later c c1"
  by (induction ps arbitrary: c1) simp_all

lemma later_malloc: "malloc c = (r, c') \<Longrightarrow> later c c'"
  by (auto simp: malloc_def Let_def later_def set_errno_def split: if_splits)

lemma later_malloc_obj: "malloc_obj x c = (r, c') \<Longrightarrow> later c c'"
  by (auto simp: malloc_obj_def split: prod.splits option.splits intro: later_malloc)

lemma later_realpath: "realpath K p c k = (r, c', k') \<Longrightarrow> later c c'"
  by (auto simp: realpath_def split: prod.splits sum.splits intro: later_malloc_obj)

lemma later_check_realname: "check_realname K rn c k = (r, c', k') \<Longrightarrow> later c c'"
  by (auto simp: check_realname_def Let_def split: prod.splits sum.splits option.splits if_splits
      dest: later_realpath)

lemma later_is_gpiochip_device:
  assumes "gpiod_is_gpiochip_device K path c k = (r, c', k')" shows "later c c'"
proof -
  obtain d c1 k1 where cp: "check_path K path c k = (d, c1, k1)" by (rule prod_cases3)
  then have "later c c1"
    by (auto simp: check_path_def strdup_def split: option.splits prod.splits sum.splits if_splits
        dest!: later_realpath later_malloc_obj later_check_realname intro: later_trans)
  with assms cp show ?thesis by (auto simp: gpiod_is_gpiochip_device_def gpiod_check_gpiochip_device_def)
qed

lemma later_chip_dir_filter: "chip_dir_filter K d c k = (r, c', k') \<Longrightarrow> later c c'"
  by (auto simp: chip_dir_filter_def asprintf_def split: prod.splits sum.splits option.splits if_splits
      dest!: later_malloc_obj later_is_gpiochip_device intro: later_trans)

lemma later_scan_entries: "scan_entries K ds acc c k = (r, c', k') \<Longrightarrow> later c c'"
proof (induction K ds acc c k rule: scan_entries.induct)
  case (2 K d ds acc c k)
  obtain keep c1 k1 where f: "chip_dir_filter K d c k = (keep, c1, k1)" by (rule prod_cases3)
  obtain x c2 where m: "malloc_obj d c1 = (x, c2)" by fastforce
  note l = later_chip_dir_filter [OF f] later_malloc_obj [OF m]
  show ?case
    using 2 l by (cases keep; cases x) (auto simp: f m intro: later_trans)
qed simp

text \<open>A failed allocation between two points of a run, and the paths that were not built because of one.\<close>

definition failed_between :: "crt \<Rightarrow> crt \<Rightarrow> bool" where
  "failed_between c c' \<longleftrightarrow> (\<exists>n. nalloc c \<le> n \<and> n < nalloc c' \<and> oom c n)"

lemma failed_between_later: "later c c1 \<Longrightarrow> failed_between c1 c2 \<Longrightarrow> failed_between c c2"
  unfolding failed_between_def later_def by (metis order_trans)

lemma failed_between_upd [simp]:
  "failed_between c (free b c1) = failed_between c c1" "failed_between c (fold free_obj ps c1) = failed_between c c1"
proof -
  have f: "nalloc (free b c1) = nalloc c1" for b c1 by (simp add: free_def)
  then have "nalloc (fold free_obj ps c1) = nalloc c1"
    by (induction ps arbitrary: c1) (simp_all add: free_obj_def)
  with f show "failed_between c (free b c1) = failed_between c c1"
    "failed_between c (fold free_obj ps c1) = failed_between c c1" by (simp_all add: failed_between_def)
qed

lemma malloc_failed: "malloc c = (None, c') \<Longrightarrow> failed_between c c'"
  by (auto simp: malloc_def Let_def failed_between_def set_errno_def split: if_splits)

lemma build_paths_failed: "build_paths es acc c = (None, c') \<Longrightarrow> failed_between c c'"
proof (induction es arbitrary: acc c)
  case (Cons e es)
  obtain x c1 where x: "asprintf (''/dev/'' @ snd e) c = (x, c1)" by fastforce
  have step: "build_paths (e # es) acc c = (case x of None \<Rightarrow> (None, fold free_obj (rev acc) c1)
      | Some p \<Rightarrow> build_paths es (p # acc) c1)" unfolding build_paths.simps x prod.case ..
  show ?case
  proof (cases x)
    case None
    with x have "failed_between c c1"
      by (auto simp: asprintf_def malloc_obj_def split: prod.splits option.splits intro: malloc_failed)
    with None Cons.prems step show ?thesis by auto
  next
    case (Some p)
    with Cons step have "failed_between c1 c'" by simp
    with later_malloc_obj [OF x [unfolded asprintf_def]] show ?thesis by (rule failed_between_later)
  qed
qed simp

lemma later_scandir: "scandir_chips E c k = (r, c', k') \<Longrightarrow> later c c'"
  by (auto simp: scandir_chips_def split: prod.splits sum.splits option.splits
      dest!: later_scan_entries later_malloc intro: later_trans)

lemma all_chip_paths_failed:
  assumes "all_chip_paths E c k = Inr (ps, None, c', k')"
  shows "failed_between c c'"
proof -
  obtain x c1 k1 where sd: "scandir_chips E c k = (x, c1, k1)" by (rule prod_cases3)
  obtain u c2 where m: "malloc c1 = (u, c2)" by fastforce
  have "later c c2" using later_scandir [OF sd] later_malloc [OF m] by (rule later_trans)
  moreover have "failed_between c2 c'"
    using assms by (cases x; cases u) (auto simp: all_chip_paths_def sd m die_perror_def die_def
        split: prod.splits option.splits dest: build_paths_failed)
  ultimately show ?thesis by (rule failed_between_later)
qed

text \<open>Reading a directory opens and closes what it needs, and sorting only changes the order.\<close>

definition scandir_contract :: "'k tool_env \<Rightarrow> ('k \<Rightarrow> int set) \<Rightarrow> bool" where
  "scandir_contract E fds \<longleftrightarrow> (\<forall>d k. fds (snd (te_readdir E d k)) = fds k)
     \<and> (\<forall>es. mset (te_versionsort E es) = mset es)"

lemma all_chip_paths_heap:
  assumes kc: "fd_contract (te_kernel E) fds" and sc: "scandir_contract E fds" and h: "heap_is fds L F c k"
    and run: "all_chip_paths E c k = Inr (ps, arr, c', k')"
  shows "(arr = None \<and> ps = []) \<or> (\<exists>b. arr = Some b \<and> b \<notin> L \<and> apart ps (insert b L)
    \<and> heap_is fds (fst ` set ps \<union> insert b L) F c' k')"
proof -
  obtain x c1 k1 where x: "scandir_chips E c k = (x, c1, k1)" by (rule prod_cases3)
  with run obtain es entries where sd: "scandir_chips E c k = (Some (es, entries), c1, k1)"
    by (cases x) (auto simp: all_chip_paths_def die_perror_def)
  obtain ds k0 where rd: "te_readdir E ''/dev/'' k = (Inr ds, k0)"
    using sd by (cases "te_readdir E ''/dev/'' k"; cases "fst (te_readdir E ''/dev/'' k)")
      (simp_all add: scandir_chips_def)
  obtain y c0 k2 where y: "scan_entries (te_kernel E) ds [] c k0 = (y, c0, k2)" by (rule prod_cases3)
  obtain z c3 where z: "malloc c0 = (z, c3)" by fastforce
  have sd': "scandir_chips E c k = (case y of None \<Rightarrow> (None, c0, k2)
      | Some es \<Rightarrow> (case z of None \<Rightarrow> (None, fold free_obj es c3, k2)
          | Some entries \<Rightarrow> (Some (te_versionsort E es, entries), c3, k2)))"
    by (cases y) (simp_all add: scandir_chips_def rd y z)
  with sd obtain es0 where yz: "y = Some es0" "z = Some entries" by (cases y; cases z) simp_all
  with sd sd' have es: "es = te_versionsort E es0" "c3 = c1" "k2 = k1" by simp_all
  have sn: "scan_entries (te_kernel E) ds [] c k0 = (Some es0, c0, k1)" and mm: "malloc c0 = (Some entries, c1)"
    using y z yz es by simp_all
  have "fds (snd (te_readdir E ''/dev/'' k)) = fds k" using sc by (simp add: scandir_contract_def)
  with rd h have "heap_is fds (fst ` set ([] :: string obj list) \<union> L) F c k0" by (simp add: heap_is_def)
  from scan_entries_heap [OF kc this _ sn] have h0: "heap_is fds (fst ` set es0 \<union> L) F c0 k1" "apart es0 L"
    by (simp_all add: apart_def)
  have "mset es = mset es0" using sc by (simp add: es(1) scandir_contract_def)
  then have "mset (map fst es) = mset (map fst es0)" and sets: "set es = set es0"
    by (simp, intro mset_eq_setD)
  then have "distinct (map fst es) = distinct (map fst es0)" by (intro mset_eq_imp_distinct_iff)
  then have es': "fst ` set es = fst ` set es0" "apart es L" using h0(2) by (simp_all add: apart_def sets)
  define M where "M = insert entries (fst ` set es \<union> L)"
  have h1: "heap_is fds M F c1 k1" and ent: "entries \<notin> fst ` set es \<union> L"
    using malloc_heap [OF h0(1) mm] by (simp_all add: es'(1) M_def)
  obtain u c2 where u: "malloc c1 = (u, c2)" by fastforce
  with run obtain b where m2: "malloc c1 = (Some b, c2)" by (cases u) (simp_all add: all_chip_paths_def sd die_def)
  obtain v c4 where v: "build_paths es [] c2 = (v, c4)" by fastforce
  have run': "all_chip_paths E c k = (case v of None \<Rightarrow> Inr ([], None, free b c4, k1)
      | Some ps \<Rightarrow> Inr (ps, Some b, free entries (fold free_obj es c4), k1))"
    by (simp add: all_chip_paths_def sd m2 v)
  show ?thesis
  proof (cases v)
    case None
    with run run' show ?thesis by simp
  next
    case (Some qs)
    with run run' v have bp: "build_paths es [] c2 = (Some ps, c4)" and arr: "arr = Some b"
      and c': "c' = free entries (fold free_obj es c4)" "k' = k1" by simp_all
    have h2: "heap_is fds (fst ` set ([] :: string obj list) \<union> insert b M) F c2 k1" and b: "b \<notin> M"
      using malloc_heap [OF h1 m2] by simp_all
    from build_paths_heap [OF h2 _ bp] have h3: "heap_is fds (fst ` set ps \<union> insert b M) F c4 k1"
      and ps: "apart ps (insert b M)" by (simp_all add: apart_def)
    have "heap_is fds (insert entries (fst ` set ps \<union> insert b L)) F (fold free_obj es c4) k1"
    proof (rule free_objs_heap)
      show "heap_is fds (fst ` set es \<union> insert entries (fst ` set ps \<union> insert b L)) F c4 k1"
        using h3 by (simp add: M_def Un_commute Un_left_commute insert_commute)
      show "apart es (insert entries (fst ` set ps \<union> insert b L))"
        using es'(2) ent b ps by (auto simp: apart_def M_def)
    qed
    moreover have "entries \<notin> fst ` set ps \<union> insert b L" using ent b ps by (auto simp: apart_def M_def)
    ultimately have "heap_is fds (fst ` set ps \<union> insert b L) F c' k'"
      using free_obj_heap [of fds "(entries, ())"] by (simp add: c' free_obj_def)
    moreover have "b \<notin> L" "apart ps (insert b L)" using b ps by (auto simp: apart_def M_def)
    ultimately show ?thesis using arr by blast
  qed
qed


end
