(* ===== verification/Gpiodetect.thy ===== *)
theory Gpiodetect
  imports Tool_Program Chip_Paths
begin

text \<open>
  \<open>tools/gpiodetect.c\<close>: listing the chips of the system, or the ones given as arguments.
\<close>

definition gpiodetect_longopts :: "longopt list" where
  "gpiodetect_longopts = [(''help'', False, Code CHR ''h''), (''version'', False, Code CHR ''v'')]"

text \<open>There is nothing to configure: the arguments from \<open>optind\<close> on.\<close>

definition gpiodetect_parse_config :: "string \<Rightarrow> string list \<Rightarrow> string list tool" where
  "gpiodetect_parse_config prog args =
     (case getopt_long ''+hv'' gpiodetect_longopts args of
        (opts, rest) \<Rightarrow> option_loop (common_option prog) opts rest)"

text \<open>The text for a chip.\<close>

definition chip_info_text :: "gpiod_chip_info \<Rightarrow> string" where
  "chip_info_text info = c_str (gpiod_chip_info_get_name info) @ '' ['' @ c_str (gpiod_chip_info_get_label info)
     @ ''] ('' @ decimal (gpiod_chip_info_get_num_lines info) @ '' lines)'' @ [CHR 10]"

text \<open>The return value \<open>1\<close> of a failure is \<open>True\<close>.\<close>

definition print_chip_info :: "'k run_env \<Rightarrow> string \<Rightarrow> ('k, bool) prog" where
  "print_chip_info E path =
     exec (sys_call (gpiod_chip_open (re_kernel E) (Some path))) (\<lambda>chip.
     case chip of
       None \<Rightarrow> exec (print_perror (''unable to open chip '' @ [CHR 0x27] @ path @ [CHR 0x27])) (\<lambda>_. give True)
     | Some chip \<Rightarrow>
         exec (or_perror (''unable to read info for '' @ [CHR 0x27] @ path @ [CHR 0x27])
           (sys_call (gpiod_chip_get_info (re_kernel E) (snd chip)))) (\<lambda>info.
         exec (out (chip_info_text (snd info))) (\<lambda>_.
         exec (crt_do (gpiod_chip_info_free info)) (\<lambda>_.
         exec (sys_do (gpiod_chip_close (re_kernel E) (Some chip))) (\<lambda>_. give False)))))"

text \<open>The two loops; the accumulator says if \<open>ret\<close> is \<open>EXIT_FAILURE\<close>.\<close>

definition detect_path :: "'k run_env \<Rightarrow> string obj \<Rightarrow> bool \<Rightarrow> ('k, bool) prog" where
  "detect_path E path failed =
     exec (print_chip_info E (snd path)) (\<lambda>bad.
     exec (crt_do (free_obj path)) (\<lambda>_. give (failed \<or> bad)))"

definition detect_arg :: "'k run_env \<Rightarrow> string \<Rightarrow> bool \<Rightarrow> ('k, bool) prog" where
  "detect_arg E arg failed =
     exec (sys_call (chip_path_lookup (re_kernel E) arg)) (\<lambda>path.
     case path of
       None \<Rightarrow> exec (print_error (''cannot find GPIO chip character device '' @ [CHR 0x27] @ arg @ [CHR 0x27]))
         (\<lambda>_. give True)
     | Some path \<Rightarrow> detect_path E path failed)"

definition gpiodetect_main :: "'k run_env \<Rightarrow> string \<Rightarrow> string list \<Rightarrow> ('k, bool) prog" where
  "gpiodetect_main E prog args =
     exec (of_tool (gpiodetect_parse_config prog args)) (\<lambda>args.
     exec (if args = []
           then exec (tool_call (\<lambda>c k. case all_chip_paths (re_tool E) c k of
                    Inl e \<Rightarrow> Inl e | Inr (paths, arr, c, k) \<Rightarrow> Inr ((paths, arr), c, k))) (\<lambda>(paths, arr).
                exec (foldp (detect_path E) paths False) (\<lambda>failed.
                exec (crt_do (free_ptr arr)) (\<lambda>_. give failed)))
           else give False) (\<lambda>failed.
     exec (foldp (detect_arg E) args failed) (\<lambda>failed.
     give (\<not> failed))))"

section \<open>Nothing is left behind\<close>

definition owns :: "('k \<Rightarrow> int set) \<Rightarrow> nat set \<Rightarrow> int set \<Rightarrow> 'k tstate \<Rightarrow> bool" where
  "owns fds L F s \<longleftrightarrow> heap_is fds L F (ts_crt s) (ts_k s)"

lemma owns_texts [triple_rules]:
  "triple (owns fds L F) (out str) (\<lambda>_. owns fds L F)"
  "triple (owns fds L F) (print_error str) (\<lambda>_. owns fds L F)"
  "triple (owns fds L F) (print_perror str) (\<lambda>_. owns fds L F)"
  by (auto simp: triple_def owns_def out_def print_error_def print_perror_def)

lemma owns_give [triple_rules]: "triple (owns fds L F) (give x) (\<lambda>_. owns fds L F)"
  by (simp add: triple_def give_def)

lemma owns_free [triple_rules]:
  "fst p \<notin> L \<Longrightarrow> triple (owns fds (insert (fst p) L) F) (crt_do (free_obj p)) (\<lambda>_. owns fds L F)"
  unfolding triple_def owns_def crt_do_def by (auto intro: free_obj_heap)

lemma print_chip_info_owns:
  assumes kc: "fd_contract (re_kernel E) fds"
  shows "triple (owns fds L F) (print_chip_info E path) (\<lambda>_. owns fds L F)"
  unfolding triple_def
proof (intro allI impI)
  fix s bad s'
  assume own: "owns fds L F s" and run: "print_chip_info E path s = (Inr bad, s')"
  obtain r c1 k1 where op: "gpiod_chip_open (re_kernel E) (Some path) (ts_crt s) (ts_k s) = (r, c1, k1)"
    by (rule prod_cases3)
  have "heap_ok (ts_crt s)" using own by (simp add: owns_def heap_is_def)
  from this kc op show "owns fds L F s'"
  proof (cases rule: chip_open_cases)
    case failed
    with own run show ?thesis
      by (auto simp: print_chip_info_def exec_def sys_call_def op print_perror_def give_def owns_def heap_is_def)
  next
    case (opened p)
    obtain i c2 k2 where gi: "gpiod_chip_get_info (re_kernel E) (snd p) c1 k1 = (i, c2, k2)" by (rule prod_cases3)
    obtain ret u c3 k3 where rd: "read_chip_info (re_kernel E) (chip_fd (snd p)) c1 k1 = (ret, u, c3, k3)"
      by (rule prod_cases4)
    note rc = read_chip_info_cases [OF kc rd]
    from run obtain info where i: "i = Some info"
      by (cases i) (auto simp: print_chip_info_def prog_defs op opened(1) gi die_perror_def)
    with gi rd have mo: "malloc_obj (chip_info_of_uapi u) c3 = (Some info, c2)" "k2 = k3"
      by (auto simp: gpiod_chip_get_info_def gpiod_chip_info_from_uapi_def split: if_splits prod.splits)
    have h3: "heap_ok c3" "live c3 = live (ts_crt s) \<union> chip_blocks p" using rc opened by simp_all
    note new = one_block.new_then_release [OF h3(1) mo(1)]
    obtain c4 k4 where cl: "gpiod_chip_close (re_kernel E) (Some p) (free_obj info c2) k2 = (c4, k4)" by fastforce
    have s': "s' = s\<lparr>ts_out := ts_out s @ chip_info_text (snd info), ts_crt := c4, ts_k := k4\<rparr>"
      using run by (auto simp: print_chip_info_def prog_defs op opened(1) gi i gpiod_chip_info_free_def cl)
    have "heap_ok c4 \<and> live c4 = live (ts_crt s) \<and> fds k4 = fds (ts_k s)"
      by (rule chip_close_heap [OF kc _ _ _ _ _ _ cl]) (use opened new h3 rc mo(2) in auto)
    with own show ?thesis by (simp add: s' cl owns_def heap_is_def)
  qed
qed

lemma detect_path_owns:
  assumes "fd_contract (re_kernel E) fds" "fst path \<notin> L"
  shows "triple (owns fds (insert (fst path) L) F) (detect_path E path failed) (\<lambda>_. owns fds L F)"
  unfolding detect_path_def
  by (rule triple_exec print_chip_info_owns [OF assms(1)] owns_free [OF assms(2)] owns_give)+

lemma detect_paths_owns:
  assumes "fd_contract (re_kernel E) fds"
  shows "apart paths L \<Longrightarrow> triple (owns fds (fst ` set paths \<union> L) F) (foldp (detect_path E) paths failed) (\<lambda>_. owns fds L F)"
proof (induction paths arbitrary: failed)
  case (Cons path paths)
  then have "fst path \<notin> fst ` set paths \<union> L" "apart paths L" by (auto simp: apart_def)
  with triple_exec [OF detect_path_owns [OF assms] Cons.IH] show ?case by simp
qed (simp add: owns_give)

lemma detect_arg_owns:
  assumes kc: "fd_contract (re_kernel E) fds"
  shows "triple (owns fds L F) (detect_arg E arg failed) (\<lambda>_. owns fds L F)"
  unfolding triple_def
proof (intro allI impI)
  fix s bad s'
  assume own: "owns fds L F s" and run: "detect_arg E arg failed s = (Inr bad, s')"
  obtain r c1 k1 where lk: "chip_path_lookup (re_kernel E) arg (ts_crt s) (ts_k s) = (r, c1, k1)" by (rule prod_cases3)
  note h = chip_path_lookup_heap [OF kc own [unfolded owns_def] lk]
  show "owns fds L F s'"
  proof (cases r)
    case None
    with run lk h show ?thesis
      by (auto simp: detect_arg_def exec_def sys_call_def print_error_def give_def owns_def)
  next
    case (Some p)
    with h have "owns fds (insert (fst p) L) F (s\<lparr>ts_crt := c1, ts_k := k1\<rparr>)" "fst p \<notin> L" by (simp_all add: owns_def)
    moreover have "detect_path E p failed (s\<lparr>ts_crt := c1, ts_k := k1\<rparr>) = (Inr bad, s')"
      using run by (simp add: detect_arg_def exec_def sys_call_def lk Some)
    ultimately show ?thesis using tripleD [OF detect_path_owns [OF kc]] by blast
  qed
qed

lemma detect_args_owns:
  assumes "fd_contract (re_kernel E) fds"
  shows "triple (owns fds L F) (foldp (detect_arg E) args failed) (\<lambda>_. owns fds L F)"
proof (induction args arbitrary: failed)
  case (Cons arg args)
  show ?case unfolding foldp.simps by (rule triple_exec [OF detect_arg_owns [OF assms] Cons.IH])
qed (simp add: owns_give)

text \<open>
  The scan of \<open>/dev\<close> and the loop over what it found.  When building the paths fails for want of memory,
  \<open>all_chip_paths\<close> returns without having set the pointer to the array, and the tool releases it all the same.
\<close>

definition scan_gave_up :: "'k run_env \<Rightarrow> 'k tstate \<Rightarrow> bool" where
  "scan_gave_up E s \<longleftrightarrow> (\<exists>c1 k1. all_chip_paths (re_tool E) (ts_crt s) (ts_k s) = Inr ([], None, c1, k1)
     \<and> failed_between (ts_crt s) c1)"

lemma detect_all_owns:
  assumes kc: "fd_contract (re_kernel E) fds" and sc: "scandir_contract (re_tool E) fds" and own: "owns fds L F s"
    and run: "exec (tool_call (\<lambda>c k. case all_chip_paths (re_tool E) c k of
                    Inl e \<Rightarrow> Inl e | Inr (paths, arr, c, k) \<Rightarrow> Inr ((paths, arr), c, k))) (\<lambda>(paths, arr).
                exec (foldp (detect_path E) paths False) (\<lambda>failed.
                exec (crt_do (free_ptr arr)) (\<lambda>_. give failed))) s = (Inr failed, s')"
  shows "if scan_gave_up E s then heap_fault (ts_crt s') else owns fds L F s'"
proof -
  obtain paths arr c1 k1 where all: "all_chip_paths (re_tool E) (ts_crt s) (ts_k s) = Inr (paths, arr, c1, k1)"
    using run by (cases "all_chip_paths (re_tool E) (ts_crt s) (ts_k s)") (auto simp: exec_def tool_call_def)
  define s1 where "s1 = s\<lparr>ts_crt := c1, ts_k := k1\<rparr>"
  from run obtain failed' s2 where loop: "foldp (detect_path E) paths False s1 = (Inr failed', s2)"
    and s': "s' = s2\<lparr>ts_crt := free_ptr arr (ts_crt s2)\<rparr>"
    by (auto simp: exec_def tool_call_def all crt_do_def give_def s1_def split: prod.splits sum.splits)
  from all_chip_paths_heap [OF kc sc own [unfolded owns_def] all] show ?thesis
  proof
    assume "arr = None \<and> paths = []"
    moreover from this all have "scan_gave_up E s" by (auto simp: scan_gave_up_def intro: all_chip_paths_failed)
    ultimately show ?thesis by (simp add: s' free_ptr_def)
  next
    assume "\<exists>b. arr = Some b \<and> b \<notin> L \<and> apart paths (insert b L) \<and> heap_is fds (fst ` set paths \<union> insert b L) F c1 k1"
    then obtain b where b: "arr = Some b" "b \<notin> L" "apart paths (insert b L)"
      and "owns fds (fst ` set paths \<union> insert b L) F s1" by (auto simp: owns_def s1_def)
    from tripleD [OF detect_paths_owns [OF kc b(3)] this(4) loop] have "owns fds (insert b L) F s2" .
    moreover have "\<not> scan_gave_up E s" using all b(1) by (auto simp: scan_gave_up_def)
    ultimately show ?thesis using free_obj_heap [of fds "(b, ())" L F "ts_crt s2" "ts_k s2"] b
      by (simp add: s' owns_def free_ptr_def free_obj_def)
  qed
qed

section \<open>Properties\<close>

text \<open>
  C17: \<open>gpiodetect\<close> leaves nothing behind.  Whenever it comes to its end, for any chips given or for all chips
  of the system, whether they can be opened or not, every block it allocated was released once and every
  descriptor closed.  This fails in one case and only there: no chip was given, and while the paths of the
  chips found were being built an allocation failed; then it releases a pointer that was never set.
\<close>

theorem gpiodetect_leaves_nothing:
  assumes "fd_contract (re_kernel E) fds" "scandir_contract (re_tool E) fds" "heap_ok (ts_crt s)"
    and "gpiodetect_main E prog args s = (Inr ok, s')"
  shows "if gpiodetect_parse_config prog args = Inr [] \<and> scan_gave_up E s then heap_fault (ts_crt s')
    else heap_ok (ts_crt s') \<and> live (ts_crt s') = live (ts_crt s) \<and> fds (ts_k s') = fds (ts_k s)"
proof -
  let ?all = "exec (tool_call (\<lambda>c k. case all_chip_paths (re_tool E) c k of
                    Inl e \<Rightarrow> Inl e | Inr (paths, arr, c, k) \<Rightarrow> Inr ((paths, arr), c, k))) (\<lambda>(paths, arr).
                exec (foldp (detect_path E) paths False) (\<lambda>failed.
                exec (crt_do (free_ptr arr)) (\<lambda>_. give failed)))"
  have own: "owns fds (live (ts_crt s)) (fds (ts_k s)) s" using assms(3) by (simp add: owns_def heap_is_def)
  obtain rest where rest: "gpiodetect_parse_config prog args = Inr rest"
    using assms(4) by (cases "gpiodetect_parse_config prog args") (simp_all add: gpiodetect_main_def exec_def of_tool_def)
  show ?thesis
  proof (cases "rest = []")
    case True
    with assms(4) rest obtain failed where "?all s = (Inr failed, s')"
      unfolding gpiodetect_main_def
      by (auto simp: exec_def [of "of_tool _"] of_tool_def elim!: exec_InrD) (auto simp: give_def exec_def)
    from detect_all_owns [OF assms(1,2) own this] rest True show ?thesis by (auto simp: owns_def heap_is_def)
  next
    case False
    with assms(4) rest obtain failed where "foldp (detect_arg E) rest False s = (Inr failed, s')"
      unfolding gpiodetect_main_def
      by (auto simp: exec_def [of "of_tool _"] of_tool_def elim!: exec_InrD) (auto simp: give_def)
    from tripleD [OF detect_args_owns [OF assms(1)] own this] rest False show ?thesis by (simp add: owns_def heap_is_def)
  qed
qed

theorem gpiodetect_leaves_nothing_witness:
  "(case gpiodetect_main sample_run ''gpiodetect'' [] sample_tstate of
     (r, s') \<Rightarrow> r = Inr True \<and> live (ts_crt s') = {} \<and> chip_fds (ts_k s') = {0, 1, 2})"
proof -
  let ?m = "gpiodetect_main sample_run ''gpiodetect'' [] sample_tstate"
  have kc: "fd_contract (re_kernel sample_run) chip_fds" using chip_kernel_contracts(1)
    by (simp add: sample_run_def sample_env_def)
  have sc: "scandir_contract (re_tool sample_run) chip_fds"
    by (simp add: scandir_contract_def sample_run_def sample_env_def)
  have ok: "heap_ok (ts_crt sample_tstate)" by (simp add: sample_tstate_def)
  have "fst ?m = Inr True" by code_simp
  then obtain s' where m: "?m = (Inr True, s')" by (cases ?m) simp
  have "\<not> scan_gave_up sample_run sample_tstate"
    by (simp add: scan_gave_up_def failed_between_def sample_tstate_def crt_init_def)
  with gpiodetect_leaves_nothing [OF kc sc ok m]
  have "live (ts_crt s') = live (ts_crt sample_tstate) \<and> chip_fds (ts_k s') = chip_fds (ts_k sample_tstate)" by simp
  then show ?thesis by (simp only: m prod.case) (simp add: sample_tstate_def crt_init_def chip_fds_def)
qed

end
