(* ===== verification/Gpioinfo.thy ===== *)
theory Gpioinfo
  imports Tool_Program
begin

text \<open>
  \<open>tools/gpioinfo.c\<close>: printing information about lines, all of them or the ones given.
\<close>

section \<open>Configuration\<close>

record gpioinfo_config =
  gi_by_name :: bool
  gi_strict :: bool
  gi_unquoted_strings :: bool
  gi_chip_id :: "string option"

definition gpioinfo_longopts :: "longopt list" where
  "gpioinfo_longopts = [(''by-name'', False, Code CHR ''B''), (''chip'', True, Code CHR ''c''),
     (''help'', False, Code CHR ''h''), (''strict'', False, Code CHR ''s''),
     (''unquoted'', False, Code CHR ''Q''), (''version'', False, Code CHR ''v'')]"

definition gpioinfo_option :: "string \<Rightarrow> opt \<Rightarrow> gpioinfo_config \<Rightarrow> gpioinfo_config tool" where
  "gpioinfo_option prog opt cfg =
     (if is_opt CHR ''B'' opt then Inr (cfg\<lparr>gi_by_name := True\<rparr>)
      else if is_opt CHR ''c'' opt then Inr (cfg\<lparr>gi_chip_id := Some (optarg opt)\<rparr>)
      else if is_opt CHR ''s'' opt then Inr (cfg\<lparr>gi_strict := True\<rparr>)
      else if is_opt CHR ''Q'' opt then Inr (cfg\<lparr>gi_unquoted_strings := True\<rparr>)
      else common_option prog opt cfg)"

definition gpioinfo_parse_config :: "string \<Rightarrow> string list \<Rightarrow> (gpioinfo_config \<times> string list) tool" where
  "gpioinfo_parse_config prog args =
     (case getopt_long ''+c:hsv'' gpioinfo_longopts args of
        (opts, rest) \<Rightarrow>
          set_arg (option_loop (gpioinfo_option prog) opts
            \<lparr>gi_by_name = False, gi_strict = False, gi_unquoted_strings = False, gi_chip_id = None\<rparr>)
            (\<lambda>cfg. (cfg, rest)))"

section \<open>Resolving for printing\<close>

text \<open>The body of the loop for one requested line, with the return value so far.\<close>

definition info_resolve_one :: "gpiod_line_info \<Rightarrow> int \<Rightarrow> bool \<Rightarrow> resolved_line \<Rightarrow> resolved_line \<times> bool" where
  "info_resolve_one info chip_num strict line =
     (let offset = gpiod_line_info_get_offset info;
          hit = (rl_resolved line \<and> rl_offset line = offset \<and> rl_chip_num line = chip_num)
      in
        if rl_resolved line \<and> \<not> strict then (line, hit)
        else
          (case gpiod_line_info_get_name info of
             None \<Rightarrow> (line, hit)
           | Some name \<Rightarrow>
               if strcmp_eq (rl_id line) name
               then (line\<lparr>rl_resolved := True, rl_offset := offset, rl_chip_num := chip_num\<rparr>, True)
               else (line, hit)))"

definition info_resolve_line :: "line_resolver \<Rightarrow> gpiod_line_info \<Rightarrow> int \<Rightarrow> line_resolver \<times> bool" where
  "info_resolve_line resolver info chip_num =
     (let rs = map (info_resolve_one info chip_num (rv_strict resolver)) (rv_lines resolver)
      in (resolver\<lparr>rv_lines := map fst rs\<rparr>, list_ex snd rs))"

section \<open>Printing\<close>

text \<open>\<open>%-16s\<close> and \<open>%3u\<close>.\<close>

definition pad_right :: "nat \<Rightarrow> string \<Rightarrow> string" where
  "pad_right n s = s @ replicate (n - length s) CHR '' ''"

definition pad_left :: "nat \<Rightarrow> string \<Rightarrow> string" where
  "pad_left n s = replicate (n - length s) CHR '' '' @ s"

text \<open>\<open>quoted_name\<close> is the array of 17 characters the quoted name is built in when it is short enough.\<close>

definition print_line_info :: "gpiod_line_info \<Rightarrow> bool \<Rightarrow> string" where
  "print_line_info info unquoted_strings =
     (let (name, unquoted_strings) =
            (case gpiod_line_info_get_name info of
               None \<Rightarrow> (''unnamed'', True) | Some a \<Rightarrow> (c_str a, unquoted_strings))
      in
        (if unquoted_strings then pad_right 16 name @ [CHR 9]
         else if length name \<le> 14
         then pad_right 16 (c_str (let quoted_name = (replicate 17 NUL)[0 := CHR 0x22];
                  quoted_name = take 1 quoted_name @ name @ drop (1 + length name) quoted_name;
                  quoted_name = quoted_name[length name + 1 := CHR 0x22]
                in quoted_name[length name + 2 := NUL])) @ [CHR 9]
         else [CHR 0x22] @ name @ [CHR 0x22] @ [CHR 9])
        @ print_line_attributes info unquoted_strings)"

text \<open>One round of the loop of \<open>list_lines\<close>: the information of a line that is not wanted is not released.\<close>

definition list_line :: "'k run_env \<Rightarrow> gpioinfo_config \<Rightarrow> gpiod_chip \<Rightarrow> gpiod_chip_info \<Rightarrow> nat \<Rightarrow> nat
    \<Rightarrow> line_resolver \<Rightarrow> ('k, line_resolver) prog" where
  "list_line E cfg chip chip_info chip_num offset resolver =
     (if rv_lines resolver \<noteq> [] \<and> resolve_done resolver then give resolver
      else
      exec (or_perror (''unable to read info for line '' @ decimal offset @ '' from ''
          @ c_str (gpiod_chip_info_get_name chip_info))
        (sys_call (gpiod_chip_get_line_info (re_kernel E) chip (of_nat offset)))) (\<lambda>info.
      case (if rv_lines resolver \<noteq> [] then info_resolve_line resolver (snd info) (int chip_num)
            else (resolver, True)) of
        (resolver, wanted) \<Rightarrow>
          if \<not> wanted then give resolver
          else
          exec (if rv_lines resolver \<noteq> []
                then out (c_str (gpiod_chip_info_get_name chip_info) @ '' '' @ decimal offset)
                else exec (only_if (offset = 0) (out (c_str (gpiod_chip_info_get_name chip_info) @ '' - ''
                         @ decimal (nat (int_num_lines chip_info)) @ '' lines:'' @ [CHR 10])))
                       (\<lambda>_. out ([CHR 9] @ ''line '' @ pad_left 3 (decimal offset) @ '':''))) (\<lambda>_.
          exec (out ([CHR 9] @ print_line_info (snd info) (gi_unquoted_strings cfg) @ [CHR 10])) (\<lambda>_.
          exec (crt_do (gpiod_line_info_free info)) (\<lambda>_.
          give (resolver\<lparr>rv_num_found := rv_num_found resolver + 1\<rparr>))))))"

definition list_lines :: "'k run_env \<Rightarrow> gpioinfo_config \<Rightarrow> line_resolver \<Rightarrow> gpiod_chip \<Rightarrow> nat
    \<Rightarrow> ('k, line_resolver) prog" where
  "list_lines E cfg resolver chip chip_num =
     exec (or_perror (''unable to read info from chip '' @ gpiod_chip_get_path chip)
       (sys_call (gpiod_chip_get_info (re_kernel E) chip))) (\<lambda>chip_info.
     let num_lines = int_num_lines (snd chip_info);
         resolver = (if chip_num = 0 \<and> gi_chip_id cfg \<noteq> None \<and> \<not> gi_by_name cfg
           then fst (resolve_lines_by_offset resolver num_lines) else resolver)
     in
       exec (foldp (list_line E cfg chip (snd chip_info) chip_num) [0..<nat num_lines] resolver) (\<lambda>resolver.
       exec (crt_do (gpiod_chip_info_free chip_info)) (\<lambda>_. give resolver)))"

section \<open>The program\<close>

text \<open>
  The loop over the chips, with the flag for \<open>EXIT_FAILURE\<close>.  A chip that cannot be opened ends the
  program when it was asked for.
\<close>

definition gpioinfo_chip :: "'k run_env \<Rightarrow> gpioinfo_config \<Rightarrow> nat \<times> string obj \<Rightarrow> line_resolver \<times> bool
    \<Rightarrow> ('k, line_resolver \<times> bool) prog" where
  "gpioinfo_chip E cfg entry st =
     (case entry of (i, path) \<Rightarrow> case st of (resolver, failed) \<Rightarrow>
      exec (sys_call (gpiod_chip_open (re_kernel E) (Some (snd path)))) (\<lambda>chip.
      exec (case chip of
              Some chip \<Rightarrow>
                exec (list_lines E cfg resolver (snd chip) i) (\<lambda>resolver.
                exec (sys_do (gpiod_chip_close (re_kernel E) (Some chip))) (\<lambda>_. give (resolver, failed)))
            | None \<Rightarrow>
                exec (print_perror (''unable to open chip '' @ [CHR 0x27] @ snd path @ [CHR 0x27])) (\<lambda>_.
                if gi_chip_id cfg \<noteq> None then of_tool (Inl (Exited False)) else give (resolver, True))) (\<lambda>st.
      exec (crt_do (free_obj path)) (\<lambda>_. give st))))"

definition gpioinfo_main :: "'k run_env \<Rightarrow> string \<Rightarrow> string list \<Rightarrow> ('k, bool) prog" where
  "gpioinfo_main E prog args =
     exec (of_tool (gpioinfo_parse_config prog args)) (\<lambda>(cfg, lines).
     let cfg = (if gi_chip_id cfg = None then cfg\<lparr>gi_by_name := True\<rparr> else cfg) in
     exec (tool_call (\<lambda>c k. case chip_paths (re_tool E) (gi_chip_id cfg) c k of
         Inl e \<Rightarrow> Inl e | Inr (paths, arr, c, k) \<Rightarrow> Inr ((paths, arr), c, k))) (\<lambda>(paths, arr).
     if gi_chip_id cfg \<noteq> None \<and> length paths = 0
     then quit (''cannot find GPIO chip character device '' @ [CHR 0x27] @ the (gi_chip_id cfg) @ [CHR 0x27])
     else
     exec (tool_call (\<lambda>c k. case resolver_init lines (length paths) (gi_strict cfg) (gi_by_name cfg) c of
         Inl e \<Rightarrow> Inl e | Inr (p, c) \<Rightarrow> Inr (p, c, k))) (\<lambda>resolver.
     exec (foldp (gpioinfo_chip E cfg) (zip [0..<length paths] paths) (snd resolver, False)) (\<lambda>(rv, failed).
     exec (crt_do (free_ptr arr)) (\<lambda>_.
     exec (of_tool (validate_resolution rv (gi_chip_id cfg))) (\<lambda>_.
     exec (crt_do (free (fst resolver))) (\<lambda>_.
     give (\<not> (failed \<or> (lines \<noteq> [] \<and> rv_num_found rv \<noteq> length lines))))))))))"

section \<open>What is listed\<close>

definition listing_header :: "gpiod_chip_info \<Rightarrow> string" where
  "listing_header chip_info = c_str (gpiod_chip_info_get_name chip_info) @ '' - ''
     @ decimal (nat (int_num_lines chip_info)) @ '' lines:'' @ [CHR 10]"

definition listing_row :: "gpioinfo_config \<Rightarrow> nat \<Rightarrow> gpiod_line_info \<Rightarrow> string" where
  "listing_row cfg off info = [CHR 9] @ ''line '' @ pad_left 3 (decimal off) @ '':''
     @ [CHR 9] @ print_line_info info (gi_unquoted_strings cfg) @ [CHR 10]"

text \<open>
  The informations a reader of the chip gets that asks the system for the lines with the given offsets, one after
  the other, and releases each; \<open>None\<close> if one cannot be read.
\<close>

fun read_infos :: "'k kernel \<Rightarrow> gpiod_chip \<Rightarrow> nat list \<Rightarrow> crt \<Rightarrow> 'k \<Rightarrow> gpiod_line_info list option" where
  "read_infos K chip [] c k = Some []"
| "read_infos K chip (off # offs) c k =
     (case gpiod_chip_get_line_info K chip (of_nat off) c k of
        (None, c, k) \<Rightarrow> None
      | (Some info, c, k) \<Rightarrow> map_option ((#) (snd info)) (read_infos K chip offs (gpiod_line_info_free info c) k))"

definition listing_rows :: "gpioinfo_config \<Rightarrow> nat list \<Rightarrow> gpiod_line_info list \<Rightarrow> string" where
  "listing_rows cfg offs infos = concat (map2 (listing_row cfg) offs infos)"

lemma list_line_prints:
  assumes none: "rv_lines rv = []" and run: "list_line E cfg chip chip_info num off rv s = (Inr rv', s')"
  obtains info c k where
    "gpiod_chip_get_line_info (re_kernel E) chip (of_nat off) (ts_crt s) (ts_k s) = (Some info, c, k)"
    "rv_lines rv' = []" "ts_crt s' = gpiod_line_info_free info c" "ts_k s' = k"
    "ts_out s' = ts_out s @ (if off = 0 then listing_header chip_info else []) @ listing_row cfg off (snd info)"
proof -
  obtain r c k where gi: "gpiod_chip_get_line_info (re_kernel E) chip (of_nat off) (ts_crt s) (ts_k s) = (r, c, k)"
    by (rule prod_cases3)
  then obtain info where r: "r = Some info"
    using run none by (cases r) (auto simp: list_line_def prog_defs die_perror_def)
  show thesis
    by (rule that [OF gi [unfolded r]])
      (use run none in \<open>auto simp: list_line_def prog_defs gi r listing_header_def listing_row_def split: if_splits\<close>)
qed

lemma list_line_loop_prints:
  "rv_lines rv = [] \<Longrightarrow> \<forall>off \<in> set offs. 0 < off \<Longrightarrow>
    foldp (list_line E cfg chip chip_info num) offs rv s = (Inr rv', s') \<Longrightarrow>
    \<exists>infos. read_infos (re_kernel E) chip offs (ts_crt s) (ts_k s) = Some infos
      \<and> ts_out s' = ts_out s @ listing_rows cfg offs infos"
proof (induction offs arbitrary: rv s)
  case (Cons off offs)
  obtain rv1 s1 where one: "list_line E cfg chip chip_info num off rv s = (Inr rv1, s1)"
    and rest: "foldp (list_line E cfg chip chip_info num) offs rv1 s1 = (Inr rv', s')"
    using Cons.prems(3) by (auto elim: exec_InrD)
  from Cons.prems(1) one show ?case
  proof (rule list_line_prints)
    fix info c k
    assume i: "gpiod_chip_get_line_info (re_kernel E) chip (of_nat off) (ts_crt s) (ts_k s) = (Some info, c, k)"
      "rv_lines rv1 = []" "ts_crt s1 = gpiod_line_info_free info c" "ts_k s1 = k"
      "ts_out s1 = ts_out s @ (if off = 0 then listing_header chip_info else []) @ listing_row cfg off (snd info)"
    from Cons.IH [OF i(2) _ rest] Cons.prems(2) obtain infos where
      "read_infos (re_kernel E) chip offs (ts_crt s1) (ts_k s1) = Some infos"
      "ts_out s' = ts_out s1 @ listing_rows cfg offs infos" by auto
    with i Cons.prems(2) show ?thesis by (intro exI [of _ "snd info # infos"]) (simp add: listing_rows_def)
  qed
qed (simp add: give_def listing_rows_def)

text \<open>
  C18: \<open>gpioinfo\<close> lists every line.  When no lines are asked for and \<open>list_lines\<close> returns, it has printed the
  header of the chip (for a chip with at least one line) and then one row for each offset below the
  number of lines of the chip, in order; the row of an offset has that offset and the information the system
  gives when it is asked for that line; nothing else is printed.
\<close>

theorem list_lines_complete:
  assumes none: "rv_lines rv = []" and run: "list_lines E cfg rv chip num s = (Inr rv', s')"
  shows "\<exists>ci c1 k1 infos. gpiod_chip_get_info (re_kernel E) chip (ts_crt s) (ts_k s) = (Some ci, c1, k1)
    \<and> read_infos (re_kernel E) chip [0..<nat (int_num_lines (snd ci))] c1 k1 = Some infos
    \<and> ts_out s' = ts_out s @ (if infos = [] then [] else listing_header (snd ci))
        @ listing_rows cfg [0..<nat (int_num_lines (snd ci))] infos"
proof -
  obtain r c1 k1 where gi: "gpiod_chip_get_info (re_kernel E) chip (ts_crt s) (ts_k s) = (r, c1, k1)"
    by (rule prod_cases3)
  then obtain ci where r: "r = Some ci"
    using run by (cases r) (auto simp: list_lines_def prog_defs die_perror_def)
  let ?n = "nat (int_num_lines (snd ci))"
  define rv0 where "rv0 = (if num = 0 \<and> gi_chip_id cfg \<noteq> None \<and> \<not> gi_by_name cfg
      then fst (resolve_lines_by_offset rv (int_num_lines (snd ci))) else rv)"
  define s1 where "s1 = s\<lparr>ts_crt := c1, ts_k := k1\<rparr>"
  have none0: "rv_lines rv0 = []" using none by (simp add: rv0_def resolve_lines_by_offset_def)
  obtain rv2 s2 where loop: "foldp (list_line E cfg chip (snd ci) num) [0..<?n] rv0 s1 = (Inr rv2, s2)"
    and s': "ts_out s' = ts_out s2"
    using run by (auto simp: list_lines_def Let_def or_perror_def exec_def [of "sys_call _"] exec_def [of "exec _ _"]
        sys_call_def gi r give_def rv0_def s1_def crt_do_def elim!: exec_InrD)
  show ?thesis
  proof (cases ?n)
    case 0
    with loop s' gi r show ?thesis
      by (intro exI [of _ ci] exI [of _ c1] exI [of _ k1] exI [of _ "[]"]) (auto simp: give_def s1_def listing_rows_def)
  next
    case (Suc m)
    have upt: "[0..<?n] = 0 # [1..<?n]" using Suc by (simp add: upt_rec)
    obtain rv3 s3 where first: "list_line E cfg chip (snd ci) num 0 rv0 s1 = (Inr rv3, s3)"
      and rest: "foldp (list_line E cfg chip (snd ci) num) [1..<?n] rv3 s3 = (Inr rv2, s2)"
      using loop unfolding upt by (auto elim: exec_InrD)
    from none0 first show ?thesis
    proof (rule list_line_prints)
      fix info c k
      assume i: "gpiod_chip_get_line_info (re_kernel E) chip (of_nat 0) (ts_crt s1) (ts_k s1) = (Some info, c, k)"
        "rv_lines rv3 = []" "ts_crt s3 = gpiod_line_info_free info c" "ts_k s3 = k"
        "ts_out s3 = ts_out s1 @ (if 0 = (0 :: nat) then listing_header (snd ci) else []) @ listing_row cfg 0 (snd info)"
      from list_line_loop_prints [OF i(2) _ rest] obtain infos where
        "read_infos (re_kernel E) chip [1..<?n] (ts_crt s3) (ts_k s3) = Some infos"
        "ts_out s2 = ts_out s3 @ listing_rows cfg [1..<?n] infos" by auto
      with i s' gi r show ?thesis
        by (intro exI [of _ ci] exI [of _ c1] exI [of _ k1] exI [of _ "snd info # infos"])
          (simp add: upt s1_def listing_rows_def del: upt_Suc)
    qed
  qed
qed

text \<open>A chip with one line.\<close>

definition one_line_run :: "nat list run_env" where
  "one_line_run = sample_run\<lparr>re_tool := sample_env\<lparr>te_kernel := chip_kernel\<lparr>k_chipinfo :=
     (\<lambda>_ info k. (Inr (0, info\<lparr>ci_name := ''gpiochip0'' @ replicate 23 NUL, ci_lines := 1\<rparr>), k))\<rparr>\<rparr>\<rparr>"

definition plain_listing :: gpioinfo_config where
  "plain_listing = \<lparr>gi_by_name = False, gi_strict = False, gi_unquoted_strings = False, gi_chip_id = None\<rparr>"

theorem list_lines_complete_witness:
  "\<exists>ci info. ts_out (snd (list_lines one_line_run plain_listing (sample_lines\<lparr>rv_lines := []\<rparr>)
      \<lparr>chip_fd = 5, chip_path = (1, ''/dev/gpiochip0'')\<rparr> 0 sample_tstate))
    = listing_header ci @ listing_row plain_listing 0 info \<and> gpiod_line_info_get_offset info = 0"
proof -
  let ?chip = "\<lparr>chip_fd = 5, chip_path = (1, ''/dev/gpiochip0'')\<rparr>"
  let ?K = "re_kernel one_line_run"
  let ?m = "list_lines one_line_run plain_listing (sample_lines\<lparr>rv_lines := []\<rparr>) ?chip 0 sample_tstate"
  have "case fst ?m of Inl e \<Rightarrow> False | Inr rv \<Rightarrow> True" by code_simp
  then obtain rv' s' where m: "?m = (Inr rv', s')" by (cases ?m; cases "fst ?m") auto
  from list_lines_complete [OF _ m] obtain ci c1 k1 infos where
    ci: "gpiod_chip_get_info ?K ?chip (ts_crt sample_tstate) (ts_k sample_tstate) = (Some ci, c1, k1)"
    and infos: "read_infos ?K ?chip [0..<nat (int_num_lines (snd ci))] c1 k1 = Some infos"
    and o: "ts_out s' = (if infos = [] then [] else listing_header (snd ci))
      @ listing_rows plain_listing [0..<nat (int_num_lines (snd ci))] infos"
    by (auto simp: sample_tstate_def)
  have "case gpiod_chip_get_info ?K ?chip (ts_crt sample_tstate) (ts_k sample_tstate) of
      (None, c, k) \<Rightarrow> False
    | (Some ci, c, k) \<Rightarrow> nat (int_num_lines (snd ci)) = 1 \<and> (case read_infos ?K ?chip [0] c k of
        Some [info] \<Rightarrow> gpiod_line_info_get_offset info = 0 | _ \<Rightarrow> False)" by code_simp
  with ci infos obtain info where n: "nat (int_num_lines (snd ci)) = 1" "infos = [info]" "gpiod_line_info_get_offset info = 0"
    by (auto split: option.splits list.splits)
  show ?thesis unfolding m snd_conv using o n by (intro exI [of _ "snd ci"] exI [of _ info]) (simp add: listing_rows_def)
qed

end
