(* ===== verification/Gpioset.thy ===== *)
theory Gpioset
  imports Tool_Program
begin

text \<open>
  \<open>tools/gpioset.c\<close>, built with \<open>GPIOSET_INTERACTIVE\<close>: setting lines to values, with hold periods, toggle
  sequences and an interactive mode.  The loops that may run forever (the toggle sequence and the
  interactive loop) are partial functions; \<open>None\<close> is a run that does not end.
\<close>

section \<open>Configuration\<close>

text \<open>
  \<open>bias\<close> and \<open>drive\<close> are \<open>None\<close> for the zero that stands for no choice; \<open>toggles\<close> is the length of
  \<open>toggle_periods\<close>, which is \<open>None\<close> for \<open>NULL\<close>.
\<close>

record gpioset_config =
  gs_active_low :: bool
  gs_banner :: bool
  gs_by_name :: bool
  gs_daemonize :: bool
  gs_interactive :: bool
  gs_strict :: bool
  gs_unquoted :: bool
  gs_bias :: "gpiod_line_bias option"
  gs_drive :: "gpiod_line_drive option"
  gs_toggle_periods :: "u32 list obj option"
  gs_hold_period_us :: u32
  gs_chip_id :: "string option"
  gs_consumer :: string

definition gs_toggles :: "gpioset_config \<Rightarrow> nat" where
  "gs_toggles cfg = (case gs_toggle_periods cfg of None \<Rightarrow> 0 | Some p \<Rightarrow> length (snd p))"

definition parse_drive_or_die :: "string \<Rightarrow> gpiod_line_drive option tool" where
  "parse_drive_or_die option =
     (if option = ''open-drain'' then Inr (Some GPIOD_LINE_DRIVE_OPEN_DRAIN)
      else if option = ''open-source'' then Inr (Some GPIOD_LINE_DRIVE_OPEN_SOURCE)
      else if option \<noteq> ''push-pull'' then die (''invalid drive: '' @ option)
      else Inr None)"

text \<open>The loop over the periods but the last, each up to the next comma, and the last one.\<close>

fun parse_periods_loop :: "nat \<Rightarrow> string \<Rightarrow> u32 list tool" where
  "parse_periods_loop 0 option = set_arg (parse_period_or_die option) (\<lambda>p. [p])"
| "parse_periods_loop (Suc n) option =
     (case parse_period_or_die (takeWhile (\<lambda>ch. ch \<noteq> CHR '','') option) of
        Inl e \<Rightarrow> Inl e
      | Inr p \<Rightarrow>
          set_arg (parse_periods_loop n (drop 1 (dropWhile (\<lambda>ch. ch \<noteq> CHR '','') option))) (\<lambda>ps. p # ps))"

definition parse_periods_or_die :: "string \<Rightarrow> crt \<Rightarrow> (u32 list obj \<times> crt) tool" where
  "parse_periods_or_die option c =
     (let num_periods = 1 + length (filter (\<lambda>ch. ch = CHR '','') option) in
      case malloc c of
        (None, c) \<Rightarrow> die ''out of memory''
      | (Some pp, c) \<Rightarrow> set_arg (parse_periods_loop (num_periods - 1) option) (\<lambda>ps. ((pp, ps), c)))"

definition gpioset_longopts :: "longopt list" where
  "gpioset_longopts = [(''active-low'', False, Code CHR ''l''), (''banner'', False, Code CHR ''-''),
     (''bias'', True, Code CHR ''b''), (''by-name'', False, Code CHR ''B''), (''chip'', True, Code CHR ''c''),
     (''consumer'', True, Code CHR ''C''), (''daemonize'', False, Code CHR ''z''),
     (''drive'', True, Code CHR ''d''), (''help'', False, Code CHR ''h''),
     (''hold-period'', True, Code CHR ''p''), (''interactive'', False, Code CHR ''i''),
     (''strict'', False, Code CHR ''s''), (''toggle'', True, Code CHR ''t''),
     (''unquoted'', False, Code CHR ''Q''), (''version'', False, Code CHR ''v'')]"

definition gpioset_default :: gpioset_config where
  "gpioset_default = \<lparr>gs_active_low = False, gs_banner = False, gs_by_name = False, gs_daemonize = False,
     gs_interactive = False, gs_strict = False, gs_unquoted = False, gs_bias = None, gs_drive = None,
     gs_toggle_periods = None, gs_hold_period_us = 0, gs_chip_id = None, gs_consumer = ''gpioset''\<rparr>"

text \<open>The switch over \<open>optc\<close>; \<open>-t\<close> allocates.\<close>

definition gpioset_option :: "string \<Rightarrow> opt \<Rightarrow> gpioset_config \<times> crt \<Rightarrow> (gpioset_config \<times> crt) tool" where
  "gpioset_option prog opt st =
     (case st of (cfg, c) \<Rightarrow>
      if is_opt CHR ''-'' opt then Inr (cfg\<lparr>gs_banner := True\<rparr>, c)
      else if is_opt CHR ''b'' opt
      then set_arg (parse_bias_or_die (optarg opt)) (\<lambda>b. (cfg\<lparr>gs_bias := Some b\<rparr>, c))
      else if is_opt CHR ''B'' opt then Inr (cfg\<lparr>gs_by_name := True\<rparr>, c)
      else if is_opt CHR ''c'' opt then Inr (cfg\<lparr>gs_chip_id := Some (optarg opt)\<rparr>, c)
      else if is_opt CHR ''C'' opt then Inr (cfg\<lparr>gs_consumer := optarg opt\<rparr>, c)
      else if is_opt CHR ''d'' opt
      then set_arg (parse_drive_or_die (optarg opt)) (\<lambda>d. (cfg\<lparr>gs_drive := d\<rparr>, c))
      else if is_opt CHR ''i'' opt then Inr (cfg\<lparr>gs_interactive := True\<rparr>, c)
      else if is_opt CHR ''l'' opt then Inr (cfg\<lparr>gs_active_low := True\<rparr>, c)
      else if is_opt CHR ''p'' opt
      then set_arg (parse_period_or_die (optarg opt)) (\<lambda>p. (cfg\<lparr>gs_hold_period_us := p\<rparr>, c))
      else if is_opt CHR ''Q'' opt then Inr (cfg\<lparr>gs_unquoted := True\<rparr>, c)
      else if is_opt CHR ''s'' opt then Inr (cfg\<lparr>gs_strict := True\<rparr>, c)
      else if is_opt CHR ''t'' opt
      then set_arg (parse_periods_or_die (optarg opt) c) (\<lambda>(ps, c). (cfg\<lparr>gs_toggle_periods := Some ps\<rparr>, c))
      else if is_opt CHR ''z'' opt then Inr (cfg\<lparr>gs_daemonize := True\<rparr>, c)
      else common_option prog opt (cfg, c))"

definition gpioset_parse_config :: "string \<Rightarrow> string list \<Rightarrow> crt \<Rightarrow> ((gpioset_config \<times> string list) \<times> crt) tool" where
  "gpioset_parse_config prog args c =
     (case getopt_long ''+b:c:C:d:hilp:st:vz'' gpioset_longopts args of
        (opts, rest) \<Rightarrow>
          (case option_loop (gpioset_option prog) opts (gpioset_default, c) of
             Inl e \<Rightarrow> Inl e
           | Inr (cfg, c) \<Rightarrow>
               if gs_toggles cfg \<noteq> 0 \<and> gs_interactive cfg
               then die (''can'' @ [CHR 0x27] @ ''t combine interactive with toggle'')
               else Inr ((cfg, rest), c)))"

section \<open>Values\<close>

definition parse_value :: "string \<Rightarrow> gpiod_line_value" where
  "parse_value option =
     (if option = ''0'' then GPIOD_LINE_VALUE_INACTIVE
      else if option = ''1'' then GPIOD_LINE_VALUE_ACTIVE
      else if option = ''inactive'' then GPIOD_LINE_VALUE_INACTIVE
      else if option = ''active'' then GPIOD_LINE_VALUE_ACTIVE
      else if option = ''off'' then GPIOD_LINE_VALUE_INACTIVE
      else if option = ''on'' then GPIOD_LINE_VALUE_ACTIVE
      else if option = ''false'' then GPIOD_LINE_VALUE_INACTIVE
      else if option = ''true'' then GPIOD_LINE_VALUE_ACTIVE
      else GPIOD_LINE_VALUE_ERROR)"

text \<open>\<open>strstr\<close>: the position of the first occurrence.\<close>

fun strstr :: "string \<Rightarrow> string \<Rightarrow> nat option" where
  "strstr [] needle = (if needle = [] then Some 0 else None)"
| "strstr (ch # chs) needle =
     (if take (length needle) (ch # chs) = needle then Some 0 else map_option Suc (strstr chs needle))"

text \<open>The two strings a word is cut into: the line and the text of the value.\<close>

definition split_line_value :: "string \<Rightarrow> (string \<times> string) option" where
  "split_line_value word =
     (if take 1 word \<noteq> [CHR 0x22]
      then (case strstr word ''='' of
              None \<Rightarrow> None | Some n \<Rightarrow> Some (take n word, drop (n + 1) word))
      else
        let line = drop 1 word in
        (case strstr line [CHR 0x22, CHR ''=''] of
           None \<Rightarrow> None | Some n \<Rightarrow> Some (take n line, drop (n + 2) line)))"

text \<open>
  The loop of \<open>parse_line_values\<close> from position \<open>i\<close> on; the arrays are written as far as it gets, and
  \<open>Some\<close> is the text of the message with which it returns \<open>false\<close>.
\<close>

fun parse_line_values :: "nat \<Rightarrow> string list \<Rightarrow> string list \<Rightarrow> gpiod_line_value list
    \<Rightarrow> string option \<times> string list \<times> gpiod_line_value list" where
  "parse_line_values i [] lines vals = (None, lines, vals)"
| "parse_line_values i (lv # lvs) lines vals =
     (case split_line_value lv of
        None \<Rightarrow> (Some (''invalid line value: '' @ [CHR 0x27] @ lv @ [CHR 0x27]), lines, vals)
      | Some (line, text) \<Rightarrow>
          let v = parse_value text; vals = vals[i := v] in
          if v = GPIOD_LINE_VALUE_ERROR
          then (Some (''invalid line value: '' @ [CHR 0x27] @ text @ [CHR 0x27]), lines, vals)
          else parse_line_values (Suc i) lvs (lines[i := line]) vals)"

definition parse_line_values_or_die ::
    "string list \<Rightarrow> string list \<Rightarrow> gpiod_line_value list \<Rightarrow> ('k, string list \<times> gpiod_line_value list) prog" where
  "parse_line_values_or_die lvs lines vals =
     (case parse_line_values 0 lvs lines vals of
        (Some msg, _) \<Rightarrow> exec (print_error msg) (\<lambda>_. of_tool (Inl (Exited False)))
      | (None, lines, vals) \<Rightarrow> give (lines, vals))"

definition gpioset_print_banner :: "string list \<Rightarrow> string" where
  "gpioset_print_banner lines = banner_text ''Setting'' lines"

definition wait_fd :: "'k run_env \<Rightarrow> int \<Rightarrow> ('k, unit) prog" where
  "wait_fd E fd =
     exec (sys_call (poll E [fd] (-1))) (\<lambda>r.
     if r = None then quit_perror ''error waiting on request'' else give ())"

text \<open>The scratch arrays are handed on from chip to chip.\<close>

definition apply_chip :: "'k run_env \<Rightarrow> gpiod_line_request obj list \<Rightarrow> line_resolver \<Rightarrow> nat
    \<Rightarrow> u32 list \<times> gpiod_line_value list \<Rightarrow> ('k, u32 list \<times> gpiod_line_value list) prog" where
  "apply_chip E requests resolver i st =
     (case get_line_offsets_and_values resolver (int i) (fst st) (Some (snd st)) of
        (_, offsets, vals) \<Rightarrow>
          exec (sys_call (gpiod_line_request_set_values (re_kernel E) (snd (requests ! i)) vals)) (\<lambda>ret.
          exec (only_if (ret \<noteq> 0)
            (print_perror (''unable to set values on '' @ [CHR 0x27] @ get_chip_name resolver i @ [CHR 0x27]))) (\<lambda>_.
          give (offsets, the vals))))"

definition apply_values :: "'k run_env \<Rightarrow> gpiod_line_request obj list \<Rightarrow> line_resolver
    \<Rightarrow> u32 list \<times> gpiod_line_value list \<Rightarrow> ('k, u32 list \<times> gpiod_line_value list) prog" where
  "apply_values E requests resolver st =
     foldp (apply_chip E requests resolver) [0..<rv_num_chips resolver] st"

definition toggle_value :: "resolved_line \<Rightarrow> resolved_line" where
  "toggle_value line = line\<lparr>rl_value := (if rl_value line = 0 then 1 else 0)\<rparr>"

definition toggle_all_lines :: "line_resolver \<Rightarrow> line_resolver" where
  "toggle_all_lines resolver = resolver\<lparr>rv_lines := map toggle_value (rv_lines resolver)\<rparr>"

section \<open>The toggle sequence\<close>

text \<open>The state of the loop: the resolver and the scratch arrays.\<close>

type_synonym toggle_state = "line_resolver \<times> u32 list \<times> gpiod_line_value list"

definition toggle_step :: "'k run_env \<Rightarrow> gpiod_line_request obj list \<Rightarrow> u32 \<Rightarrow> toggle_state \<Rightarrow> ('k, toggle_state) prog" where
  "toggle_step E requests period st =
     exec (kernel_do (re_usleep E period)) (\<lambda>_.
     let resolver = toggle_all_lines (fst st) in
     exec (apply_values E requests resolver (snd st)) (\<lambda>arrays. give (resolver, arrays)))"

partial_function (option) toggle_loop :: "'k run_env \<Rightarrow> u32 list \<Rightarrow> gpiod_line_request obj list \<Rightarrow> nat
    \<Rightarrow> toggle_state \<Rightarrow> 'k tstate \<Rightarrow> (toggle_state tool \<times> 'k tstate) option" where
  "toggle_loop E periods requests i st s =
     (case toggle_step E requests (periods ! i) st s of
        (Inl e, s) \<Rightarrow> Some (Inl e, s)
      | (Inr st, s) \<Rightarrow>
          if Suc i = length periods - 1 \<and> periods ! Suc i = 0 then Some (Inr st, s)
          else toggle_loop E periods requests (if Suc i = length periods then 0 else Suc i) st s)"

definition toggle_sequence :: "'k run_env \<Rightarrow> u32 list \<Rightarrow> gpiod_line_request obj list
    \<Rightarrow> toggle_state \<Rightarrow> ('k, toggle_state) run" where
  "toggle_sequence E periods requests st s =
     (if length periods = 1 \<and> periods ! 0 = 0 then Some (Inr st, s)
      else toggle_loop E periods requests 0 st s)"

text \<open>The periods are raised to the hold period, but for a final zero.\<close>

definition hold_periods :: "u32 \<Rightarrow> u32 list \<Rightarrow> u32 list" where
  "hold_periods hold periods =
     map (\<lambda>i. if hold > periods ! i \<and> (i \<noteq> length periods - 1 \<or> periods ! i \<noteq> 0) then hold else periods ! i)
       [0..<length periods]"

section \<open>Interactive mode\<close>

text \<open>The loop of \<open>parse_line_ids\<close> from position \<open>i\<close> on; \<open>Some\<close> is the message of a failure.\<close>

definition unquote_id :: "string \<Rightarrow> string option" where
  "unquote_id word =
     (if take 1 word = [CHR 0x22]
      then let line = drop 1 word in
        if line = [] \<or> last line \<noteq> CHR 0x22 then None else Some (butlast line)
      else Some word)"

fun parse_line_ids :: "nat \<Rightarrow> string list \<Rightarrow> string list \<Rightarrow> string option \<times> string list" where
  "parse_line_ids i [] lines = (None, lines)"
| "parse_line_ids i (word # words) lines =
     (case unquote_id word of
        None \<Rightarrow> (Some (''invalid line id: '' @ [CHR 0x27] @ word @ [CHR 0x27] @ [CHR 10]), lines)
      | Some line \<Rightarrow> parse_line_ids (Suc i) words (lines[i := line]))"

text \<open>The inner loop with a \<open>break\<close> at the first line of that identifier.\<close>

fun update_line :: "string \<Rightarrow> (resolved_line \<Rightarrow> resolved_line) \<Rightarrow> resolved_line list \<Rightarrow> resolved_line list" where
  "update_line ident f [] = []"
| "update_line ident f (line # lines) =
     (if ident = rl_id line then f line # lines else line # update_line ident f lines)"

fun set_subset_loop :: "string list \<Rightarrow> gpiod_line_value list \<Rightarrow> resolved_line list \<Rightarrow> resolved_line list" where
  "set_subset_loop [] vals lines = lines"
| "set_subset_loop (ident # idents) vals lines =
     set_subset_loop idents (tl vals)
       (update_line ident (\<lambda>line. line\<lparr>rl_value := line_value_int (hd vals)\<rparr>) lines)"

definition set_line_values_subset :: "line_resolver \<Rightarrow> string list \<Rightarrow> gpiod_line_value list \<Rightarrow> line_resolver" where
  "set_line_values_subset resolver idents vals =
     resolver\<lparr>rv_lines := set_subset_loop idents vals (rv_lines resolver)\<rparr>"

definition line_assignment :: "bool \<Rightarrow> resolved_line \<Rightarrow> string" where
  "line_assignment unquoted line =
     (if unquoted then rl_id line else [CHR 0x22] @ rl_id line @ [CHR 0x22])
     @ ''='' @ (if rl_value line \<noteq> 0 then ''active'' else ''inactive'')"

text \<open>The text ends with a newline after the last line and a blank after the others.\<close>

fun print_all_lines_loop :: "bool \<Rightarrow> resolved_line list \<Rightarrow> string" where
  "print_all_lines_loop unquoted [] = []"
| "print_all_lines_loop unquoted (line # lines) =
     line_assignment unquoted line @ (if lines = [] then [CHR 10] else '' '') @ print_all_lines_loop unquoted lines"

definition print_all_line_values :: "line_resolver \<Rightarrow> bool \<Rightarrow> string" where
  "print_all_line_values resolver unquoted = print_all_lines_loop unquoted (rv_lines resolver)"

fun print_line_values :: "line_resolver \<Rightarrow> string list \<Rightarrow> bool \<Rightarrow> string" where
  "print_line_values resolver [] unquoted = []"
| "print_line_values resolver (ident # idents) unquoted =
     (case find (\<lambda>line. ident = rl_id line) (rv_lines resolver) of
        None \<Rightarrow> []
      | Some line \<Rightarrow> line_assignment unquoted line @ (if idents = [] then [CHR 10] else '' ''))
     @ print_line_values resolver idents unquoted"

definition toggle_lines :: "line_resolver \<Rightarrow> string list \<Rightarrow> line_resolver" where
  "toggle_lines resolver idents =
     resolver\<lparr>rv_lines := fold (\<lambda>ident. update_line ident toggle_value) idents (rv_lines resolver)\<rparr>"

text \<open>The result and the messages printed.\<close>

definition valid_lines :: "line_resolver \<Rightarrow> string list \<Rightarrow> bool \<times> string" where
  "valid_lines resolver idents =
     (let unknown = filter (\<lambda>ident. \<not> list_ex (\<lambda>line. ident = rl_id line) (rv_lines resolver)) idents
      in (unknown = [], concat (map (\<lambda>ident. ''unknown line: '' @ [CHR 0x27] @ ident @ [CHR 0x27, CHR 10]) unknown)))"

text \<open>The state machine of \<open>split_words\<close>, with the word being read; all words are counted.\<close>

fun split_words_loop :: "string \<Rightarrow> bool \<Rightarrow> bool \<Rightarrow> string \<Rightarrow> string list" where
  "split_words_loop [] in_word in_quotes word = (if in_word then [word] else [])"
| "split_words_loop (ch # line) in_word in_quotes word =
     (if \<not> in_word
      then (if isspace ch then split_words_loop line False in_quotes []
            else split_words_loop line True (ch = CHR 0x22) [ch])
      else if in_quotes then split_words_loop line True (ch \<noteq> CHR 0x22) (word @ [ch])
      else if isspace ch then word # split_words_loop line False False []
      else split_words_loop line True False (word @ [ch]))"

definition split_words :: "string \<Rightarrow> string list" where
  "split_words line = split_words_loop line False False []"

subsection \<open>Completion\<close>

text \<open>A character of a string that ends with a null character.\<close>

definition char_at :: "string \<Rightarrow> nat \<Rightarrow> char" where
  "char_at s i = (if i < length s then s ! i else NUL)"

lemma strstr_bound: "strstr s needle = Some n \<Longrightarrow> n + length needle \<le> length s"
proof (induction s needle arbitrary: n rule: strstr.induct)
  case (2 ch chs needle)
  then show ?case by (auto split: if_splits dest!: arg_cong [where f = length])
qed (auto split: if_splits)

text \<open>
  The loop over the matches of an identifier, from a position on.  For an empty identifier the loop
  does not advance, and then never ends: \<open>None\<close>.
\<close>

function in_line_buffer_from :: "string \<Rightarrow> string \<Rightarrow> nat \<Rightarrow> bool option" where
  "in_line_buffer_from buf ident pos =
     (case strstr (drop pos buf) ident of
        None \<Rightarrow> Some False
      | Some n \<Rightarrow>
          if pos + n > 0 \<and> isspace (char_at buf (pos + n - 1))
            \<and> (char_at buf (pos + n + length ident) = CHR ''='' \<or> isspace (char_at buf (pos + n + length ident)))
          then Some True
          else if ident = [] then None
          else in_line_buffer_from buf ident (pos + n + length ident))"
  by pat_completeness auto
termination
proof (relation "measure (\<lambda>(buf, ident, pos). length buf - pos)")
  fix buf ident :: string and pos n
  assume "strstr (drop pos buf) ident = Some n" "ident \<noteq> []"
  then have "n + length ident \<le> length buf - pos" "0 < length ident" using strstr_bound by fastforce+
  then have "length buf - (pos + n + length ident) < length buf - pos" by arith
  then show "((buf, ident, pos + n + length ident), buf, ident, pos) \<in> measure (\<lambda>(buf, ident, pos). length buf - pos)"
    by simp
qed simp

definition in_line_buffer :: "string \<Rightarrow> string \<Rightarrow> bool option" where
  "in_line_buffer rl_line_buffer ident = in_line_buffer_from rl_line_buffer ident 0"

text \<open>
  A completion function is called with \<open>state\<close> zero for the first match and then for each further one;
  its static variables are the position \<open>idx\<close> in the candidates and the length \<open>len\<close> of the text.
\<close>

fun next_match :: "(string \<Rightarrow> bool option) \<Rightarrow> string list \<Rightarrow> nat \<Rightarrow> (string option \<times> nat) option" where
  "next_match P [] idx = Some (None, idx)"
| "next_match P (cand # cands) idx =
     (case P cand of
        None \<Rightarrow> None
      | Some True \<Rightarrow> Some (Some cand, Suc idx)
      | Some False \<Rightarrow> next_match P cands (Suc idx))"

definition complete_from :: "(string \<Rightarrow> bool option) \<Rightarrow> string list \<Rightarrow> string \<Rightarrow> bool \<Rightarrow> nat \<times> nat
    \<Rightarrow> (string option \<times> nat \<times> nat) option" where
  "complete_from P cands text state statics =
     (case (if \<not> state then (0, length text) else statics) of
        (idx, len) \<Rightarrow>
          map_option (\<lambda>(r, idx). (r, idx, len))
            (next_match (\<lambda>cand. if take len cand = take len text then P cand else Some False) (drop idx cands) idx))"

definition complete_line_id :: "line_resolver \<Rightarrow> string \<Rightarrow> string \<Rightarrow> bool \<Rightarrow> nat \<times> nat
    \<Rightarrow> (string option \<times> nat \<times> nat) option" where
  "complete_line_id completion_context rl_line_buffer text state statics =
     complete_from (\<lambda>ident. map_option Not (in_line_buffer rl_line_buffer ident))
       (map rl_id (rv_lines completion_context)) text state statics"

definition complete_value :: "string \<Rightarrow> bool \<Rightarrow> nat \<times> nat \<Rightarrow> (string option \<times> nat \<times> nat) option" where
  "complete_value text state statics =
     complete_from (\<lambda>_. Some True) [''1'', ''0'', ''active'', ''inactive'', ''on'', ''off'', ''true'', ''false'']
       text state statics"

definition complete_command :: "string \<Rightarrow> bool \<Rightarrow> nat \<times> nat \<Rightarrow> (string option \<times> nat \<times> nat) option" where
  "complete_command text state statics =
     complete_from (\<lambda>_. Some True) [''get'', ''set'', ''toggle'', ''sleep'', ''help'', ''exit''] text state statics"

datatype completer = CompleteCommand | CompleteValue | CompleteLineId

text \<open>
  The completion function \<open>tab_completion\<close> gives to the line editor, and the character to append;
  \<open>None\<close> is a read before the start of the line buffer.
\<close>

definition tab_completion :: "string \<Rightarrow> nat \<Rightarrow> nat \<Rightarrow> (completer option \<times> char) option" where
  "tab_completion rl_line_buffer start end =
     (let cmd_start = length (takeWhile isspace (take end rl_line_buffer));
          matches = (if cmd_start = start then Some CompleteCommand else None);
          cmd_end = (let from = cmd_start + 1
            in from + length (takeWhile (\<lambda>ch. \<not> isspace ch) (drop from (take end rl_line_buffer))));
          len = cmd_end - cmd_start;
          at_cmd = drop cmd_start rl_line_buffer
      in
        case (if len = 3 \<and> take 4 at_cmd = ''set ''
              then (if start = 0 then None
                    else if char_at rl_line_buffer (start - 1) = CHR ''=''
                    then Some (Some CompleteValue, CHR '' '')
                    else Some (Some CompleteLineId, CHR ''=''))
              else Some (matches, CHR '' '')) of
          None \<Rightarrow> None
        | Some (matches, app) \<Rightarrow>
            if len = 3 \<and> take 4 at_cmd = ''get '' \<or> len = 6 \<and> take 7 at_cmd = ''toggle ''
            then Some (Some CompleteLineId, app)
            else Some (matches, app))"

subsection \<open>Commands\<close>

definition print_interactive_help :: string where
  "print_interactive_help = concat (map (\<lambda>l. l @ [CHR 10])
     [''COMMANDS:'',
      [],
      ''    exit'',
      ''        Exit the program'',
      ''    get [line]...'',
      ''        Display the output values of the given requested lines'',
      [],
      ''        If no lines are specified then all requested lines are displayed'',
      [],
      ''    help'',
      ''        Print this help'',
      [],
      ''    set <line=value>...'',
      ''        Update the output values of the given requested lines'',
      [],
      ''    sleep <period>'',
      ''        Sleep for the specified period'',
      [],
      ''    toggle [line]...'',
      ''        Toggle the output values of the given requested lines'',
      [],
      ''        If no lines are specified then all requested lines are toggled'',
      []])"

text \<open>The state of the interactive loop: the resolver and the three arrays it uses.\<close>

type_synonym interact_state = "line_resolver \<times> string list \<times> u32 list \<times> gpiod_line_value list"

text \<open>The four commands with parameters.\<close>

definition interact_get :: "bool \<Rightarrow> string list \<Rightarrow> interact_state \<Rightarrow> ('k, interact_state) prog" where
  "interact_get unquoted params st =
     (case st of (resolver, lines, offsets, vals) \<Rightarrow>
      if params = [] then exec (out (print_all_line_values resolver unquoted)) (\<lambda>_. give st)
      else case parse_line_ids 0 params lines of
        (Some msg, lines) \<Rightarrow> exec (out msg) (\<lambda>_. give (resolver, lines, offsets, vals))
      | (None, lines) \<Rightarrow>
          let idents = take (length params) lines in
          (case valid_lines resolver idents of (ok, msg) \<Rightarrow>
           exec (out msg) (\<lambda>_.
           exec (only_if ok (out (print_line_values resolver idents unquoted))) (\<lambda>_.
           give (resolver, lines, offsets, vals)))))"

definition interact_set :: "'k run_env \<Rightarrow> gpiod_line_request obj list \<Rightarrow> string list \<Rightarrow> interact_state
    \<Rightarrow> ('k, interact_state) prog" where
  "interact_set E requests params st =
     (case st of (resolver, lines, offsets, vals) \<Rightarrow>
      if params = []
      then exec (out (''at least one GPIO line value must be specified'' @ [CHR 10])) (\<lambda>_. give st)
      else case parse_line_values 0 params lines vals of
        (Some msg, lines, vals) \<Rightarrow>
          exec (out (msg @ [CHR 10])) (\<lambda>_. give (resolver, lines, offsets, vals))
      | (None, lines, vals) \<Rightarrow>
          let idents = take (length params) lines in
          (case valid_lines resolver idents of (ok, msg) \<Rightarrow>
           exec (out msg) (\<lambda>_.
           if \<not> ok then give (resolver, lines, offsets, vals)
           else
             let resolver = set_line_values_subset resolver idents vals in
             exec (apply_values E requests resolver (offsets, vals)) (\<lambda>(offsets, vals).
             give (resolver, lines, offsets, vals)))))"

definition interact_toggle :: "'k run_env \<Rightarrow> gpiod_line_request obj list \<Rightarrow> string list \<Rightarrow> interact_state
    \<Rightarrow> ('k, interact_state) prog" where
  "interact_toggle E requests params st =
     (case st of (resolver, lines, offsets, vals) \<Rightarrow>
      case (if params = [] then ([], toggle_all_lines resolver, lines)
            else case parse_line_ids 0 params lines of
              (Some msg, lines) \<Rightarrow> (msg, resolver, lines)
            | (None, lines) \<Rightarrow>
                let idents = take (length params) lines in
                (case valid_lines resolver idents of (ok, msg) \<Rightarrow>
                 (msg, if ok then toggle_lines resolver idents else resolver, lines))) of
        (msg, resolver, lines) \<Rightarrow>
          exec (out msg) (\<lambda>_.
          exec (apply_values E requests resolver (offsets, vals)) (\<lambda>(offsets, vals).
          give (resolver, lines, offsets, vals))))"

definition interact_sleep :: "'k run_env \<Rightarrow> string list \<Rightarrow> ('k, unit) prog" where
  "interact_sleep E params =
     (if length params = 0 then out (''a period must be specified'' @ [CHR 10])
      else if length params > 1 then out (''only one period can be specified'' @ [CHR 10])
      else
        let period = hd params; period_us = parse_period period in
        if period_us < 0 then out (''invalid period: '' @ [CHR 0x27] @ period @ [CHR 0x27, CHR 10])
        else kernel_do (re_usleep E (of_int period_us)))"

text \<open>
  One command, from the test of the number of words on.  The result has the flag \<open>done\<close> and whether
  the command goes to the label \<open>cmd_ok\<close>, where the line is added to the history.  With no word at all
  \<open>words[0]\<close> is read before it was ever set or after the line it points into was released.
\<close>

definition interact_command :: "'k run_env \<Rightarrow> gpiod_line_request obj list \<Rightarrow> bool \<Rightarrow> string list \<Rightarrow> interact_state
    \<Rightarrow> ('k, bool \<times> bool \<times> interact_state) prog" where
  "interact_command E requests unquoted words st =
     (if length words > length (rv_lines (fst st)) + 1
      then exec (out (''too many command parameters provided'' @ [CHR 10])) (\<lambda>_. give (False, False, st))
      else case words of
        [] \<Rightarrow> of_tool (Inl Crashed)
      | cmd # params \<Rightarrow>
          if cmd = ''get'' then exec (interact_get unquoted params st) (\<lambda>st. give (False, True, st))
          else if cmd = ''set'' then exec (interact_set E requests params st) (\<lambda>st. give (False, True, st))
          else if cmd = ''toggle'' then exec (interact_toggle E requests params st) (\<lambda>st. give (False, True, st))
          else if cmd = ''sleep'' then exec (interact_sleep E params) (\<lambda>_. give (False, True, st))
          else if cmd = ''exit'' then give (True, False, st)
          else if cmd = ''help'' then exec (out print_interactive_help) (\<lambda>_. give (False, False, st))
          else exec (out (''unknown command: '' @ [CHR 0x27] @ cmd @ [CHR 0x27, CHR 10]
                 @ ''Try the '' @ [CHR 0x27] @ ''help'' @ [CHR 0x27] @ '' command'' @ [CHR 10]))
                 (\<lambda>_. give (False, True, st)))"

text \<open>Blanks at the end are cut, but not the first character.\<close>

definition trim_end :: "string \<Rightarrow> string" where
  "trim_end line = take 1 line @ rev (dropWhile isspace (rev (drop 1 line)))"

definition note_history :: "'k run_env \<Rightarrow> string \<Rightarrow> 'k \<Rightarrow> 'k" where
  "note_history E line k =
     (let text = dropWhile isspace line in
      if re_history E k = [] \<or> last (re_history E k) \<noteq> text then re_add_history E text k else k)"

text \<open>One line read from the user; \<open>readline\<close> and \<open>strdup\<close> allocate.\<close>

definition interact_line :: "'k run_env \<Rightarrow> gpiod_line_request obj list \<Rightarrow> bool \<Rightarrow> string obj \<Rightarrow> interact_state
    \<Rightarrow> ('k, bool \<times> interact_state) prog" where
  "interact_line E requests unquoted line st =
     (let text = trim_end (snd line) in
      exec (crt_call (strdup text)) (\<lambda>line_buf.
      case line_buf of
        None \<Rightarrow> of_tool (Inl Crashed)
      | Some line_buf \<Rightarrow>
          exec (interact_command E requests unquoted (split_words (snd line_buf)) st) (\<lambda>(finished, ok, st).
          exec (only_if ok (kernel_do (note_history E text))) (\<lambda>_.
          exec (crt_do (free_obj line)) (\<lambda>_.
          exec (crt_do (free_obj line_buf)) (\<lambda>_. give (finished, st)))))))"

definition interact_round :: "'k run_env \<Rightarrow> gpiod_line_request obj list \<Rightarrow> bool \<Rightarrow> interact_state
    \<Rightarrow> ('k, bool \<times> interact_state) prog" where
  "interact_round E requests unquoted st =
     exec (only_if (\<not> re_isatty E) (out ''gpioset> '')) (\<lambda>_.
     exec (sys_call (\<lambda>c k. case re_readline E ''gpioset> '' k of
         (None, k) \<Rightarrow> (None, c, k)
       | (Some text, k) \<Rightarrow> (case malloc_obj text c of (p, c) \<Rightarrow> (p, c, k)))) (\<lambda>line.
     case line of
       None \<Rightarrow> give (False, st)
     | Some line \<Rightarrow>
         if snd line = [] then exec (crt_do (free_obj line)) (\<lambda>_. give (False, st))
         else interact_line E requests unquoted line st))"

partial_function (option) interact_loop :: "'k run_env \<Rightarrow> gpiod_line_request obj list \<Rightarrow> bool \<Rightarrow> interact_state
    \<Rightarrow> 'k tstate \<Rightarrow> (interact_state tool \<times> 'k tstate) option" where
  "interact_loop E requests unquoted st s =
     (case interact_round E requests unquoted st s of
        (Inl e, s) \<Rightarrow> Some (Inl e, s)
      | (Inr (finished, st), s) \<Rightarrow>
          if finished then Some (Inr st, s) else interact_loop E requests unquoted st s)"

definition interact :: "'k run_env \<Rightarrow> gpiod_line_request obj list \<Rightarrow> bool \<Rightarrow> interact_state
    \<Rightarrow> ('k, interact_state) run" where
  "interact E requests unquoted st s =
     and_then (Some (or_die ''out of memory'' (crt_call malloc) s)) (\<lambda>words s.
     and_then (interact_loop E requests unquoted st s) (\<lambda>st s.
     Some (exec (crt_do (free words)) (\<lambda>_. give st) s)))"

section \<open>The program\<close>

definition gpioset_settings :: "gpioset_config \<Rightarrow> gpiod_line_settings \<Rightarrow> crt \<Rightarrow> gpiod_line_settings \<times> crt" where
  "gpioset_settings cfg settings c =
     (case (case gs_bias cfg of
              None \<Rightarrow> (settings, c) | Some b \<Rightarrow> snd (gpiod_line_settings_set_bias settings b c)) of
        (settings, c) \<Rightarrow>
          (case (case gs_drive cfg of
                   None \<Rightarrow> (settings, c) | Some d \<Rightarrow> snd (gpiod_line_settings_set_drive settings d c)) of
             (settings, c) \<Rightarrow>
               snd (gpiod_line_settings_set_direction
                 (if gs_active_low cfg then gpiod_line_settings_set_active_low settings True else settings)
                 GPIOD_LINE_DIRECTION_OUTPUT c)))"

text \<open>The loop over the chips: the requests made so far, the configuration object and the arrays.\<close>

type_synonym request_state = "gpiod_line_request obj list \<times> gpiod_line_config \<times> u32 list \<times> gpiod_line_value list"

definition gpioset_chip :: "'k run_env \<Rightarrow> gpiod_line_settings \<Rightarrow> gpiod_request_config \<Rightarrow> line_resolver \<Rightarrow> nat
    \<Rightarrow> request_state \<Rightarrow> ('k, request_state) prog" where
  "gpioset_chip E settings req_cfg resolver i st =
     (case st of (requests, line_cfg, offsets, vals) \<Rightarrow>
      case get_line_offsets_and_values resolver (int i) offsets (Some vals) of (num_lines, offsets, new_vals) \<Rightarrow>
      let vals = the new_vals; path = snd (the (rch_path (rv_chips resolver ! i))) in
      exec (crt_call (gpiod_line_config_reset line_cfg)) (\<lambda>line_cfg.
      exec (crt_call (\<lambda>c. case gpiod_line_config_add_line_settings line_cfg (Some (take num_lines offsets))
        (Some settings) c of (ret, line_cfg, c) \<Rightarrow> ((ret, line_cfg), c))) (\<lambda>(ret, line_cfg).
      if ret \<noteq> 0 then quit_perror ''unable to add line settings'' else
      exec (crt_call (\<lambda>c. case gpiod_line_config_set_output_values line_cfg (Some (take num_lines vals)) c of
        (ret, line_cfg, c) \<Rightarrow> ((ret, line_cfg), c))) (\<lambda>(ret, line_cfg).
      if ret \<noteq> 0 then quit_perror ''unable to set output values'' else
      exec (or_perror (''unable to open chip '' @ [CHR 0x27] @ path @ [CHR 0x27])
        (sys_call (gpiod_chip_open (re_kernel E) (Some path)))) (\<lambda>chip.
      exec (or_perror (''unable to request lines on chip '' @ [CHR 0x27] @ path @ [CHR 0x27])
        (sys_call (gpiod_chip_request_lines (re_kernel E) (snd chip) (Some req_cfg) (Some line_cfg)))) (\<lambda>request.
      exec (sys_do (gpiod_chip_close (re_kernel E) (Some chip))) (\<lambda>_.
      give (requests @ [request], line_cfg, offsets, vals))))))))"

text \<open>The values of the command line, written into the resolver.\<close>

definition store_values :: "gpiod_line_value list \<Rightarrow> line_resolver \<Rightarrow> line_resolver" where
  "store_values vals resolver = resolver\<lparr>rv_lines :=
     map (\<lambda>i. (rv_lines resolver ! i)\<lparr>rl_value := line_value_int (vals ! i)\<rparr>) [0..<length (rv_lines resolver)]\<rparr>"

text \<open>
  The first part of \<open>main\<close>, up to the released configuration objects.  It returns the configuration,
  the lines and values arrays, the resolver, the requests and the offsets array, the four array blocks
  last.
\<close>

definition gpioset_setup :: "'k run_env \<Rightarrow> string \<Rightarrow> string list
    \<Rightarrow> ('k, gpioset_config \<times> string list \<times> gpiod_line_value list \<times> line_resolver obj
         \<times> gpiod_line_request obj list \<times> u32 list \<times> nat list) prog" where
  "gpioset_setup E prog args =
     exec (tool_call (\<lambda>c k. case gpioset_parse_config prog args c of
         Inl e \<Rightarrow> Inl e | Inr (r, c) \<Rightarrow> Inr (r, c, k))) (\<lambda>(cfg, lvs).
     if length lvs < 1 then quit ''at least one GPIO line value must be specified'' else
     exec (crt_call malloc) (\<lambda>lines_blk. exec (crt_call malloc) (\<lambda>values_blk.
     if lines_blk = None \<or> values_blk = None then quit ''out of memory'' else
     exec (parse_line_values_or_die lvs (replicate (length lvs) [])
       (replicate (length lvs) GPIOD_LINE_VALUE_INACTIVE)) (\<lambda>(lines, vals).
     exec (or_perror ''unable to allocate line settings'' (crt_call gpiod_line_settings_new)) (\<lambda>settings.
     exec (crt_call (gpioset_settings cfg (snd settings))) (\<lambda>new_settings.
     exec (or_perror ''unable to allocate the request config structure'' (crt_call gpiod_request_config_new)) (\<lambda>req_cfg.
     exec (tool_call (resolve_lines (re_tool E) lines (gs_chip_id cfg) (gs_strict cfg) (gs_by_name cfg))) (\<lambda>resolver.
     exec (of_tool (validate_resolution (snd resolver) (gs_chip_id cfg))) (\<lambda>_.
     let rv = store_values vals (snd resolver) in
     exec (crt_call malloc) (\<lambda>requests_blk. exec (crt_call malloc) (\<lambda>offsets_blk.
     if requests_blk = None \<or> offsets_blk = None then quit ''out of memory'' else
     exec (or_perror ''unable to allocate the line config structure'' (crt_call gpiod_line_config_new)) (\<lambda>line_cfg.
     exec (foldp (gpioset_chip E new_settings
         (gpiod_request_config_set_consumer (snd req_cfg) (Some (gs_consumer cfg))) rv)
       [0..<rv_num_chips rv] ([], snd line_cfg, replicate (length lvs) 0, vals))
       (\<lambda>(requests, line_cfg', offsets, vals).
     exec (crt_do (gpiod_request_config_free req_cfg)) (\<lambda>_.
     exec (crt_do (gpiod_line_config_free (Some (fst line_cfg, line_cfg')))) (\<lambda>_.
     exec (crt_do (gpiod_line_settings_free (fst settings, new_settings))) (\<lambda>_.
     give (cfg, lines, vals, (fst resolver, rv), requests, offsets,
       [the requests_blk, the lines_blk, the values_blk, the offsets_blk])))))))))))))))))"

text \<open>The banner, and the detachment from the terminal.\<close>

definition gpioset_announce :: "'k run_env \<Rightarrow> gpioset_config \<Rightarrow> string list \<Rightarrow> ('k, unit) prog" where
  "gpioset_announce E cfg lines =
     exec (only_if (gs_banner cfg) (out (gpioset_print_banner lines))) (\<lambda>_.
     only_if (gs_daemonize cfg)
       (or_perror ''unable to daemonize'' (sys_call (\<lambda>c k. case re_daemon E (gs_interactive cfg) k of
          (Inl e, k) \<Rightarrow> (None, set_errno e c, k) | (Inr u, k) \<Rightarrow> (Some (), c, k)))))"

text \<open>The release of the requests and of the memory at the end of \<open>main\<close>.\<close>

definition gpioset_cleanup :: "'k run_env \<Rightarrow> gpiod_line_request obj list \<Rightarrow> line_resolver obj \<Rightarrow> nat list
    \<Rightarrow> ('k, unit) prog" where
  "gpioset_cleanup E requests resolver blks =
     exec (each (\<lambda>request. sys_do (gpiod_line_request_release (re_kernel E) (Some request))) requests) (\<lambda>_.
     exec (crt_do (free (blks ! 0))) (\<lambda>_.
     exec (crt_do (free_line_resolver (Some resolver))) (\<lambda>_.
     each (\<lambda>blk. crt_do (free blk)) (drop 1 blks))))"

definition gpioset_main :: "'k run_env \<Rightarrow> string \<Rightarrow> string list \<Rightarrow> ('k, unit) run" where
  "gpioset_main E prog args s =
     and_then (Some (gpioset_setup E prog args s)) (\<lambda>(cfg, lines, vals, resolver, requests, offsets, blks) s.
     and_then (Some (gpioset_announce E cfg lines s)) (\<lambda>_ s.
     and_then (case gs_toggle_periods cfg of
         None \<Rightarrow> Some (give (snd resolver, offsets, vals) s)
       | Some periods \<Rightarrow>
           and_then (toggle_sequence E (hold_periods (gs_hold_period_us cfg) (snd periods)) requests
             (snd resolver, offsets, vals) s) (\<lambda>st s.
           Some (exec (crt_do (free (fst periods))) (\<lambda>_. give st) s))) (\<lambda>(rv, offsets, vals) s.
     and_then (Some (only_if (gs_hold_period_us cfg \<noteq> 0) (kernel_do (re_usleep E (gs_hold_period_us cfg))) s)) (\<lambda>_ s.
     and_then (if gs_interactive cfg
         then and_then (interact E requests (gs_unquoted cfg) (rv, lines, offsets, vals) s) (\<lambda>st s.
           Some (give (fst st) s))
         else Some (exec (only_if (gs_toggles cfg = 0) (wait_fd E (gpiod_line_request_get_fd (snd (requests ! 0)))))
           (\<lambda>_. give rv) s)) (\<lambda>rv s.
     Some (gpioset_cleanup E requests (fst resolver, rv) blks s))))))"

section \<open>The toggle sequence ends exactly with a final zero\<close>

lemma apply_values_Inr: "\<exists>b s'. apply_values E requests resolver st s = (Inr b, s')"
  unfolding apply_values_def
  by (rule foldp_Inr) (auto simp: apply_chip_def prog_defs split: prod.splits)

lemma toggle_step_Inr:
  "\<exists>arrays s'. toggle_step E requests period st s = (Inr (toggle_all_lines (fst st), arrays), s')"
proof -
  define s1 where "s1 = s\<lparr>ts_k := re_usleep E period (ts_k s)\<rparr>"
  obtain b s' where "apply_values E requests (toggle_all_lines (fst st)) (snd st) s1 = (Inr b, s')"
    using apply_values_Inr by blast
  then show ?thesis by (simp add: toggle_step_def exec_def kernel_do_def Let_def give_def s1_def)
qed

lemma toggle_loop_ends:
  assumes "last periods = 0" "Suc i < length periods"
  shows "\<exists>arrays s'. toggle_loop E periods requests i st s =
    Some (Inr ((toggle_all_lines ^^ (length periods - 1 - i)) (fst st), arrays), s')"
  using assms(2)
proof (induction "length periods - 1 - i" arbitrary: i st s)
  case 0
  then show ?case by simp
next
  case (Suc m)
  obtain arrays s1 where step: "toggle_step E requests (periods ! i) st s
      = (Inr (toggle_all_lines (fst st), arrays), s1)" using toggle_step_Inr by blast
  show ?case
  proof (cases "Suc i = length periods - 1")
    case True
    moreover have "periods \<noteq> []" using Suc.prems by auto
    ultimately have "periods ! Suc i = 0" using assms(1) by (simp add: last_conv_nth)
    moreover have "length periods - 1 - i = 1" using True by simp
    ultimately show ?thesis by (subst toggle_loop.simps) (simp add: step True)
  next
    case False
    with Suc.prems have i: "Suc (Suc i) < length periods" "Suc i \<noteq> length periods" by simp_all
    have m: "m = length periods - 1 - Suc i" using Suc.hyps(2) by simp
    obtain arrays' s' where "toggle_loop E periods requests (Suc i) (toggle_all_lines (fst st), arrays) s1
        = Some (Inr ((toggle_all_lines ^^ (length periods - 1 - Suc i)) (toggle_all_lines (fst st)), arrays'), s')"
      using Suc.hyps(1) [OF m i(1), of "(toggle_all_lines (fst st), arrays)" s1] by auto
    moreover have "(toggle_all_lines ^^ (length periods - 1 - i)) (fst st)
        = (toggle_all_lines ^^ (length periods - 1 - Suc i)) (toggle_all_lines (fst st))"
      unfolding Suc.hyps(2) [symmetric] m [symmetric] by (simp add: funpow_swap1)
    ultimately show ?thesis using False i by (subst toggle_loop.simps) (simp add: step)
  qed
qed

lemma toggle_loop_runs_on:
  assumes last: "last periods \<noteq> 0" and ne: "periods \<noteq> []"
  shows "toggle_loop E periods requests i st s = None"
proof (rule ccontr)
  assume "toggle_loop E periods requests i st s \<noteq> None"
  then obtain r where ret: "toggle_loop E periods requests i st s = Some r" by blast
  have "periods' = periods \<longrightarrow> False" if "toggle_loop E' periods' requests' i' st' s' = Some r'"
    for E' :: "'k run_env" and periods' requests' i' st' s' r'
  proof (rule toggle_loop.raw_induct [where P = "\<lambda>E periods' requests i st s r. periods' = periods \<longrightarrow> False", OF _ that], rule)
    fix f and E :: "'k run_env" and periods' requests i st s r
    assume IH: "\<And>E periods' requests i st s r. f E periods' requests i st s = Some r \<Longrightarrow> periods' = periods \<longrightarrow> False"
      and eq: "(case toggle_step E requests (periods' ! i) st s of
        (Inl e, s) \<Rightarrow> Some (Inl e, s)
      | (Inr st, s) \<Rightarrow>
          if Suc i = length periods' - 1 \<and> periods' ! Suc i = 0 then Some (Inr st, s)
          else f E periods' requests (if Suc i = length periods' then 0 else Suc i) st s) = Some r"
      and same: "periods' = periods"
    obtain arrays s1 where step: "toggle_step E requests (periods' ! i) st s
        = (Inr (toggle_all_lines (fst st), arrays), s1)" using toggle_step_Inr by blast
    have on: "\<not> (Suc i = length periods' - 1 \<and> periods' ! Suc i = 0)"
      using last ne by (auto simp: same last_conv_nth)
    have "f E periods' requests (if Suc i = length periods' then 0 else Suc i)
        (toggle_all_lines (fst st), arrays) s1 = Some r"
      using eq unfolding step by (simp only: on prod.case sum.case if_False)
    from IH [OF this] same show False by blast
  qed
  with ret show False by blast
qed

section \<open>Hold periods and period lists\<close>

lemma hold_periods_length [simp]: "length (hold_periods hold periods) = length periods"
  by (simp add: hold_periods_def)

lemma hold_periods_nth:
  assumes "i < length periods"
  shows "hold_periods hold periods ! i =
    (if i = length periods - 1 \<and> periods ! i = 0 then 0 else max hold (periods ! i))"
proof (cases "i = length periods - 1 \<and> periods ! i = 0")
  case True
  with assms show ?thesis by (simp add: hold_periods_def)
next
  case False
  with assms show ?thesis by (auto simp: hold_periods_def max_def)
qed

lemma hold_periods_last:
  assumes "periods \<noteq> []"
  shows "last (hold_periods hold periods) = 0 \<longleftrightarrow> last periods = 0"
proof -
  let ?n = "length periods - 1"
  have n: "?n < length periods" using assms by simp
  have "hold_periods hold periods \<noteq> []" using assms hold_periods_length [of hold periods] by fastforce
  then have "last (hold_periods hold periods) = hold_periods hold periods ! ?n" by (simp add: last_conv_nth)
  moreover have "max hold x \<noteq> 0" if "x \<noteq> 0" for x :: u32 using that by (auto simp: max_def)
  ultimately show ?thesis using assms hold_periods_nth [OF n, of hold] by (auto simp: last_conv_nth)
qed

lemma hold_periods_butlast: "list_all (\<lambda>p. hold \<le> p) (butlast (hold_periods hold periods))"
proof -
  have "hold \<le> butlast (hold_periods hold periods) ! i" if "i < length periods - 1" for i
    using that by (simp add: nth_butlast hold_periods_nth)
  then show ?thesis by (simp add: list_all_length)
qed

lemma toggle_sequence_result:
  assumes "periods \<noteq> []"
  shows "case toggle_sequence E periods requests st s of
      None \<Rightarrow> last periods \<noteq> 0
    | Some (r, s') \<Rightarrow> last periods = 0
        \<and> (\<exists>arrays. r = Inr ((toggle_all_lines ^^ (length periods - 1)) (fst st), arrays))"
proof (cases "last periods = 0")
  case True
  show ?thesis
  proof (cases "length periods = 1")
    case one: True
    with True assms have "periods ! 0 = 0" by (simp add: last_conv_nth)
    with one True show ?thesis by (cases st) (simp add: toggle_sequence_def)
  next
    case False
    with assms have "Suc 0 < length periods" by (cases periods) auto
    from toggle_loop_ends [OF True this, of E requests st s] False True show ?thesis
      by (auto simp: toggle_sequence_def)
  qed
next
  case False
  then have "\<not> (length periods = 1 \<and> periods ! 0 = 0)" using assms by (auto simp: last_conv_nth)
  with False toggle_loop_runs_on [OF False assms, of E requests 0 st s] show ?thesis by (simp add: toggle_sequence_def)
qed

text \<open>
  C12: Toggle sequences.  \<open>main\<close> raises the toggle periods to the hold period and then runs
  \<open>toggle_sequence\<close>.  It returns exactly when the last period given is zero, after toggling every line
  once for each of the periods before it; with any other last period it runs forever.  No period
  before the last is shorter than the hold period.
\<close>

theorem toggle_sequence_ends_iff:
  assumes "periods \<noteq> []"
  shows "(case toggle_sequence E (hold_periods hold periods) requests st s of
      None \<Rightarrow> last periods \<noteq> 0
    | Some (r, s') \<Rightarrow> last periods = 0
        \<and> (\<exists>arrays. r = Inr ((toggle_all_lines ^^ (length periods - 1)) (fst st), arrays)))
    \<and> list_all (\<lambda>p. hold \<le> p) (butlast (hold_periods hold periods))"
proof -
  have "hold_periods hold periods \<noteq> []" using assms hold_periods_length [of hold periods] by fastforce
  from toggle_sequence_result [OF this, where E = E and requests = requests and st = st and s = s] show ?thesis
    by (simp only: hold_periods_length hold_periods_last [OF assms] hold_periods_butlast simp_thms)
qed

definition sample_requests :: "gpiod_line_request obj list" where
  "sample_requests = [(10, sample_request), (12, sample_request)]"

theorem toggle_sequence_ends_iff_witness:
  "(case toggle_sequence sample_run (hold_periods 1500 [1000, 2000, 0]) sample_requests
      (sample_lines, replicate 3 0, replicate 3 GPIOD_LINE_VALUE_INACTIVE) sample_tstate of
      None \<Rightarrow> False | Some (r, s') \<Rightarrow> True)
   \<and> toggle_sequence sample_run (hold_periods 1500 [1000, 2000]) sample_requests
      (sample_lines, replicate 3 0, replicate 3 GPIOD_LINE_VALUE_INACTIVE) sample_tstate = None"
  using toggle_sequence_ends_iff [where periods = "[1000, 2000, 0]" and E = sample_run and requests = sample_requests
      and st = "(sample_lines, replicate 3 0, replicate 3 GPIOD_LINE_VALUE_INACTIVE)" and s = sample_tstate
      and hold = 1500]
    toggle_sequence_ends_iff [where periods = "[1000, 2000]" and E = sample_run and requests = sample_requests
      and st = "(sample_lines, replicate 3 0, replicate 3 GPIOD_LINE_VALUE_INACTIVE)" and s = sample_tstate
      and hold = 1500]
  by (auto split: option.splits)

section \<open>What \<open>get\<close> prints, \<open>set\<close> reads\<close>

lemma split_words_in_quotes: "CHR 0x22 \<notin> set xs \<Longrightarrow>
    split_words_loop (xs @ rest) True True w = split_words_loop rest True True (w @ xs)"
  by (induction xs arbitrary: w) auto

lemma split_words_in_word: "list_all (\<lambda>ch. \<not> isspace ch) xs \<Longrightarrow>
    split_words_loop (xs @ rest) True False w = split_words_loop rest True False (w @ xs)"
  by (induction xs arbitrary: w) auto

definition value_text :: "int \<Rightarrow> string" where
  "value_text v = (if v \<noteq> 0 then ''active'' else ''inactive'')"

lemma value_text_no_space: "list_all (\<lambda>ch. \<not> isspace ch) (CHR ''='' # value_text v)"
  by (simp add: value_text_def isspace_def)

lemma parse_value_text: "parse_value (value_text v) =
    (if v \<noteq> 0 then GPIOD_LINE_VALUE_ACTIVE else GPIOD_LINE_VALUE_INACTIVE)"
  by (simp add: value_text_def parse_value_def)

lemma line_assignment_quoted: "line_assignment False line = CHR 0x22 # rl_id line @ CHR 0x22 # CHR ''='' # value_text (rl_value line)"
  by (simp add: line_assignment_def value_text_def)

lemma space_chars: "isspace CHR '' ''" "isspace (CHR 10)" "\<not> isspace (CHR 0x22)"
  by (simp_all add: isspace_def)

lemma split_words_assignment:
  assumes "CHR 0x22 \<notin> set (rl_id line)" "isspace sp"
  shows "split_words_loop (line_assignment False line @ sp # rest) False q [] =
    line_assignment False line # split_words_loop rest False False []"
proof -
  have "split_words_loop (line_assignment False line @ sp # rest) False q []
      = split_words_loop (rl_id line @ CHR 0x22 # (CHR ''='' # value_text (rl_value line)) @ sp # rest) True True [CHR 0x22]"
    by (simp add: line_assignment_quoted space_chars)
  also have "\<dots> = split_words_loop ((CHR ''='' # value_text (rl_value line)) @ sp # rest) True False
      (CHR 0x22 # rl_id line @ [CHR 0x22])"
    using split_words_in_quotes [OF assms(1)] by simp
  also have "\<dots> = split_words_loop (sp # rest) True False (line_assignment False line)"
    using split_words_in_word [OF value_text_no_space] by (simp add: line_assignment_quoted)
  finally show ?thesis using assms(2) by simp
qed

lemma split_words_all:
  assumes "list_all (\<lambda>line. CHR 0x22 \<notin> set (rl_id line)) lines"
  shows "split_words_loop (print_all_lines_loop False lines) False q [] = map (line_assignment False) lines"
  using assms
proof (induction lines arbitrary: q)
  case (Cons line lines)
  let ?sp = "if lines = [] then CHR 10 else CHR '' ''"
  have "print_all_lines_loop False (line # lines)
      = line_assignment False line @ ?sp # print_all_lines_loop False lines" by simp
  moreover have "isspace ?sp" by (simp add: space_chars)
  ultimately show ?case
    using Cons split_words_assignment [of line ?sp "print_all_lines_loop False lines" q] by simp
qed simp

lemma strstr_quote: "CHR 0x22 \<notin> set xs \<Longrightarrow> strstr (xs @ CHR 0x22 # CHR ''='' # rest) [CHR 0x22, CHR ''=''] = Some (length xs)"
  by (induction xs) auto

lemma split_line_value_assignment: "CHR 0x22 \<notin> set (rl_id line) \<Longrightarrow>
    split_line_value (line_assignment False line) = Some (rl_id line, value_text (rl_value line))"
  by (simp add: split_line_value_def line_assignment_quoted strstr_quote)

definition value_of_line :: "resolved_line \<Rightarrow> gpiod_line_value" where
  "value_of_line line = (if rl_value line \<noteq> 0 then GPIOD_LINE_VALUE_ACTIVE else GPIOD_LINE_VALUE_INACTIVE)"

lemma parse_line_values_assignments:
  assumes "list_all (\<lambda>line. CHR 0x22 \<notin> set (rl_id line)) lines"
    "length xs + length lines \<le> length arr" "length xs + length lines \<le> length vals" "length xs = length ys"
  shows "parse_line_values (length xs) (map (line_assignment False) lines) (xs @ drop (length xs) arr)
      (ys @ drop (length xs) vals)
    = (None, xs @ map rl_id lines @ drop (length xs + length lines) arr,
       ys @ map value_of_line lines @ drop (length xs + length lines) vals)"
  using assms
proof (induction lines arbitrary: xs ys)
  case (Cons line lines)
  have upd: "(zs @ drop (length zs) ws)[length zs := w] = (zs @ [w]) @ drop (length (zs @ [w])) ws"
    if "length zs < length ws" for zs ws :: "'z list" and w
    using list_update_prefix [OF that, of w] by simp
  have u: "(xs @ drop (length xs) arr)[length xs := rl_id line]
      = (xs @ [rl_id line]) @ drop (length (xs @ [rl_id line])) arr"
    "(ys @ drop (length xs) vals)[length xs := value_of_line line]
      = (ys @ [value_of_line line]) @ drop (length (xs @ [rl_id line])) vals"
    using upd [of xs arr "rl_id line"] upd [of ys vals "value_of_line line"] Cons.prems by simp_all
  have no_q: "CHR 0x22 \<notin> set (rl_id line)" using Cons.prems by simp
  have pv: "parse_value (value_text (rl_value line)) = value_of_line line"
    "value_of_line line \<noteq> GPIOD_LINE_VALUE_ERROR"
    by (simp_all add: parse_value_text value_of_line_def)
  have "parse_line_values (length xs) (map (line_assignment False) (line # lines)) (xs @ drop (length xs) arr)
      (ys @ drop (length xs) vals)
    = parse_line_values (length (xs @ [rl_id line])) (map (line_assignment False) lines)
        ((xs @ [rl_id line]) @ drop (length (xs @ [rl_id line])) arr)
        ((ys @ [value_of_line line]) @ drop (length (xs @ [rl_id line])) vals)"
    using u pv by (simp add: split_line_value_assignment [OF no_q] Let_def)
  also have "\<dots> = (None, (xs @ [rl_id line]) @ map rl_id lines @ drop (length (xs @ [rl_id line]) + length lines) arr,
       (ys @ [value_of_line line]) @ map value_of_line lines @ drop (length (xs @ [rl_id line]) + length lines) vals)"
    using Cons.prems by (intro Cons.IH) simp_all
  finally show ?case by simp
qed simp

text \<open>A line that may have had its value changed.\<close>

lemma update_line_other: "ident \<notin> rl_id ` set pre \<Longrightarrow> update_line ident f (pre @ rest) = pre @ update_line ident f rest"
  by (induction pre) auto

lemma set_subset_loop_restores:
  assumes "distinct (map rl_id (pre @ lines))" "list_all (\<lambda>line. rl_value line \<in> {0, 1}) lines"
  shows "set_subset_loop (map rl_id lines) (map value_of_line lines) (pre @ map (\<lambda>l. l\<lparr>rl_value := f l\<rparr>) lines)
    = pre @ lines"
  using assms
proof (induction lines arbitrary: pre)
  case (Cons line lines)
  have "rl_id line \<notin> rl_id ` set pre" using Cons.prems by auto
  then have "update_line (rl_id line) (\<lambda>l. l\<lparr>rl_value := line_value_int (value_of_line line)\<rparr>)
      (pre @ map (\<lambda>l. l\<lparr>rl_value := f l\<rparr>) (line # lines))
    = (pre @ [line]) @ map (\<lambda>l. l\<lparr>rl_value := f l\<rparr>) lines"
    using Cons.prems(2) by (auto simp: update_line_other value_of_line_def)
  moreover have "distinct (map rl_id ((pre @ [line]) @ lines))" using Cons.prems by simp
  ultimately show ?case using Cons.IH [of "pre @ [line]"] Cons.prems(2) by simp
qed simp

text \<open>
  C14: Saving and restoring values.  The words of the line \<open>get\<close> prints for all requested lines, with
  quotes, are the assignments \<open>set\<close> accepts.  \<open>parse_line_values\<close> reads from them the identifiers and
  the values, and \<open>set_line_values_subset\<close> with these restores the resolver whatever values its lines had
  taken in between.  Identifiers may hold blanks and \<open>=\<close>, but no quotes.
\<close>

theorem get_set_round_trip:
  assumes "list_all (\<lambda>line. CHR 0x22 \<notin> set (rl_id line)) (rv_lines rv)" "distinct (map rl_id (rv_lines rv))"
    "list_all (\<lambda>line. rl_value line \<in> {0, 1}) (rv_lines rv)"
    "length arr = length (rv_lines rv)" "length vals = length (rv_lines rv)"
  shows "case parse_line_values 0 (split_words (print_all_line_values rv False)) arr vals of
    (msg, idents, vs) \<Rightarrow> msg = None
      \<and> set_line_values_subset (rv\<lparr>rv_lines := map (\<lambda>l. l\<lparr>rl_value := f l\<rparr>) (rv_lines rv)\<rparr>) idents vs = rv"
proof -
  have "parse_line_values 0 (split_words (print_all_line_values rv False)) arr vals
      = (None, map rl_id (rv_lines rv), map value_of_line (rv_lines rv))"
    using parse_line_values_assignments [OF assms(1), of "[]" arr vals "[]"] assms(4,5)
    by (simp add: split_words_def print_all_line_values_def split_words_all [OF assms(1)])
  moreover have "set_subset_loop (map rl_id (rv_lines rv)) (map value_of_line (rv_lines rv))
      (map (\<lambda>l. l\<lparr>rl_value := f l\<rparr>) (rv_lines rv)) = rv_lines rv"
    using set_subset_loop_restores [of "[]" "rv_lines rv" f] assms(2,3) by simp
  ultimately show ?thesis by (simp add: set_line_values_subset_def)
qed

definition two_lines :: line_resolver where
  "two_lines = \<lparr>rv_num_chips = 1, rv_num_found = 2, rv_strict = False, rv_chips_blk = 0, rv_chips = [],
     rv_lines = map (\<lambda>(ident, off, v). \<lparr>rl_id = ident, rl_id_as_offset = -1, rl_resolved = True, rl_info = None,
       rl_chip_num = 0, rl_offset = off, rl_value = v\<rparr>) [(''STATUS LED'', 4, 1), (''RESET'', 7, 0)]\<rparr>"

theorem get_set_round_trip_witness:
  "print_all_line_values two_lines False = CHR 0x22 # ''STATUS LED'' @ [CHR 0x22] @ ''=active '' @ [CHR 0x22]
     @ ''RESET'' @ [CHR 0x22] @ ''=inactive'' @ [CHR 10]
   \<and> (case parse_line_values 0 (split_words (print_all_line_values two_lines False)) [[], []]
        [GPIOD_LINE_VALUE_INACTIVE, GPIOD_LINE_VALUE_INACTIVE] of
      (msg, idents, vs) \<Rightarrow> set_line_values_subset (toggle_all_lines two_lines) idents vs = two_lines)"
proof -
  let ?f = "\<lambda>l. if rl_value l = 0 then 1 else 0 :: int"
  have toggled: "toggle_all_lines two_lines
      = two_lines\<lparr>rv_lines := map (\<lambda>l. l\<lparr>rl_value := ?f l\<rparr>) (rv_lines two_lines)\<rparr>"
    by (simp add: toggle_all_lines_def toggle_value_def two_lines_def)
  show ?thesis
    using get_set_round_trip [of two_lines "[[], []]" "[GPIOD_LINE_VALUE_INACTIVE, GPIOD_LINE_VALUE_INACTIVE]" ?f]
    unfolding toggled
    by (auto simp: two_lines_def print_all_line_values_def line_assignment_def split: prod.splits)
qed

section \<open>Ends of the interactive mode\<close>

text \<open>
  C38: End of input.  When the input of the interactive mode has ended (\<open>readline\<close> returns \<open>NULL\<close> from
  then on), the loop never ends: the program spins instead of leaving.
\<close>

theorem interact_eof_never_ends:
  assumes eof: "\<forall>p k. fst (re_readline E p k) = None"
  shows "interact_loop E requests unquoted st s = None"
proof (rule ccontr)
  assume "interact_loop E requests unquoted st s \<noteq> None"
  then obtain r where ret: "interact_loop E requests unquoted st s = Some r" by blast
  have "E' = E \<longrightarrow> False" if "interact_loop E' requests' unquoted' st' s' = Some r'"
    for E' :: "'a run_env" and requests' unquoted' st' s' r'
  proof (rule interact_loop.raw_induct [where P = "\<lambda>E' requests unquoted st s r. E' = E \<longrightarrow> False", OF _ that], rule)
    fix f and E' :: "'a run_env" and requests unquoted st s r
    assume IH: "\<And>E' requests unquoted st s r. f E' requests unquoted st s = Some r \<Longrightarrow> E' = E \<longrightarrow> False"
      and eq: "(case interact_round E' requests unquoted st s of
        (Inl e, s) \<Rightarrow> Some (Inl e, s)
      | (Inr (finished, st), s) \<Rightarrow>
          if finished then Some (Inr st, s) else f E' requests unquoted st s) = Some r"
      and same: "E' = E"
    define s1 where "s1 = (if re_isatty E then s else s\<lparr>ts_out := ts_out s @ ''gpioset> ''\<rparr>)"
    obtain k where rl: "re_readline E ''gpioset> '' (ts_k s1) = (None, k)"
      using eof by (metis prod.collapse)
    have "interact_round E' requests unquoted st s = (Inr (False, st), s1\<lparr>ts_k := k\<rparr>)"
      using rl by (simp add: interact_round_def same prog_defs s1_def split: if_splits)
    with eq have "f E' requests unquoted st (s1\<lparr>ts_k := k\<rparr>) = Some r" by simp
    from IH [OF this] same show False by blast
  qed
  with ret show False by blast
qed

theorem interact_eof_never_ends_witness:
  "interact_loop sample_run sample_requests False (two_lines, [], [], []) sample_tstate = None"
  by (rule interact_eof_never_ends) (simp add: sample_run_def)

lemma split_words_blank: "list_all isspace line \<Longrightarrow> split_words_loop line False q [] = []"
  by (induction line arbitrary: q) auto

lemma trim_end_blank:
  assumes "list_all isspace line"
  shows "list_all isspace (trim_end line)"
proof -
  have "set (dropWhile isspace (rev (drop 1 line))) \<subseteq> set (rev (drop 1 line))" using set_dropWhileD by fast
  then have "set (trim_end line) \<subseteq> set line"
    using set_drop_subset [of 1 line] set_take_subset [of 1 line] by (auto simp: trim_end_def)
  with assms show ?thesis by (auto simp: list_all_iff)
qed

text \<open>
  C39: Blank lines.  A line of blanks given to the interactive mode has no words, and the program then
  compares a string through a pointer that is null or was released with the line before.
\<close>

theorem blank_line_crashes:
  assumes "list_all isspace (snd line)"
  shows "fst (interact_line E requests unquoted line st s) = Inl Crashed"
proof -
  have "split_words (trim_end (snd line)) = []"
    using split_words_blank [OF trim_end_blank [OF assms]] by (simp add: split_words_def)
  then show ?thesis
    by (cases "strdup (trim_end (snd line)) (ts_crt s)")
      (auto simp: interact_line_def interact_command_def exec_def crt_call_def of_tool_def Let_def strdup_def
        malloc_obj_def split: option.splits prod.splits)
qed

theorem blank_line_crashes_witness:
  "fst (interact_line sample_run sample_requests False (9, '' '') (two_lines, [], [], []) sample_tstate) = Inl Crashed"
  by (rule blank_line_crashes) (simp add: isspace_def)


section \<open>Lists of periods\<close>

text \<open>The periods as text, separated by commas.\<close>

fun periods_text :: "u32 list \<Rightarrow> string" where
  "periods_text [] = []"
| "periods_text [p] = debounce_text (ucast p)"
| "periods_text (p # ps) = debounce_text (ucast p) @ CHR '','' # periods_text ps"

lemma digits_no_comma: "CHR '','' \<notin> set (decimal n)"
  using isdigit_decimal [of "CHR '',''" n] by (auto simp: isdigit_def)

lemma debounce_text_no_comma: "CHR '','' \<notin> set (debounce_text d)"
  by (simp add: debounce_text_def digits_no_comma)

lemma commas_in_text: "ps \<noteq> [] \<Longrightarrow> length (filter (\<lambda>ch. ch = CHR '','') (periods_text ps)) = length ps - 1"
proof (induction ps rule: periods_text.induct)
  case (3 p q ps)
  then show ?case using debounce_text_no_comma [of "ucast p"] by (auto simp: filter_empty_conv)
qed (use debounce_text_no_comma in \<open>auto simp: filter_empty_conv\<close>)

lemma parse_period_debounce:
  assumes "unat p \<le> 2147483647"
  shows "parse_period_or_die (debounce_text (ucast (p :: u32))) = Inr p"
proof -
  have "unat p < 2 ^ 32" using unsigned_less [of p, where 'a = nat] by simp
  then have u: "unat (ucast p :: u64) = unat p" by (simp add: unsigned_ucast_eq take_bit_nat_eq_self)
  have "uint (ucast p :: u64) = uint p" using u by (metis uint_nat)
  then have "parse_period (debounce_text (ucast p)) = uint p"
    using debounce_text_parses [of "ucast p"] assms u by simp
  then show ?thesis by (simp add: parse_period_or_die_def not_less)
qed

lemma parse_periods_loop_text:
  assumes "ps \<noteq> []" "list_all (\<lambda>p. unat p \<le> 2147483647) ps"
  shows "parse_periods_loop (length ps - 1) (periods_text ps) = Inr ps"
  using assms
proof (induction ps rule: periods_text.induct)
  case (2 p)
  then show ?case by (simp add: parse_period_debounce set_arg_def)
next
  case (3 p q ps)
  note cut_at_first [OF debounce_text_no_comma [of "ucast p"]]
  with 3 show ?case by (simp add: parse_period_debounce set_arg_def)
qed simp

text \<open>
  C36: Lists of periods.  A list of toggle periods written as text, each in the largest unit that
  divides it and separated by commas, is read back by \<open>parse_periods_or_die\<close>, in a fresh array.
\<close>

theorem parse_periods_round_trip:
  assumes "ps \<noteq> []" "list_all (\<lambda>p. unat p \<le> 2147483647) ps" "malloc c = (Some pp, c')"
  shows "parse_periods_or_die (periods_text ps) c = Inr ((pp, ps), c')"
  using parse_periods_loop_text [OF assms(1,2)] commas_in_text [OF assms(1)] assms(3)
  by (simp add: parse_periods_or_die_def set_arg_def Let_def)

theorem parse_periods_round_trip_witness:
  "parse_periods_or_die ''20ms,1s,0s'' crt_init = Inr ((0, [20000, 1000000, 0]), crt_init\<lparr>nalloc := 1, live := {0}\<rparr>)"
proof -
  have t: "periods_text [20000, 1000000, 0] = ''20ms,1s,0s''" by code_simp
  have m: "malloc crt_init = (Some 0, crt_init\<lparr>nalloc := 1, live := {0}\<rparr>)"
    by (simp add: malloc_def crt_init_def)
  from parse_periods_round_trip [OF _ _ m, of "[20000, 1000000, 0]"] show ?thesis
    unfolding t by simp
qed

section \<open>Reading outside the line buffer\<close>

text \<open>
  Completion on the word \<open>set\<close> at the start of a line that already has parameters reads the character
  before the buffer.
\<close>

lemma tab_completion_reads_before_buffer: "tab_completion ''set LED0=1'' 0 3 = None"
  by code_simp

text \<open>An identifier that is empty stands for the offset \<open>0\<close>, and completion then never returns.\<close>

lemma empty_id_is_offset_0: "parse_uint [] = 0"
  by (simp add: parse_uint_def strtoul_def INT_MAX_def)

lemma empty_id_completion_hangs: "in_line_buffer ''set '' [] = None"
  by code_simp

end
