(* ===== verification/Gpiomon.thy ===== *)
theory Gpiomon
  imports Tool_Program
begin

text \<open>
  \<open>tools/gpiomon.c\<close>: waiting for edge events and printing them.  The event loop is a partial function;
  \<open>None\<close> is a run that waits forever.
\<close>

section \<open>Configuration\<close>

text \<open>\<open>bias\<close> and \<open>event_clock\<close> are \<open>None\<close> for a zero, \<open>chip_id\<close> and \<open>fmt\<close> for \<open>NULL\<close>.\<close>

record gpiomon_config =
  gm_active_low :: bool
  gm_banner :: bool
  gm_by_name :: bool
  gm_quiet :: bool
  gm_strict :: bool
  gm_unquoted :: bool
  gm_bias :: "gpiod_line_bias option"
  gm_edges :: gpiod_line_edge
  gm_events_wanted :: int
  gm_debounce_period_us :: u32
  gm_chip_id :: "string option"
  gm_consumer :: string
  gm_fmt :: "string option"
  gm_event_clock :: "gpiod_line_clock option"
  gm_timestamp_fmt :: int
  gm_timeout :: int

definition parse_edges_or_die :: "string \<Rightarrow> gpiod_line_edge tool" where
  "parse_edges_or_die option =
     (if option = ''rising'' then Inr GPIOD_LINE_EDGE_RISING
      else if option = ''falling'' then Inr GPIOD_LINE_EDGE_FALLING
      else if option \<noteq> ''both'' then die (''invalid edges: '' @ option)
      else Inr GPIOD_LINE_EDGE_BOTH)"

definition parse_event_clock_or_die :: "string \<Rightarrow> gpiod_line_clock tool" where
  "parse_event_clock_or_die option =
     (if option = ''realtime'' then Inr GPIOD_LINE_CLOCK_REALTIME
      else if option = ''hte'' then Inr GPIOD_LINE_CLOCK_HTE
      else if option \<noteq> ''monotonic'' then die (''invalid event clock: '' @ option)
      else Inr GPIOD_LINE_CLOCK_MONOTONIC)"

definition gpiomon_longopts :: "longopt list" where
  "gpiomon_longopts = [(''active-low'', False, Code CHR ''l''), (''banner'', False, Code CHR ''-''),
     (''bias'', True, Code CHR ''b''), (''by-name'', False, Code CHR ''B''), (''chip'', True, Code CHR ''c''),
     (''consumer'', True, Code CHR ''C''), (''debounce-period'', True, Code CHR ''p''),
     (''edges'', True, Code CHR ''e''), (''event-clock'', True, Code CHR ''E''),
     (''format'', True, Code CHR ''F''), (''help'', False, Code CHR ''h''),
     (''idle-timeout'', True, Code CHR ''i''), (''localtime'', False, SetFlag 2),
     (''num-events'', True, Code CHR ''n''), (''quiet'', False, Code CHR ''q''),
     (''silent'', False, Code CHR ''q''), (''strict'', False, Code CHR ''s''),
     (''unquoted'', False, Code CHR ''Q''), (''utc'', False, SetFlag 1), (''version'', False, Code CHR ''v'')]"

definition gpiomon_default :: gpiomon_config where
  "gpiomon_default = \<lparr>gm_active_low = False, gm_banner = False, gm_by_name = False, gm_quiet = False,
     gm_strict = False, gm_unquoted = False, gm_bias = None, gm_edges = GPIOD_LINE_EDGE_BOTH,
     gm_events_wanted = 0, gm_debounce_period_us = 0, gm_chip_id = None, gm_consumer = ''gpiomon'',
     gm_fmt = None, gm_event_clock = None, gm_timestamp_fmt = 0, gm_timeout = -1\<rparr>"

text \<open>The switch over \<open>optc\<close>; an option with a \<open>flag\<close> pointer has stored its value.\<close>

definition gpiomon_option :: "string \<Rightarrow> opt \<Rightarrow> gpiomon_config \<Rightarrow> gpiomon_config tool" where
  "gpiomon_option prog opt cfg =
     (case opt of OptFlag n \<Rightarrow> Inr (cfg\<lparr>gm_timestamp_fmt := n\<rparr>) | _ \<Rightarrow>
      if is_opt CHR ''-'' opt then Inr (cfg\<lparr>gm_banner := True\<rparr>)
      else if is_opt CHR ''b'' opt
      then set_arg (parse_bias_or_die (optarg opt)) (\<lambda>b. cfg\<lparr>gm_bias := Some b\<rparr>)
      else if is_opt CHR ''B'' opt then Inr (cfg\<lparr>gm_by_name := True\<rparr>)
      else if is_opt CHR ''c'' opt then Inr (cfg\<lparr>gm_chip_id := Some (optarg opt)\<rparr>)
      else if is_opt CHR ''C'' opt then Inr (cfg\<lparr>gm_consumer := optarg opt\<rparr>)
      else if is_opt CHR ''e'' opt
      then set_arg (parse_edges_or_die (optarg opt)) (\<lambda>e. cfg\<lparr>gm_edges := e\<rparr>)
      else if is_opt CHR ''E'' opt
      then set_arg (parse_event_clock_or_die (optarg opt)) (\<lambda>e. cfg\<lparr>gm_event_clock := Some e\<rparr>)
      else if is_opt CHR ''F'' opt then Inr (cfg\<lparr>gm_fmt := Some (optarg opt)\<rparr>)
      else if is_opt CHR ''i'' opt
      then set_arg (parse_period_or_die (optarg opt)) (\<lambda>p. cfg\<lparr>gm_timeout := uint (p div 1000)\<rparr>)
      else if is_opt CHR ''l'' opt then Inr (cfg\<lparr>gm_active_low := True\<rparr>)
      else if is_opt CHR ''n'' opt
      then set_arg (parse_uint_or_die (optarg opt)) (\<lambda>n. cfg\<lparr>gm_events_wanted := sint n\<rparr>)
      else if is_opt CHR ''p'' opt
      then set_arg (parse_period_or_die (optarg opt)) (\<lambda>p. cfg\<lparr>gm_debounce_period_us := p\<rparr>)
      else if is_opt CHR ''q'' opt then Inr (cfg\<lparr>gm_quiet := True\<rparr>)
      else if is_opt CHR ''Q'' opt then Inr (cfg\<lparr>gm_unquoted := True\<rparr>)
      else if is_opt CHR ''s'' opt then Inr (cfg\<lparr>gm_strict := True\<rparr>)
      else common_option prog opt cfg)"

text \<open>The default combinations of clock and format.\<close>

definition default_clock :: "gpiomon_config \<Rightarrow> gpiomon_config" where
  "default_clock cfg =
     (case gm_event_clock cfg of
        None \<Rightarrow>
          if gm_timestamp_fmt cfg \<noteq> 0 then cfg\<lparr>gm_event_clock := Some GPIOD_LINE_CLOCK_REALTIME\<rparr>
          else cfg\<lparr>gm_event_clock := Some GPIOD_LINE_CLOCK_MONOTONIC\<rparr>
      | Some clock \<Rightarrow>
          if clock = GPIOD_LINE_CLOCK_REALTIME \<and> gm_timestamp_fmt cfg = 0
          then cfg\<lparr>gm_timestamp_fmt := 1\<rparr> else cfg)"

definition gpiomon_parse_config :: "string \<Rightarrow> string list \<Rightarrow> (gpiomon_config \<times> string list) tool" where
  "gpiomon_parse_config prog args =
     (case getopt_long ''+b:c:C:e:E:hF:ln:p:qshv'' gpiomon_longopts args of
        (opts, rest) \<Rightarrow>
          set_arg (option_loop (gpiomon_option prog) opts gpiomon_default) (\<lambda>cfg. (default_clock cfg, rest)))"

section \<open>Printing\<close>

definition gpiomon_print_banner :: "string list \<Rightarrow> string" where
  "gpiomon_print_banner lines = banner_text ''Monitoring'' lines"

definition edge_event_type_int :: "gpiod_edge_event_type \<Rightarrow> nat" where
  "edge_event_type_int t = (case t of
     GPIOD_EDGE_EVENT_RISING_EDGE \<Rightarrow> 1 | GPIOD_EDGE_EVENT_FALLING_EDGE \<Rightarrow> 2 | GPIOD_EDGE_EVENT_UNSET \<Rightarrow> 0)"

text \<open>The switch over the format character.\<close>

definition mon_expand :: "'k run_env \<Rightarrow> gpiod_edge_event \<Rightarrow> line_resolver \<Rightarrow> nat \<Rightarrow> char \<Rightarrow> string" where
  "mon_expand E event resolver chip_num f =
     (let offset = gpiod_edge_event_get_line_offset event;
          evtime = gpiod_edge_event_get_timestamp_ns event;
          evtype = gpiod_edge_event_get_event_type event
      in
        if f = CHR ''c'' then get_chip_name resolver chip_num
        else if f = CHR ''e'' then decimal (edge_event_type_int evtype)
        else if f = CHR ''E''
        then (if evtype = GPIOD_EDGE_EVENT_RISING_EDGE then ''rising'' else ''falling'')
        else if f = CHR ''l''
        then (case get_line_name resolver (int chip_num) offset of None \<Rightarrow> ''unnamed'' | Some lname \<Rightarrow> lname)
        else if f = CHR ''L'' then print_event_time (re_utc E) (re_local E) evtime 2
        else if f = CHR ''o'' then decimal (unat offset)
        else if f = CHR ''S'' then print_event_time (re_utc E) (re_local E) evtime 0
        else if f = CHR ''U'' then print_event_time (re_utc E) (re_local E) evtime 1
        else if f = CHR ''%'' then ''%''
        else [CHR ''%'', f])"

definition mon_print_formatted :: "'k run_env \<Rightarrow> string \<Rightarrow> gpiod_edge_event \<Rightarrow> line_resolver \<Rightarrow> nat
    \<Rightarrow> ('k, unit) prog" where
  "mon_print_formatted E fmt event resolver chip_num =
     exec (format_loop (\<lambda>f. out (mon_expand E event resolver chip_num f)) fmt) (\<lambda>_. out [CHR 10])"

definition mon_print_human_readable :: "'k run_env \<Rightarrow> gpiomon_config \<Rightarrow> gpiod_edge_event \<Rightarrow> line_resolver \<Rightarrow> nat
    \<Rightarrow> ('k, unit) prog" where
  "mon_print_human_readable E cfg event resolver chip_num =
     out (print_event_time (re_utc E) (re_local E) (gpiod_edge_event_get_timestamp_ns event) (gm_timestamp_fmt cfg)
       @ (if gpiod_edge_event_get_event_type event = GPIOD_EDGE_EVENT_RISING_EDGE
          then [CHR 9] @ ''rising'' @ [CHR 9] else [CHR 9] @ ''falling'' @ [CHR 9])
       @ print_line_id resolver chip_num (gpiod_edge_event_get_line_offset event) (gm_chip_id cfg) (gm_unquoted cfg)
       @ [CHR 10])"

definition mon_event_print :: "'k run_env \<Rightarrow> gpiomon_config \<Rightarrow> gpiod_edge_event \<Rightarrow> line_resolver \<Rightarrow> nat
    \<Rightarrow> ('k, unit) prog" where
  "mon_event_print E cfg event resolver chip_num =
     (if gm_quiet cfg then give ()
      else case gm_fmt cfg of
        Some fmt \<Rightarrow> mon_print_formatted E fmt event resolver chip_num
      | None \<Rightarrow> mon_print_human_readable E cfg event resolver chip_num)"

section \<open>The event loop\<close>

definition EVENT_BUF_SIZE :: nat where
  "EVENT_BUF_SIZE = 32"

text \<open>The loop over the events read; the flag of the result is the jump to the label \<open>done\<close>.\<close>

fun mon_events :: "'k run_env \<Rightarrow> gpiomon_config \<Rightarrow> line_resolver \<Rightarrow> gpiod_edge_event_buffer \<Rightarrow> nat \<Rightarrow> nat list
    \<Rightarrow> int \<Rightarrow> ('k, bool \<times> int) prog" where
  "mon_events E cfg resolver buffer i [] events_done = give (False, events_done)"
| "mon_events E cfg resolver buffer i (j # js) events_done =
     exec (or_perror ''unable to retrieve event from buffer''
       (crt_call (gpiod_edge_event_buffer_get_event buffer j))) (\<lambda>event.
     exec (mon_event_print E cfg event resolver i) (\<lambda>_.
     if gm_events_wanted cfg \<noteq> 0 \<and> events_done + 1 \<ge> gm_events_wanted cfg
     then give (True, events_done + 1)
     else mon_events E cfg resolver buffer i js (events_done + 1)))"

text \<open>The loop over the descriptors that are ready.\<close>

fun mon_chips :: "'k run_env \<Rightarrow> gpiomon_config \<Rightarrow> line_resolver \<Rightarrow> gpiod_line_request obj list \<Rightarrow> (nat \<times> bool) list
    \<Rightarrow> gpiod_edge_event_buffer \<times> int \<Rightarrow> ('k, bool \<times> gpiod_edge_event_buffer \<times> int) prog" where
  "mon_chips E cfg resolver requests [] st = give (False, st)"
| "mon_chips E cfg resolver requests ((i, revents) # rest) st =
     (if \<not> revents then mon_chips E cfg resolver requests rest st
      else
      exec (sys_call (\<lambda>c k. case gpiod_line_request_read_edge_events (re_kernel E) (snd (requests ! i))
          (Some (fst st)) EVENT_BUF_SIZE c k of (ret, buffer, c, k) \<Rightarrow> ((ret, the buffer), c, k))) (\<lambda>(ret, buffer).
      if ret < 0 then quit_perror ''error reading line events''
      else
      exec (mon_events E cfg resolver buffer i [0..<nat ret] (snd st)) (\<lambda>(finished, events_done).
      if finished then give (True, buffer, events_done)
      else mon_chips E cfg resolver requests rest (buffer, events_done))))"

definition mon_round :: "'k run_env \<Rightarrow> gpiomon_config \<Rightarrow> line_resolver \<Rightarrow> gpiod_line_request obj list
    \<Rightarrow> gpiod_edge_event_buffer \<times> int \<Rightarrow> ('k, bool \<times> gpiod_edge_event_buffer \<times> int) prog" where
  "mon_round E cfg resolver requests st =
     exec (or_perror ''error polling for events''
       (sys_call (poll E (map (\<lambda>r. gpiod_line_request_get_fd (snd r)) requests) (gm_timeout cfg)))) (\<lambda>revents.
     if \<not> list_ex (\<lambda>b. b) revents then give (True, st)
     else mon_chips E cfg resolver requests (zip [0..<rv_num_chips resolver] revents) st)"

partial_function (option) mon_loop :: "'k run_env \<Rightarrow> gpiomon_config \<Rightarrow> line_resolver \<Rightarrow> gpiod_line_request obj list
    \<Rightarrow> gpiod_edge_event_buffer \<times> int \<Rightarrow> 'k tstate
    \<Rightarrow> ((gpiod_edge_event_buffer \<times> int) tool \<times> 'k tstate) option" where
  "mon_loop E cfg resolver requests st s =
     (case mon_round E cfg resolver requests st s of
        (Inl e, s) \<Rightarrow> Some (Inl e, s)
      | (Inr (finished, st), s) \<Rightarrow>
          if finished then Some (Inr st, s) else mon_loop E cfg resolver requests st s)"

section \<open>The program\<close>

definition gpiomon_settings :: "gpiomon_config \<Rightarrow> gpiod_line_settings \<Rightarrow> crt \<Rightarrow> gpiod_line_settings \<times> crt" where
  "gpiomon_settings cfg settings c =
     (case (case gm_bias cfg of
              None \<Rightarrow> (settings, c) | Some b \<Rightarrow> snd (gpiod_line_settings_set_bias settings b c)) of
        (settings, c) \<Rightarrow>
          let settings = (if gm_active_low cfg then gpiod_line_settings_set_active_low settings True else settings);
              settings = (if gm_debounce_period_us cfg \<noteq> 0
                then gpiod_line_settings_set_debounce_period_us settings (ucast (gm_debounce_period_us cfg))
                else settings)
          in
            (case gpiod_line_settings_set_event_clock settings (the (gm_event_clock cfg)) c of
               (_, settings, c) \<Rightarrow> snd (gpiod_line_settings_set_edge_detection settings (gm_edges cfg) c)))"

text \<open>The loop over the chips: the requests made so far, the configuration object and the offsets array.\<close>

definition gpiomon_chip :: "'k run_env \<Rightarrow> gpiod_line_settings \<Rightarrow> gpiod_request_config \<Rightarrow> line_resolver \<Rightarrow> nat
    \<Rightarrow> gpiod_line_request obj list \<times> gpiod_line_config \<times> u32 list
    \<Rightarrow> ('k, gpiod_line_request obj list \<times> gpiod_line_config \<times> u32 list) prog" where
  "gpiomon_chip E settings req_cfg resolver i st =
     (case st of (requests, line_cfg, offsets) \<Rightarrow>
      case get_line_offsets_and_values resolver (int i) offsets None of (num_lines, offsets, _) \<Rightarrow>
      let path = snd (the (rch_path (rv_chips resolver ! i))) in
      exec (crt_call (gpiod_line_config_reset line_cfg)) (\<lambda>line_cfg.
      exec (crt_call (\<lambda>c. case gpiod_line_config_add_line_settings line_cfg (Some (take num_lines offsets))
        (Some settings) c of (ret, line_cfg, c) \<Rightarrow> ((ret, line_cfg), c))) (\<lambda>(ret, line_cfg).
      if ret \<noteq> 0 then quit_perror ''unable to add line settings'' else
      exec (or_perror (''unable to open chip '' @ [CHR 0x27] @ path @ [CHR 0x27])
        (sys_call (gpiod_chip_open (re_kernel E) (Some path)))) (\<lambda>chip.
      exec (or_perror (''unable to request lines on chip '' @ path)
        (sys_call (gpiod_chip_request_lines (re_kernel E) (snd chip) (Some req_cfg) (Some line_cfg)))) (\<lambda>request.
      exec (sys_do (gpiod_chip_close (re_kernel E) (Some chip))) (\<lambda>_.
      give (requests @ [request], line_cfg, offsets)))))))"

text \<open>
  The part of \<open>main\<close> before the event loop: configuration, lines, event buffer, resolver, requests and
  the blocks of the arrays \<open>requests\<close> and \<open>offsets\<close>.
\<close>

definition gpiomon_setup :: "'k run_env \<Rightarrow> string \<Rightarrow> string list
    \<Rightarrow> ('k, gpiomon_config \<times> string list \<times> gpiod_edge_event_buffer obj \<times> line_resolver obj
         \<times> gpiod_line_request obj list \<times> nat \<times> nat) prog" where
  "gpiomon_setup E prog args =
     exec (of_tool (gpiomon_parse_config prog args)) (\<lambda>(cfg, lines).
     if length lines < 1 then quit ''at least one GPIO line must be specified''
     else if length lines > 64 then quit ''too many lines given'' else
     exec (or_perror ''unable to allocate line settings'' (crt_call gpiod_line_settings_new)) (\<lambda>settings.
     exec (crt_call (gpiomon_settings cfg (snd settings))) (\<lambda>new_settings.
     exec (or_perror ''unable to allocate the line config structure'' (crt_call gpiod_line_config_new)) (\<lambda>line_cfg.
     exec (or_perror ''unable to allocate the request config structure'' (crt_call gpiod_request_config_new)) (\<lambda>req_cfg.
     exec (or_perror ''unable to allocate the line event buffer''
       (crt_call (gpiod_edge_event_buffer_new EVENT_BUF_SIZE))) (\<lambda>event_buffer.
     exec (tool_call (resolve_lines (re_tool E) lines (gm_chip_id cfg) (gm_strict cfg) (gm_by_name cfg))) (\<lambda>resolver.
     exec (of_tool (validate_resolution (snd resolver) (gm_chip_id cfg))) (\<lambda>_.
     exec (crt_call malloc) (\<lambda>requests_blk. exec (crt_call malloc) (\<lambda>pollfds. exec (crt_call malloc) (\<lambda>offsets_blk.
     if requests_blk = None \<or> pollfds = None \<or> offsets_blk = None then quit ''out of memory'' else
     exec (foldp (gpiomon_chip E new_settings
         (gpiod_request_config_set_consumer (snd req_cfg) (Some (gm_consumer cfg))) (snd resolver))
       [0..<rv_num_chips (snd resolver)] ([], snd line_cfg, replicate (length lines) 0))
       (\<lambda>(requests, line_cfg', offsets).
     exec (crt_do (gpiod_request_config_free req_cfg)) (\<lambda>_.
     exec (crt_do (gpiod_line_config_free (Some (fst line_cfg, line_cfg')))) (\<lambda>_.
     exec (crt_do (gpiod_line_settings_free (fst settings, new_settings))) (\<lambda>_.
     exec (only_if (gm_banner cfg) (out (gpiomon_print_banner lines))) (\<lambda>_.
     give (cfg, lines, event_buffer, resolver, requests, the requests_blk, the offsets_blk)))))))))))))))))"

text \<open>The end of \<open>main\<close>, from the label \<open>done\<close> on.\<close>

definition gpiomon_cleanup :: "'k run_env \<Rightarrow> gpiod_line_request obj list \<Rightarrow> line_resolver obj
    \<Rightarrow> gpiod_edge_event_buffer obj \<Rightarrow> nat \<Rightarrow> nat \<Rightarrow> ('k, unit) prog" where
  "gpiomon_cleanup E requests resolver event_buffer requests_blk offsets_blk =
     exec (each (\<lambda>request. sys_do (gpiod_line_request_release (re_kernel E) (Some request))) requests) (\<lambda>_.
     exec (crt_do (free requests_blk)) (\<lambda>_.
     exec (crt_do (free_line_resolver (Some resolver))) (\<lambda>_.
     exec (crt_do (gpiod_edge_event_buffer_free (Some event_buffer))) (\<lambda>_.
     crt_do (free offsets_blk)))))"

definition gpiomon_main :: "'k run_env \<Rightarrow> string \<Rightarrow> string list \<Rightarrow> ('k, unit) run" where
  "gpiomon_main E prog args s =
     and_then (Some (gpiomon_setup E prog args s))
       (\<lambda>(cfg, lines, event_buffer, resolver, requests, requests_blk, offsets_blk) s.
     and_then (mon_loop E cfg (snd resolver) requests (snd event_buffer, 0) s) (\<lambda>(buffer, events_done) s.
     Some (gpiomon_cleanup E requests resolver (fst event_buffer, buffer) requests_blk offsets_blk s)))"

section \<open>Events are delivered\<close>

text \<open>Printing an event always returns.\<close>

lemma format_loop_out: "\<exists>s'. format_loop (\<lambda>f. out (g f)) fmt s = (Inr (), s')"
proof (induction "\<lambda>f. out (g f) :: ('k, unit) prog" fmt arbitrary: s rule: format_loop.induct)
  case (2 ch fmt)
  then show ?case
    by (cases "ch = CHR ''%''"; cases fmt) (auto simp: exec_def out_def)
qed (simp add: give_def)

lemma mon_event_print_Inr: "\<exists>s'. mon_event_print E cfg event resolver i s = (Inr (), s')"
proof (cases "gm_fmt cfg")
  case None
  then show ?thesis by (simp add: mon_event_print_def mon_print_human_readable_def give_def out_def)
next
  case (Some fmt)
  obtain s1 where "format_loop (\<lambda>f. out (mon_expand E event resolver i f)) fmt s = (Inr (), s1)"
    using format_loop_out by blast
  then show ?thesis by (simp add: Some mon_event_print_def mon_print_formatted_def exec_def give_def out_def)
qed

lemma mon_events_count:
  assumes "gm_events_wanted cfg > 0" "done < gm_events_wanted cfg" "\<forall>j \<in> set js. j < eb_num_events buffer"
  shows "\<exists>fin n s'. mon_events E cfg resolver buffer i js done s = (Inr (fin, n), s')
    \<and> (fin \<longrightarrow> n = gm_events_wanted cfg) \<and> (\<not> fin \<longrightarrow> n = done + int (length js) \<and> n < gm_events_wanted cfg)"
  using assms(2,3)
proof (induction js arbitrary: "done" s)
  case Nil
  then show ?case by (auto simp: give_def)
next
  case (Cons j js)
  let ?ev = "snd (eb_events buffer) ! j"
  have get: "or_perror ''unable to retrieve event from buffer''
      (crt_call (gpiod_edge_event_buffer_get_event buffer j)) s = (Inr ?ev, s)"
    using Cons.prems(2) by (simp add: prog_defs gpiod_edge_event_buffer_get_event_def)
  obtain s1 where pr: "mon_event_print E cfg ?ev resolver i s = (Inr (), s1)" using mon_event_print_Inr by blast
  show ?case
  proof (cases "done + 1 \<ge> gm_events_wanted cfg")
    case True
    with Cons.prems assms(1) have "done + 1 = gm_events_wanted cfg" by simp
    with assms(1) show ?thesis by (auto simp: exec_def get pr give_def)
  next
    case False
    then obtain fin n s' where "mon_events E cfg resolver buffer i js (done + 1) s1 = (Inr (fin, n), s')"
      "fin \<longrightarrow> n = gm_events_wanted cfg" "\<not> fin \<longrightarrow> n = done + 1 + int (length js) \<and> n < gm_events_wanted cfg"
      using Cons.IH [of "done + 1" s1] Cons.prems by auto
    with False show ?thesis by (auto simp: exec_def get pr split: if_splits)
  qed
qed

text \<open>
  Events keep coming: \<open>poll\<close> always finds a descriptor ready, and a read always delivers at least one
  event.
\<close>

definition events_flow :: "'k run_env \<Rightarrow> bool" where
  "events_flow E \<longleftrightarrow> read_contract (re_kernel E)
     \<and> (\<forall>fds t k. fds \<noteq> [] \<longrightarrow> (\<exists>revents k'. re_poll E fds t k = (Inr revents, k')
          \<and> length revents = length fds \<and> list_ex (\<lambda>b. b) revents))
     \<and> (\<forall>fd n k. sizeof_line_event \<le> n \<longrightarrow>
          (\<exists>rd evs k'. k_read_events (re_kernel E) fd n k = (Inr (rd, evs), k') \<and> evs \<noteq> []))"

lemma flow_poll:
  assumes "events_flow E" "fds \<noteq> []"
  shows "\<exists>revents k'. re_poll E fds t k = (Inr revents, k') \<and> length revents = length fds \<and> list_ex (\<lambda>b. b) revents"
  using assms unfolding events_flow_def by blast

lemma read_some:
  assumes flow: "events_flow E" and ok: "buffer_ok b"
  shows "\<exists>n b' c' k'. gpiod_line_request_read_edge_events (re_kernel E) req (Some b) EVENT_BUF_SIZE c k
    = (int n, Some b', c', k') \<and> 0 < n \<and> buffer_ok b' \<and> eb_num_events b' = n"
proof -
  let ?n = "min EVENT_BUF_SIZE (eb_capacity b) * sizeof_line_event"
  have "sizeof_line_event \<le> ?n" using ok by (simp add: buffer_ok_def EVENT_BUF_SIZE_def sizeof_line_event_def)
  then obtain rd evs k' where rd: "k_read_events (re_kernel E) (req_fd req) ?n k = (Inr (rd, evs), k')" "evs \<noteq> []"
    using flow unfolding events_flow_def by blast
  have kc: "read_contract (re_kernel E)" using flow by (simp add: events_flow_def)
  show ?thesis
    by (cases rule: read_fd_cases [OF kc ok rd(1), of c, case_names failed nothing events])
      (use rd(2) in \<open>auto simp: gpiod_line_request_read_edge_events_def\<close>)
qed

lemma mon_chips_progress:
  assumes flow: "events_flow E" and w: "gm_events_wanted cfg > 0"
    and "snd st < gm_events_wanted cfg" "buffer_ok (fst st)"
  shows "\<exists>fin b n s'. mon_chips E cfg resolver requests ready st s = (Inr (fin, b, n), s') \<and> buffer_ok b
    \<and> (fin \<longrightarrow> n = gm_events_wanted cfg)
    \<and> (\<not> fin \<longrightarrow> n < gm_events_wanted cfg \<and> snd st + of_bool (list_ex snd ready) \<le> n)"
  using assms(3,4)
proof (induction ready arbitrary: st s)
  case Nil
  then show ?case by (cases st) (auto simp: give_def)
next
  case (Cons x ready)
  obtain i hit where x: "x = (i, hit)" by (cases x)
  show ?case
  proof (cases hit)
    case False
    then have "mon_chips E cfg resolver requests (x # ready) st s = mon_chips E cfg resolver requests ready st s"
      "list_ex snd (x # ready) = list_ex snd ready" by (simp_all add: x)
    with Cons.IH [OF Cons.prems, of s] show ?thesis by (simp only:)
  next
    case True
    obtain n b c k where rd: "gpiod_line_request_read_edge_events (re_kernel E) (snd (requests ! i)) (Some (fst st))
        EVENT_BUF_SIZE (ts_crt s) (ts_k s) = (int n, Some b, c, k)" "0 < n" "buffer_ok b" "eb_num_events b = n"
      using read_some [OF flow Cons.prems(2)] by blast
    define s1 where "s1 = s\<lparr>ts_crt := c, ts_k := k\<rparr>"
    obtain fin d s2 where ev: "mon_events E cfg resolver b i [0..<n] (snd st) s1 = (Inr (fin, d), s2)"
      and d: "fin \<longrightarrow> d = gm_events_wanted cfg" "\<not> fin \<longrightarrow> d = snd st + int n \<and> d < gm_events_wanted cfg"
      using mon_events_count [OF w Cons.prems(1), of "[0..<n]" b E resolver i s1] rd(4) by auto
    note call = sys_call_def rd(1) ev [unfolded s1_def]
    show ?thesis
    proof (cases fin)
      case True
      then have "mon_chips E cfg resolver requests (x # ready) st s = (Inr (True, b, d), s2)"
        using \<open>hit\<close> by (simp add: x exec_def call give_def)
      with True d rd(3) show ?thesis by auto
    next
      case False
      have "snd (b, d) < gm_events_wanted cfg" "buffer_ok (fst (b, d))" using d False rd(3) by auto
      from Cons.IH [OF this, of s2] obtain fin' b' n' s' where
        rest: "mon_chips E cfg resolver requests ready (b, d) s2 = (Inr (fin', b', n'), s')" "buffer_ok b'" and
        n': "fin' \<longrightarrow> n' = gm_events_wanted cfg" "\<not> fin' \<longrightarrow> n' < gm_events_wanted cfg \<and> d \<le> n'"
        by (auto simp: of_bool_def split: if_splits)
      have "mon_chips E cfg resolver requests (x # ready) st s = (Inr (fin', b', n'), s')"
        using \<open>hit\<close> False by (simp add: x exec_def call rest(1))
      moreover have "\<not> fin' \<longrightarrow> n' < gm_events_wanted cfg \<and> snd st + of_bool (list_ex snd (x # ready)) \<le> n'"
        using n'(2) d(2) False rd(2) by (auto simp: of_bool_def)
      ultimately show ?thesis using rest(2) n'(1) by blast
    qed
  qed
qed

lemma list_ex_zip: "length xs = length bs \<Longrightarrow> list_ex snd (zip xs bs) = list_ex (\<lambda>b. b) bs"
  by (induction xs bs rule: list_induct2) simp_all

text \<open>
  C13: Monitoring delivers.  When events keep coming, \<open>gpiomon\<close> asked for a positive number of events
  leaves its loop, having handled exactly that many.
\<close>

theorem mon_loop_delivers:
  assumes flow: "events_flow E" and w: "gm_events_wanted cfg > 0"
    and req: "requests \<noteq> []" "rv_num_chips resolver = length requests"
    and st: "snd st < gm_events_wanted cfg" "buffer_ok (fst st)"
  shows "\<exists>b s'. mon_loop E cfg resolver requests st s = Some (Inr (b, gm_events_wanted cfg), s')"
  using st
proof (induction "nat (gm_events_wanted cfg - snd st)" arbitrary: st s rule: less_induct)
  case less
  let ?fds = "map (\<lambda>r. gpiod_line_request_get_fd (snd r)) requests"
  obtain revents k' where pl: "re_poll E ?fds (gm_timeout cfg) (ts_k s) = (Inr revents, k')"
    "length revents = length requests" "list_ex (\<lambda>b. b) revents"
    using flow_poll [OF flow, of ?fds "gm_timeout cfg" "ts_k s"] req(1) by auto
  define s1 where "s1 = s\<lparr>ts_k := k'\<rparr>"
  obtain fin b n s2 where ch: "mon_chips E cfg resolver requests (zip [0..<length requests] revents) st s1
      = (Inr (fin, b, n), s2)" "buffer_ok b"
      "fin \<longrightarrow> n = gm_events_wanted cfg" "\<not> fin \<longrightarrow> n < gm_events_wanted cfg \<and> snd st + 1 \<le> n"
    using mon_chips_progress [OF flow w less.prems, of resolver requests "zip [0..<length requests] revents" s1]
      list_ex_zip [of "[0..<length requests]" revents] pl(2,3) that by fastforce
  have round: "mon_round E cfg resolver requests st s = (Inr (fin, b, n), s2)"
    using pl ch(1) by (simp add: mon_round_def prog_defs poll_def req(2) s1_def)
  show ?case
  proof (cases fin)
    case True
    with ch(3) show ?thesis by (subst mon_loop.simps) (simp add: round)
  next
    case False
    then have n: "n < gm_events_wanted cfg" "snd st + 1 \<le> n" using ch(4) by auto
    then obtain b' s' where "mon_loop E cfg resolver requests (b, n) s2 = Some (Inr (b', gm_events_wanted cfg), s')"
      using less.hyps [of "(b, n)" s2] ch(2) by auto
    with False show ?thesis by (subst mon_loop.simps) (simp add: round)
  qed
qed

text \<open>A system with an endless stream of events on every descriptor.\<close>

definition flowing_run :: "nat list run_env" where
  "flowing_run = sample_run\<lparr>re_tool := sample_env\<lparr>te_kernel := null_kernel\<lparr>k_read_events :=
       (\<lambda>_ n k. if n < sizeof_line_event then (Inl EINVAL, k) else (Inr (sizeof_line_event, [zero_line_event]), k))\<rparr>\<rparr>,
     re_poll := (\<lambda>fds _ k. (Inr (map (\<lambda>_. True) fds), k))\<rparr>"

theorem mon_loop_delivers_witness:
  "\<exists>b s'. mon_loop flowing_run (gpiomon_default\<lparr>gm_events_wanted := 3\<rparr>) sample_lines
     [(10, sample_request), (12, sample_request)] (sample_buffer, 0)
     \<lparr>ts_crt = crt_init, ts_k = [], ts_out = [], ts_err = []\<rparr> = Some (Inr (b, 3), s')"
proof -
  have "events_flow flowing_run"
    by (auto simp: events_flow_def flowing_run_def read_contract_def null_kernel_def neq_Nil_conv
        split: if_splits)
  from mon_loop_delivers [OF this, of "gpiomon_default\<lparr>gm_events_wanted := 3\<rparr>"
      "[(10, sample_request), (12, sample_request)]" sample_lines "(sample_buffer, 0)"]
  show ?thesis using sample_buffer_ok by (simp add: sample_lines_def)
qed

end
