(* ===== verification/Gpionotify.thy ===== *)
theory Gpionotify
  imports Tool_Program
begin

text \<open>
  \<open>tools/gpionotify.c\<close>: watching lines and printing changes of their information.  The event loop is a
  partial function; \<open>None\<close> is a run that waits forever.
\<close>

section \<open>Configuration\<close>

record gpionotify_config =
  gn_banner :: bool
  gn_by_name :: bool
  gn_quiet :: bool
  gn_strict :: bool
  gn_unquoted :: bool
  gn_event_type :: "gpiod_info_event_type option"
  gn_events_wanted :: int
  gn_chip_id :: "string option"
  gn_fmt :: "string option"
  gn_timestamp_fmt :: int
  gn_timeout :: int

definition parse_event_type_or_die :: "string \<Rightarrow> gpiod_info_event_type tool" where
  "parse_event_type_or_die option =
     (if option = ''requested'' then Inr GPIOD_INFO_EVENT_LINE_REQUESTED
      else if option = ''released'' then Inr GPIOD_INFO_EVENT_LINE_RELEASED
      else if option \<noteq> ''reconfigured'' then die (''invalid edge: '' @ option)
      else Inr GPIOD_INFO_EVENT_LINE_CONFIG_CHANGED)"

definition gpionotify_longopts :: "longopt list" where
  "gpionotify_longopts = [(''banner'', False, Code CHR ''-''), (''by-name'', False, Code CHR ''B''),
     (''chip'', True, Code CHR ''c''), (''event'', True, Code CHR ''e''), (''format'', True, Code CHR ''F''),
     (''help'', False, Code CHR ''h''), (''idle-timeout'', True, Code CHR ''i''),
     (''localtime'', False, SetFlag 2), (''num-events'', True, Code CHR ''n''),
     (''quiet'', False, Code CHR ''q''), (''silent'', False, Code CHR ''q''),
     (''strict'', False, Code CHR ''s''), (''unquoted'', False, Code CHR ''Q''),
     (''utc'', False, SetFlag 1), (''version'', False, Code CHR ''v'')]"

definition gpionotify_default :: gpionotify_config where
  "gpionotify_default = \<lparr>gn_banner = False, gn_by_name = False, gn_quiet = False, gn_strict = False,
     gn_unquoted = False, gn_event_type = None, gn_events_wanted = 0, gn_chip_id = None, gn_fmt = None,
     gn_timestamp_fmt = 0, gn_timeout = -1\<rparr>"

definition gpionotify_option :: "string \<Rightarrow> opt \<Rightarrow> gpionotify_config \<Rightarrow> gpionotify_config tool" where
  "gpionotify_option prog opt cfg =
     (case opt of OptFlag n \<Rightarrow> Inr (cfg\<lparr>gn_timestamp_fmt := n\<rparr>) | _ \<Rightarrow>
      if is_opt CHR ''-'' opt then Inr (cfg\<lparr>gn_banner := True\<rparr>)
      else if is_opt CHR ''B'' opt then Inr (cfg\<lparr>gn_by_name := True\<rparr>)
      else if is_opt CHR ''c'' opt then Inr (cfg\<lparr>gn_chip_id := Some (optarg opt)\<rparr>)
      else if is_opt CHR ''e'' opt
      then set_arg (parse_event_type_or_die (optarg opt)) (\<lambda>e. cfg\<lparr>gn_event_type := Some e\<rparr>)
      else if is_opt CHR ''F'' opt then Inr (cfg\<lparr>gn_fmt := Some (optarg opt)\<rparr>)
      else if is_opt CHR ''i'' opt
      then set_arg (parse_period_or_die (optarg opt)) (\<lambda>p. cfg\<lparr>gn_timeout := uint (p div 1000)\<rparr>)
      else if is_opt CHR ''n'' opt
      then set_arg (parse_uint_or_die (optarg opt)) (\<lambda>n. cfg\<lparr>gn_events_wanted := sint n\<rparr>)
      else if is_opt CHR ''q'' opt then Inr (cfg\<lparr>gn_quiet := True\<rparr>)
      else if is_opt CHR ''Q'' opt then Inr (cfg\<lparr>gn_unquoted := True\<rparr>)
      else if is_opt CHR ''s'' opt then Inr (cfg\<lparr>gn_strict := True\<rparr>)
      else common_option prog opt cfg)"

definition gpionotify_parse_config :: "string \<Rightarrow> string list \<Rightarrow> (gpionotify_config \<times> string list) tool" where
  "gpionotify_parse_config prog args =
     (case getopt_long ''+c:e:hF:n:qshv'' gpionotify_longopts args of
        (opts, rest) \<Rightarrow>
          set_arg (option_loop (gpionotify_option prog) opts gpionotify_default) (\<lambda>cfg. (cfg, rest)))"

section \<open>Printing\<close>

definition gpionotify_print_banner :: "string list \<Rightarrow> string" where
  "gpionotify_print_banner lines = banner_text ''Watching'' lines"

text \<open>The enumeration has no further value, so the branch \<open>unknown\<close> is never taken.\<close>

definition print_event_type :: "gpiod_info_event_type \<Rightarrow> string" where
  "print_event_type evtype = (case evtype of
     GPIOD_INFO_EVENT_LINE_REQUESTED \<Rightarrow> ''requested''
   | GPIOD_INFO_EVENT_LINE_RELEASED \<Rightarrow> ''released''
   | GPIOD_INFO_EVENT_LINE_CONFIG_CHANGED \<Rightarrow> ''reconfigured'')"

definition info_event_type_int :: "gpiod_info_event_type \<Rightarrow> nat" where
  "info_event_type_int evtype = (case evtype of
     GPIOD_INFO_EVENT_LINE_REQUESTED \<Rightarrow> 1 | GPIOD_INFO_EVENT_LINE_RELEASED \<Rightarrow> 2
   | GPIOD_INFO_EVENT_LINE_CONFIG_CHANGED \<Rightarrow> 3)"

definition timespec_ns :: "u64 \<times> u64 \<Rightarrow> u64" where
  "timespec_ns ts = snd ts + fst ts * 1000000000"

definition monotonic_to_realtime :: "'k run_env \<Rightarrow> u64 \<Rightarrow> ('k, u64) prog" where
  "monotonic_to_realtime E evtime =
     exec (sys_call (\<lambda>c k. case re_realtime E k of (ts, k) \<Rightarrow> (timespec_ns ts, c, k))) (\<lambda>before.
     exec (sys_call (\<lambda>c k. case re_monotonic E k of (ts, k) \<Rightarrow> (timespec_ns ts, c, k))) (\<lambda>mono.
     exec (sys_call (\<lambda>c k. case re_realtime E k of (ts, k) \<Rightarrow> (timespec_ns ts, c, k))) (\<lambda>after.
     give (evtime + (after div 2 - mono + before div 2)))))"

text \<open>The switch over the format character.\<close>

definition notify_expand :: "'k run_env \<Rightarrow> gpionotify_config \<Rightarrow> gpiod_info_event \<Rightarrow> line_resolver \<Rightarrow> nat \<Rightarrow> char
    \<Rightarrow> ('k, unit) prog" where
  "notify_expand E cfg event resolver chip_num f =
     (let info = gpiod_info_event_get_line_info event;
          evtime = gpiod_info_event_get_timestamp_ns event;
          evtype = gpiod_info_event_get_event_type event;
          offset = gpiod_line_info_get_offset info
      in
        if f = CHR ''a'' then out (print_line_attributes info (gn_unquoted cfg))
        else if f = CHR ''c'' then out (get_chip_name resolver chip_num)
        else if f = CHR ''C''
        then out (if \<not> gpiod_line_info_is_used info then ''unused''
                  else case gpiod_line_info_get_consumer info of None \<Rightarrow> ''kernel'' | Some a \<Rightarrow> c_str a)
        else if f = CHR ''e'' then out (decimal (info_event_type_int evtype))
        else if f = CHR ''E'' then out (print_event_type evtype)
        else if f = CHR ''l''
        then out (case gpiod_line_info_get_name info of None \<Rightarrow> ''unnamed'' | Some a \<Rightarrow> c_str a)
        else if f = CHR ''L''
        then exec (monotonic_to_realtime E evtime) (\<lambda>t. out (print_event_time (re_utc E) (re_local E) t 2))
        else if f = CHR ''o'' then out (decimal (unat offset))
        else if f = CHR ''S'' then out (print_event_time (re_utc E) (re_local E) evtime 0)
        else if f = CHR ''U''
        then exec (monotonic_to_realtime E evtime) (\<lambda>t. out (print_event_time (re_utc E) (re_local E) t 1))
        else if f = CHR ''%'' then out ''%''
        else out [CHR ''%'', f])"

definition notify_print_formatted :: "'k run_env \<Rightarrow> gpionotify_config \<Rightarrow> string \<Rightarrow> gpiod_info_event \<Rightarrow> line_resolver
    \<Rightarrow> nat \<Rightarrow> ('k, unit) prog" where
  "notify_print_formatted E cfg fmt event resolver chip_num =
     exec (format_loop (notify_expand E cfg event resolver chip_num) fmt) (\<lambda>_. out [CHR 10])"

definition notify_print_human_readable :: "'k run_env \<Rightarrow> gpionotify_config \<Rightarrow> gpiod_info_event \<Rightarrow> line_resolver
    \<Rightarrow> nat \<Rightarrow> ('k, unit) prog" where
  "notify_print_human_readable E cfg event resolver chip_num =
     (let evtime = gpiod_info_event_get_timestamp_ns event;
          offset = gpiod_line_info_get_offset (gpiod_info_event_get_line_info event)
      in
        exec (if gn_timestamp_fmt cfg \<noteq> 0 then monotonic_to_realtime E evtime else give evtime) (\<lambda>evtime.
        out (print_event_time (re_utc E) (re_local E) evtime (gn_timestamp_fmt cfg)
          @ [CHR 9] @ print_event_type (gpiod_info_event_get_event_type event) @ [CHR 9]
          @ print_line_id resolver chip_num offset (gn_chip_id cfg) (gn_unquoted cfg) @ [CHR 10])))"

definition notify_event_print :: "'k run_env \<Rightarrow> gpionotify_config \<Rightarrow> gpiod_info_event \<Rightarrow> line_resolver \<Rightarrow> nat
    \<Rightarrow> ('k, unit) prog" where
  "notify_event_print E cfg event resolver chip_num =
     (if gn_quiet cfg then give ()
      else case gn_fmt cfg of
        Some fmt \<Rightarrow> notify_print_formatted E cfg fmt event resolver chip_num
      | None \<Rightarrow> notify_print_human_readable E cfg event resolver chip_num)"

section \<open>The event loop\<close>

text \<open>
  The loop over the chips that are ready; the flag of the result is the jump to the label \<open>done\<close>.  No
  event is released.
\<close>

fun notify_chips :: "'k run_env \<Rightarrow> gpionotify_config \<Rightarrow> line_resolver \<Rightarrow> gpiod_chip obj list \<Rightarrow> (nat \<times> bool) list
    \<Rightarrow> int \<Rightarrow> ('k, bool \<times> int) prog" where
  "notify_chips E cfg resolver chips [] events_done = give (False, events_done)"
| "notify_chips E cfg resolver chips ((i, revents) # rest) events_done =
     (if \<not> revents then notify_chips E cfg resolver chips rest events_done
      else
      exec (or_perror ''unable to retrieve chip event''
        (sys_call (gpiod_chip_read_info_event (re_kernel E) (snd (chips ! i))))) (\<lambda>event.
      if gn_event_type cfg \<noteq> None \<and> Some (gpiod_info_event_get_event_type (snd event)) \<noteq> gn_event_type cfg
      then notify_chips E cfg resolver chips rest events_done
      else
      exec (notify_event_print E cfg (snd event) resolver i) (\<lambda>_.
      if gn_events_wanted cfg \<noteq> 0 \<and> events_done + 1 \<ge> gn_events_wanted cfg
      then give (True, events_done + 1)
      else notify_chips E cfg resolver chips rest (events_done + 1))))"

definition notify_round :: "'k run_env \<Rightarrow> gpionotify_config \<Rightarrow> line_resolver \<Rightarrow> gpiod_chip obj list \<Rightarrow> int
    \<Rightarrow> ('k, bool \<times> int) prog" where
  "notify_round E cfg resolver chips events_done =
     exec (or_perror ''error polling for events''
       (sys_call (poll E (map (\<lambda>p. gpiod_chip_get_fd (snd p)) chips) (gn_timeout cfg)))) (\<lambda>revents.
     if \<not> list_ex (\<lambda>b. b) revents then give (True, events_done)
     else notify_chips E cfg resolver chips (zip [0..<rv_num_chips resolver] revents) events_done)"

partial_function (option) notify_loop :: "'k run_env \<Rightarrow> gpionotify_config \<Rightarrow> line_resolver \<Rightarrow> gpiod_chip obj list
    \<Rightarrow> int \<Rightarrow> 'k tstate \<Rightarrow> (int tool \<times> 'k tstate) option" where
  "notify_loop E cfg resolver chips events_done s =
     (case notify_round E cfg resolver chips events_done s of
        (Inl e, s) \<Rightarrow> Some (Inl e, s)
      | (Inr (finished, events_done), s) \<Rightarrow>
          if finished then Some (Inr events_done, s) else notify_loop E cfg resolver chips events_done s)"

section \<open>The program\<close>

text \<open>The loop over the lines of a chip: the information the watch returns is not kept.\<close>

definition watch_line :: "'k run_env \<Rightarrow> gpiod_chip \<Rightarrow> string \<Rightarrow> nat \<Rightarrow> resolved_line \<Rightarrow> ('k, unit) prog" where
  "watch_line E chip path i line =
     only_if (rl_chip_num line = int i)
       (exec (or_perror (''unable to watch line on chip '' @ [CHR 0x27] @ path @ [CHR 0x27])
          (sys_call (gpiod_chip_watch_line_info (re_kernel E) chip (rl_offset line)))) (\<lambda>_. give ()))"

text \<open>The array \<open>chips\<close> is written without a test that its allocation succeeded.\<close>

definition gpionotify_chip :: "'k run_env \<Rightarrow> nat option \<Rightarrow> line_resolver \<Rightarrow> nat \<Rightarrow> gpiod_chip obj list
    \<Rightarrow> ('k, gpiod_chip obj list) prog" where
  "gpionotify_chip E chips_blk resolver i chips =
     (let path = snd (the (rch_path (rv_chips resolver ! i))) in
      exec (or_perror (''unable to open chip '' @ [CHR 0x27] @ path @ [CHR 0x27])
        (sys_call (gpiod_chip_open (re_kernel E) (Some path)))) (\<lambda>chip.
      exec (each (watch_line E (snd chip) path i) (rv_lines resolver)) (\<lambda>_.
      if chips_blk = None then of_tool (Inl Crashed) else give (chips @ [chip]))))"

definition gpionotify_setup :: "'k run_env \<Rightarrow> string \<Rightarrow> string list
    \<Rightarrow> ('k, gpionotify_config \<times> line_resolver obj \<times> gpiod_chip obj list \<times> nat option) prog" where
  "gpionotify_setup E prog args =
     exec (of_tool (gpionotify_parse_config prog args)) (\<lambda>(cfg, lines).
     if length lines < 1 then quit ''at least one GPIO line must be specified''
     else if length lines > 64 then quit ''too many lines given'' else
     exec (tool_call (resolve_lines (re_tool E) lines (gn_chip_id cfg) (gn_strict cfg) (gn_by_name cfg))) (\<lambda>resolver.
     exec (of_tool (validate_resolution (snd resolver) (gn_chip_id cfg))) (\<lambda>_.
     exec (crt_call malloc) (\<lambda>chips_blk. exec (crt_call malloc) (\<lambda>pollfds.
     if pollfds = None then quit ''out of memory'' else
     exec (foldp (gpionotify_chip E chips_blk (snd resolver)) [0..<rv_num_chips (snd resolver)] []) (\<lambda>chips.
     exec (only_if (gn_banner cfg) (out (gpionotify_print_banner lines))) (\<lambda>_.
     give (cfg, resolver, chips, chips_blk))))))))"

definition gpionotify_cleanup :: "'k run_env \<Rightarrow> gpiod_chip obj list \<Rightarrow> nat option \<Rightarrow> line_resolver obj
    \<Rightarrow> ('k, unit) prog" where
  "gpionotify_cleanup E chips chips_blk resolver =
     exec (each (\<lambda>chip. sys_do (gpiod_chip_close (re_kernel E) (Some chip))) chips) (\<lambda>_.
     exec (crt_do (\<lambda>c. case chips_blk of None \<Rightarrow> c | Some b \<Rightarrow> free b c)) (\<lambda>_.
     crt_do (free_line_resolver (Some resolver))))"

definition gpionotify_main :: "'k run_env \<Rightarrow> string \<Rightarrow> string list \<Rightarrow> ('k, unit) run" where
  "gpionotify_main E prog args s =
     and_then (Some (gpionotify_setup E prog args s)) (\<lambda>(cfg, resolver, chips, chips_blk) s.
     and_then (notify_loop E cfg (snd resolver) chips 0 s) (\<lambda>events_done s.
     Some (gpionotify_cleanup E chips chips_blk resolver s)))"

section \<open>Events are never released\<close>

definition in_use :: "nat \<Rightarrow> 'k tstate \<Rightarrow> bool" where
  "in_use n s \<longleftrightarrow> heap_ok (ts_crt s) \<and> n \<le> card (live (ts_crt s))"

lemma in_use_calls [triple_rules]:
  "triple (in_use n) (out str) (\<lambda>_. in_use n)"
  "triple (in_use n) (give x) (\<lambda>_. in_use n)"
  "triple (in_use n) (sys_call (\<lambda>c k. case f k of (ts, k) \<Rightarrow> (g ts, c, k))) (\<lambda>_. in_use n)"
  by (auto simp: triple_def in_use_def out_def give_def sys_call_def split: prod.splits)

lemma monotonic_to_realtime_in_use [triple_rules]:
  "triple (in_use n) (monotonic_to_realtime E t) (\<lambda>_. in_use n)"
  unfolding monotonic_to_realtime_def by (rule triple_rules)+

lemma notify_expand_in_use: "triple (in_use n) (notify_expand E cfg event resolver i f) (\<lambda>_. in_use n)"
  unfolding notify_expand_def Let_def by (rule triple_rules)+

lemma format_loop_in_use:
  assumes "\<And>f. triple (in_use n) (expand f) (\<lambda>_. in_use n)"
  shows "triple (in_use n) (format_loop expand fmt) (\<lambda>_. in_use n)"
  using assms
proof (induction expand fmt rule: format_loop.induct)
  case (2 expand ch fmt)
  show ?case
  proof (cases "ch = CHR ''%''")
    case False
    with 2 triple_exec [OF in_use_calls(1)] show ?thesis by simp
  next
    case True
    with 2 triple_exec [OF 2(3)] show ?thesis by (cases fmt) (simp_all add: in_use_calls)
  qed
qed (simp add: in_use_calls)

lemma notify_event_print_in_use:
  "triple (in_use n) (notify_event_print E cfg event resolver i) (\<lambda>_. in_use n)"
proof -
  have "triple (in_use n) (notify_print_formatted E cfg fmt event resolver i) (\<lambda>_. in_use n)" for fmt
    unfolding notify_print_formatted_def
    by (rule triple_exec format_loop_in_use notify_expand_in_use in_use_calls)+
  moreover have "triple (in_use n) (notify_print_human_readable E cfg event resolver i) (\<lambda>_. in_use n)"
    unfolding notify_print_human_readable_def Let_def by (rule triple_rules)+
  ultimately show ?thesis by (simp add: notify_event_print_def in_use_calls split: option.split)
qed

text \<open>An event that was read takes two blocks.\<close>

lemma read_info_event_in_use:
  "triple (in_use n) (or_perror msg (sys_call (gpiod_chip_read_info_event K chip))) (\<lambda>_. in_use (n + 2))"
  unfolding triple_def
proof (intro allI impI)
  fix s ev and s' :: "'a tstate"
  assume n: "in_use n s" and run: "or_perror msg (sys_call (gpiod_chip_read_info_event K chip)) s = (Inr ev, s')"
  obtain r c1 k1 where rd: "gpiod_chip_read_info_event K chip (ts_crt s) (ts_k s) = (r, c1, k1)" by (rule prod_cases3)
  with run have ev: "r = Some ev" "s' = s\<lparr>ts_crt := c1, ts_k := k1\<rparr>"
    by (auto simp: prog_defs die_perror_def split: option.splits)
  then obtain u where "gpiod_info_event_from_uapi u (ts_crt s) = (Some ev, c1)"
    using rd by (auto simp: gpiod_chip_read_info_event_def gpiod_info_event_read_fd_def
        split: prod.splits sum.splits if_splits)
  moreover have ok: "heap_ok (ts_crt s)" using n by (simp add: in_use_def)
  ultimately have new: "heap_ok c1" "live c1 = live (ts_crt s) \<union> info_event_blocks ev"
    "live (ts_crt s) \<inter> info_event_blocks ev = {}" "fst ev \<noteq> fst (ie_info (snd ev))"
    using info_event_heap.new_ok by blast+
  have "finite (live (ts_crt s))" using ok finite_subset by (auto simp: heap_ok_def)
  then have "card (live c1) = card (live (ts_crt s)) + 2"
    using new by (simp add: card_Un_disjoint info_event_blocks_def)
  with n new(1) show "in_use (n + 2) s'" by (simp add: ev(2) in_use_def)
qed

lemma notify_chips_in_use:
  "triple (in_use n) (notify_chips E cfg resolver chips ready d)
    (\<lambda>(fin, d') s. d \<le> d' \<and> in_use (n + 2 * nat (d' - d)) s)"
proof (induction ready arbitrary: n d)
  case Nil
  then show ?case by (simp add: triple_def give_def)
next
  case (Cons x ready)
  obtain i hit where x: "x = (i, hit)" by (cases x)
  have later: "triple (in_use (n + 2)) (notify_chips E cfg resolver chips ready d)
      (\<lambda>(fin, d') s. d \<le> d' \<and> in_use (n + 2 * nat (d' - d)) s)"
    using Cons.IH [of "n + 2" d] by (fastforce simp: triple_def in_use_def)
  have counted: "triple (in_use (n + 2)) (notify_chips E cfg resolver chips ready (d + 1))
      (\<lambda>(fin, d') s. d \<le> d' \<and> in_use (n + 2 * nat (d' - d)) s)"
    using Cons.IH [of "n + 2" "d + 1"] by (fastforce simp: triple_def in_use_def nat_diff_distrib)
  have last: "triple (in_use (n + 2)) (give (True, d + 1)) (\<lambda>(fin, d') s. d \<le> d' \<and> in_use (n + 2 * nat (d' - d)) s)"
    by (simp add: triple_def give_def)
  show ?case unfolding x notify_chips.simps
    by (rule triple_if triple_exec read_info_event_in_use notify_event_print_in_use Cons.IH later counted last)+
qed

lemma notify_round_in_use:
  "triple (in_use n) (notify_round E cfg resolver chips d) (\<lambda>(fin, d') s. d \<le> d' \<and> in_use (n + 2 * nat (d' - d)) s)"
proof -
  have poll: "triple (in_use n) (or_perror msg (sys_call (poll E fds t))) (\<lambda>_. in_use n)" for msg fds t
    by (auto simp: triple_def prog_defs poll_def die_perror_def in_use_def split: prod.splits sum.splits option.splits)
  have stop: "triple (in_use n) (give (True, d)) (\<lambda>(fin, d') s. d \<le> d' \<and> in_use (n + 2 * nat (d' - d)) s)"
    by (simp add: triple_def give_def)
  show ?thesis unfolding notify_round_def by (rule triple_exec poll triple_if stop notify_chips_in_use)+
qed

text \<open>
  C37: \<open>gpionotify\<close> keeps every event.  Whenever its loop returns after counting some events, at least two
  blocks more are in use for each of them: the events read are never released, and a program that
  watches for long runs out of memory.
\<close>

theorem notify_loop_leaks:
  assumes "heap_ok (ts_crt s)" "notify_loop E cfg resolver chips d s = Some (Inr d', s')"
  shows "d \<le> d' \<and> card (live (ts_crt s)) + 2 * nat (d' - d) \<le> card (live (ts_crt s'))"
proof -
  have "\<forall>n d'. in_use n s \<longrightarrow> r = (Inr d', s') \<longrightarrow> d \<le> d' \<and> in_use (n + 2 * nat (d' - d)) s'"
    if "notify_loop E cfg resolver chips d s = Some r" for r
  proof (rule notify_loop.raw_induct [where P = "\<lambda>E cfg resolver chips d s r.
      \<forall>n d'. in_use n s \<longrightarrow> r = (Inr d', s') \<longrightarrow> d \<le> d' \<and> in_use (n + 2 * nat (d' - d)) s'", OF _ that], intro allI impI)
    fix f E cfg resolver chips d r n d' and s :: "'a tstate"
    assume IH: "\<And>E cfg resolver chips d s r. f E cfg resolver chips d s = Some r \<Longrightarrow>
        \<forall>n d'. in_use n s \<longrightarrow> r = (Inr d', s') \<longrightarrow> d \<le> d' \<and> in_use (n + 2 * nat (d' - d)) s'"
      and eq: "(case notify_round E cfg resolver chips d s of
        (Inl e, s) \<Rightarrow> Some (Inl e, s)
      | (Inr (finished, events_done), s) \<Rightarrow>
          if finished then Some (Inr events_done, s) else f E cfg resolver chips events_done s) = Some r"
      and n: "in_use n s" and r: "r = (Inr d', s')"
    obtain fin d1 s1 where round: "notify_round E cfg resolver chips d s = (Inr (fin, d1), s1)"
      using eq r by (auto split: prod.splits sum.splits)
    from tripleD [OF notify_round_in_use n round] have d1: "d \<le> d1" "in_use (n + 2 * nat (d1 - d)) s1" by simp_all
    show "d \<le> d' \<and> in_use (n + 2 * nat (d' - d)) s'"
    proof (cases fin)
      case True
      with eq r d1 show ?thesis by (simp add: round)
    next
      case False
      with eq have "f E cfg resolver chips d1 s1 = Some r" by (simp add: round)
      with IH r d1(2) have "d1 \<le> d' \<and> in_use (n + 2 * nat (d1 - d) + 2 * nat (d' - d1)) s'" by blast
      moreover from this d1(1) have "n + 2 * nat (d1 - d) + 2 * nat (d' - d1) = n + 2 * nat (d' - d)" by arith
      ultimately show ?thesis using d1(1) by auto
    qed
  qed
  from this [OF assms(2), rule_format, of "card (live (ts_crt s))" d'] assms(1) show ?thesis by (simp add: in_use_def)
qed

text \<open>A system in which lines are requested again and again.\<close>

declare notify_loop.simps [code]

definition noisy_run :: "nat list run_env" where
  "noisy_run = sample_run\<lparr>re_tool := sample_env\<lparr>te_kernel := null_kernel\<lparr>k_read_info_event :=
       (\<lambda>_ n k. (Inr (n, zero_line_info_changed\<lparr>lic_event_type := GPIOLINE_CHANGED_REQUESTED\<rparr>), k))\<rparr>\<rparr>,
     re_poll := (\<lambda>fds _ k. (Inr (map (\<lambda>_. True) fds), k))\<rparr>"

theorem notify_loop_leaks_witness:
  "case notify_loop noisy_run (gpionotify_default\<lparr>gn_quiet := True, gn_events_wanted := 2\<rparr>)
      (sample_lines\<lparr>rv_num_chips := 1\<rparr>) [(0, \<lparr>chip_fd = 5, chip_path = (1, ''/dev/gpiochip0'')\<rparr>)] 0 sample_tstate of
     None \<Rightarrow> False
   | Some (r, s') \<Rightarrow> r = Inr 2 \<and> 4 \<le> card (live (ts_crt s'))"
proof -
  let ?m = "notify_loop noisy_run (gpionotify_default\<lparr>gn_quiet := True, gn_events_wanted := 2\<rparr>)
      (sample_lines\<lparr>rv_num_chips := 1\<rparr>) [(0, \<lparr>chip_fd = 5, chip_path = (1, ''/dev/gpiochip0'')\<rparr>)] 0 sample_tstate"
  have "case ?m of None \<Rightarrow> False | Some (r, s') \<Rightarrow> r = Inr 2" by code_simp
  then obtain s' where m: "?m = Some (Inr 2, s')" by (cases ?m) auto
  have "heap_ok (ts_crt sample_tstate)" by (simp add: sample_tstate_def)
  from notify_loop_leaks [OF this m] show ?thesis
    by (simp only: m option.case prod.case) (simp add: sample_tstate_def crt_init_def)
qed

end
