(* ===== verification/Spec2Isabelle.thy ===== *)
theory Spec2Isabelle
  imports Gpioget Gpiodetect Gpioinfo Gpioset Gpiomon Gpionotify
begin

text \<open>
  Verification of \<open>libgpiod\<close>, the user-space library and the command line tools for GPIO character
  devices under \<open>src/test_cases/libgpiod\<close> (directories \<open>lib\<close>, \<open>include\<close> and \<open>tools\<close>).

  \<^bold>\<open>The program.\<close>  The library wraps the ioctl interface of the kernel (\<open>lib/uapi/gpio.h\<close>).  A client opens a
  \<^emph>\<open>chip\<close>, fills \<^emph>\<open>line settings\<close>, collects them per offset in a \<^emph>\<open>line configuration\<close>, and requests lines with
  it, beside a \<^emph>\<open>request configuration\<close>.  The configuration is compressed to at most ten attributes with
  bit masks.  A \<^emph>\<open>line request\<close> then reads and writes values and delivers \<^emph>\<open>edge events\<close> through a buffer.
  The tools \<open>gpiodetect\<close>, \<open>gpioinfo\<close>, \<open>gpioget\<close>, \<open>gpioset\<close>, \<open>gpiomon\<close> and \<open>gpionotify\<close> share
  \<open>tools-common.c\<close>: parsers, texts, and the \<^emph>\<open>resolver\<close>, which finds the chip and the offset of each line named
  on the command line.

  \<^bold>\<open>How code becomes definitions.\<close>  A C structure is a record, an enumeration a datatype (with a
  constructor for integers outside it where the code can meet one), \<open>__u32\<close> and \<open>__u64\<close> are words, and a
  \<open>size_t\<close> is a natural number with its wrap-around written out.  Every function takes and returns the state of
  the C run-time, the record \<open>crt\<close>: \<open>errno\<close>, the allocation attempts that fail (any set of them), the blocks in
  use, and whether an invalid release happened.  A pointer to an object is the number of its block with the
  contents, \<open>NULL\<close> is \<open>None\<close>.  The system calls are the fields of the record \<open>kernel\<close>, a parameter of the model
  over an arbitrary state; what a theorem needs of them is a hypothesis with a name (\<open>read_contract\<close>,
  \<open>values_contract\<close>, \<open>fd_contract\<close>, \<open>get_line_contract\<close>, \<open>names_contract\<close>, \<open>lineinfo_answers\<close>, \<open>offset_contract\<close>,
  \<open>scandir_contract\<close>, \<open>events_flow\<close>), and each is shown to hold for a concrete kernel.  A tool is a function of its
  state (\<open>tstate\<close>: run-time, system, standard output and error) that may leave the program; \<open>die\<close>, \<open>exit\<close>,
  \<open>abort\<close> and the use of an invalid pointer are values of \<open>tool_exit\<close>.  Loops over arrays are recursion over the
  list of indices; the loops that may not end (\<open>toggle_sequence\<close>, \<open>interact\<close>, the event loops) are partial
  functions whose value is \<open>None\<close> when they run forever.  No fuel is used.

  \<^bold>\<open>Theories.\<close>
  \<^item> \<open>Gpiod_Prelude\<close>: run-time, memory, C strings, lemmas on lists; the contract \<open>heap_object\<close> of
    constructors and destructors, interpreted for the seven kinds of objects that are allocated.
  \<^item> \<open>Gpiod_Uapi\<close>: \<open>lib/uapi/gpio.h\<close> and the documented meaning of an encoded configuration (\<open>effective_flags\<close>,
    \<open>effective_debounce\<close>, \<open>effective_value\<close>); the record \<open>kernel\<close>.
  \<^item> \<open>Gpiod_Internal\<close>: \<open>internal.c\<close>; the contract \<open>line_mask\<close> of the mask operations.
  \<^item> \<open>Line_Settings\<close>: \<open>line-settings.c\<close>; \<open>validated_property\<close> is the contract of the six setters that
    check their argument.
  \<^item> \<open>Line_Config\<close>: \<open>line-config.c\<close> up to \<open>to_uapi\<close>, with the invariant \<open>config_inv\<close>, the abstraction
    \<open>config_abs\<close> to an association list, and the contract \<open>config_op\<close> of the operations.
  \<^item> \<open>Line_Config_Uapi\<close>: \<open>gpiod_line_config_to_uapi\<close>, the grouping of lines into attributes.
  \<^item> \<open>Request_Config\<close>, \<open>Line_Info\<close>, \<open>Edge_Event\<close>, \<open>Line_Request\<close>, \<open>Chip\<close>: the files of these names, \<open>chip-info.c\<close>
    and \<open>info-event.c\<close> being in \<open>Line_Info\<close> and \<open>misc.c\<close> in \<open>Chip\<close>.
  \<^item> \<open>Tools_Common\<close>, \<open>Resolver\<close>, \<open>Chip_Paths\<close>: \<open>tools-common.c\<close>.
  \<^item> \<open>Tool_Program\<close>: programs as functions, their triples of partial correctness, and \<open>getopt_long\<close>.
  \<^item> \<open>Gpioget\<close>, \<open>Gpiodetect\<close>, \<open>Gpioinfo\<close>, \<open>Gpioset\<close>, \<open>Gpiomon\<close>, \<open>Gpionotify\<close>: one tool each, options, helpers and
    \<open>main\<close>.

  \<^bold>\<open>What is shown.\<close>
  \<^item> Configuration: adding settings refines an update of an association list; any sequence of calls, with
    allocation failures anywhere, keeps the invariant and leaks nothing; every error is characterised.
  \<^item> Encoding: the attributes mean to the kernel exactly the settings of each line; encoding fails exactly when
    more than ten attributes are needed; a debounce period survives exactly when it has 32 bits.
  \<^item> Requests: a granted request holds the lines asked for; descriptors and blocks are balanced on every path;
    values written are read back; one bulk write equals the single writes; reconfiguration is for the same lines
    only.
  \<^item> Events and information: the kernel records arrive decoded, in order, and within the capacity.
  \<^item> Tools: every line the resolver resolves has the name or offset asked for, and its information is what the
    system showed of it with the chip open at the path the resolver has for it (\<open>scan_state\<close>, \<open>line_shown\<close>); the
    validation accepts exactly complete resolutions without duplicates; printed values and periods are read
    back.  \<open>gpioget\<close> prints, for each line asked for, the bit the system returned for its chip and offset in a
    request of exactly the resolved lines with the settings of the options (\<open>chip_read\<close>, \<open>readings\<close>); \<open>gpioinfo\<close> lists
    each line of a chip with the information read for that offset; \<open>gpiodetect\<close> leaves no block and no descriptor
    behind, but for the one case of a failed allocation in the scan; \<open>gpiomon\<close> ends after the number of events asked
    for; a toggle sequence ends exactly with a final zero.
  \<^item> Deviations: the theorems on end of input and blank lines in the interactive mode, on periods that wrap,
    on the capacity of a configuration, on failed reads and on values that are not validated state what the code does where
    this is not what its documentation or its other parts lead to expect.

  \<^bold>\<open>Not modelled.\<close>  The help texts and version strings, which are constant output.  The deprecated first version
  of the kernel interface, which the library does not use.  The examples and language bindings of \<open>libgpiod\<close>, which
  only call the library; its test suite and simulator, which drive a kernel module.  The other
  directories of \<open>src/test_cases\<close> are copies of test suites for the kernel, for graphics drivers and for a hypervisor:
  what their programs mean is the behaviour of a system that is not in the repository.  The parsers under
  \<open>src/parser\<close> are generated tables, and the Python scripts at the top drive a database, version control and
  learning libraries.
\<close>

section \<open>Settings and line information\<close>

text \<open>
  C19: Settings survive the way through the kernel.  When the kernel reports a line with the flags of a
  settings object (with or without the \<open>USED\<close> flag), the decoded line information has the same drive,
  edge detection, event clock and active-low setting, the same direction unless it was \<open>AS_IS\<close>, and
  the same bias unless it was \<open>AS_IS\<close>, which is reported as unknown.
\<close>

theorem settings_info_round_trip:
  assumes "valid_settings s" "li_flags u = make_kernel_flags s OR w"
    and "w = 0 \<or> w = line_flag GPIO_V2_LINE_FLAG_USED"
  shows "gpiod_line_info_get_drive (line_info_of_uapi u) = gpiod_line_settings_get_drive s
    \<and> gpiod_line_info_get_edge_detection (line_info_of_uapi u) = gpiod_line_settings_get_edge_detection s
    \<and> gpiod_line_info_get_event_clock (line_info_of_uapi u) = gpiod_line_settings_get_event_clock s
    \<and> gpiod_line_info_is_active_low (line_info_of_uapi u) = gpiod_line_settings_get_active_low s
    \<and> gpiod_line_info_get_direction (line_info_of_uapi u)
        = (if gpiod_line_settings_get_direction s = GPIOD_LINE_DIRECTION_OUTPUT
           then GPIOD_LINE_DIRECTION_OUTPUT else GPIOD_LINE_DIRECTION_INPUT)
    \<and> gpiod_line_info_get_bias (line_info_of_uapi u)
        = (if gpiod_line_settings_get_bias s = GPIOD_LINE_BIAS_AS_IS then GPIOD_LINE_BIAS_UNKNOWN
           else gpiod_line_settings_get_bias s)"
proof -
  have flag: "has_flag (li_flags u) f \<longleftrightarrow> has_flag (make_kernel_flags s) f" if "f \<noteq> GPIO_V2_LINE_FLAG_USED" for f
    using assms(2,3) that by auto
  have val: "valid_direction (ls_direction s)" "valid_edge (ls_edge_detection s)" "valid_bias (ls_bias s)"
    "valid_drive (ls_drive s)" "valid_clock (ls_event_clock s)"
    using assms(1) by (simp_all add: valid_settings_def)
  note flags = flag has_flag_make_kernel_flags
  show ?thesis
  proof (intro conjI)
    show "gpiod_line_info_get_drive (line_info_of_uapi u) = gpiod_line_settings_get_drive s"
      using val(4) by (cases "ls_drive s")
        (simp_all add: info_getters settings_getters line_info_fields flags valid_drive_def)
    show "gpiod_line_info_get_edge_detection (line_info_of_uapi u) = gpiod_line_settings_get_edge_detection s"
      using val(2) by (cases "ls_edge_detection s")
        (simp_all add: info_getters settings_getters line_info_fields flags valid_edge_def)
    show "gpiod_line_info_get_event_clock (line_info_of_uapi u) = gpiod_line_settings_get_event_clock s"
      using val(5) by (cases "ls_event_clock s")
        (simp_all add: info_getters settings_getters line_info_fields flags valid_clock_def)
    show "gpiod_line_info_is_active_low (line_info_of_uapi u) = gpiod_line_settings_get_active_low s"
      by (simp add: info_getters settings_getters line_info_fields flags)
    show "gpiod_line_info_get_direction (line_info_of_uapi u)
        = (if gpiod_line_settings_get_direction s = GPIOD_LINE_DIRECTION_OUTPUT
           then GPIOD_LINE_DIRECTION_OUTPUT else GPIOD_LINE_DIRECTION_INPUT)"
      by (simp add: info_getters settings_getters line_info_fields flags)
    show "gpiod_line_info_get_bias (line_info_of_uapi u)
        = (if gpiod_line_settings_get_bias s = GPIOD_LINE_BIAS_AS_IS then GPIOD_LINE_BIAS_UNKNOWN
           else gpiod_line_settings_get_bias s)"
      using val(3) by (cases "ls_bias s")
        (simp_all add: info_getters settings_getters line_info_fields flags valid_bias_def)
  qed
qed

theorem settings_info_round_trip_witness:
  "gpiod_line_info_get_bias (line_info_of_uapi
     (zero_line_info\<lparr>li_flags := make_kernel_flags input_settings OR line_flag GPIO_V2_LINE_FLAG_USED\<rparr>))
   = GPIOD_LINE_BIAS_PULL_UP"
proof -
  have "valid_settings input_settings"
    by (simp add: valid_settings_def input_settings_def default_settings_def valid_defs)
  from settings_info_round_trip [OF this, of
      "zero_line_info\<lparr>li_flags := make_kernel_flags input_settings OR line_flag GPIO_V2_LINE_FLAG_USED\<rparr>"]
  show ?thesis by (simp add: settings_getters input_settings_def)
qed

end
